(* ===== verification/Prelude.thy ===== *)
theory Prelude
  imports Main "HOL-Library.Sublist"
begin

text \<open>
  Shared vocabulary of the kaptilo model: the types that name the program's values
  (timestamps, the JavaScript value of \<open>session.user\<close>, the errors a call can
  throw), the JavaScript array primitives the stores use (\<open>slice(-n)\<close>,
  \<open>startsWith\<close>, \<open>Array.from(new Set(xs))\<close>) with the lemmas that describe
  them, and the theorem collections the component theories feed.
\<close>

named_theorems js_simps "evaluation equations of the modelled JavaScript primitives"
named_theorems store_inv "facts that carry the store invariants through an operation"

section \<open>Types of the model\<close>

text \<open>A JavaScript \<open>Date\<close> is read as its time value: milliseconds since the epoch.\<close>

type_synonym time_ms = int

text \<open>
  \<open>session.user\<close> is whatever the authentication callback resolved, or
  \<open>undefined\<close> when the client never authenticated (possible when the server runs
  with \<open>authOptional\<close>).
\<close>

type_synonym js_user = "string option"

text \<open>The exceptions the modelled code can throw or reject with.\<close>

datatype js_error =
    TypeError string
  | AuthError string
  | RedisError string
  | StreamError

text \<open>
  A template literal \<open>`${user}`\<close> renders \<open>undefined\<close> as the text
  \<open>undefined\<close>.
\<close>

definition user_str :: "js_user \<Rightarrow> string" where
  "user_str u = (case u of None \<Rightarrow> ''undefined'' | Some s \<Rightarrow> s)"

lemma user_str_simps [simp, js_simps]:
  "user_str None = ''undefined''"
  "user_str (Some s) = s"
  by (simp_all add: user_str_def)

section \<open>Array primitives\<close>

text \<open>
  \<open>xs.slice(-n)\<close>: the last \<open>n\<close> elements. JavaScript reads \<open>-0\<close> as \<open>0\<close>,
  so \<open>slice(-0)\<close> is the whole array.
\<close>

definition js_slice_neg :: "nat \<Rightarrow> 'a list \<Rightarrow> 'a list" where
  "js_slice_neg n xs = (if n = 0 then xs else drop (length xs - n) xs)"

lemma length_js_slice_neg:
  "0 < n \<Longrightarrow> length (js_slice_neg n xs) = min n (length xs)"
  by (simp add: js_slice_neg_def)

lemma js_slice_neg_suffix [store_inv]: "suffix (js_slice_neg n xs) xs"
  by (simp add: js_slice_neg_def suffix_drop)

lemma set_js_slice_neg [store_inv]: "set (js_slice_neg n xs) \<subseteq> set xs"
  by (simp add: js_slice_neg_def set_drop_subset)

lemma distinct_js_slice_neg [store_inv]: "distinct xs \<Longrightarrow> distinct (js_slice_neg n xs)"
  by (simp add: js_slice_neg_def)

lemma js_slice_neg_map: "js_slice_neg n (map f xs) = map f (js_slice_neg n xs)"
  by (simp add: js_slice_neg_def drop_map)

lemma js_slice_neg_length_le [store_inv]: "length (js_slice_neg n xs) \<le> length xs"
  by (simp add: js_slice_neg_def)

text \<open>
  \<open>xs.startsWith(p)\<close> on strings, and \<open>Array.prototype.includes\<close> is
  membership in \<open>set\<close>.
\<close>

definition starts_with :: "'a list \<Rightarrow> 'a list \<Rightarrow> bool" where
  "starts_with s p \<longleftrightarrow> take (length p) s = p"

lemma starts_with_prefix: "starts_with s p \<longleftrightarrow> prefix p s"
  by (simp add: starts_with_def prefix_def) (metis append_take_drop_id take_all_iff
      append_eq_conv_conj)

lemma starts_with_append [simp, js_simps]: "starts_with (p @ r) p"
  by (simp add: starts_with_def)

text \<open>
  \<open>Array.from(new Set(xs))\<close>: the distinct elements of \<open>xs\<close>, each at the
  position of its first occurrence (a \<open>Set\<close> iterates in insertion order). The
  helper walks the array with the elements already seen.
\<close>

fun js_set_from :: "'a list \<Rightarrow> 'a list \<Rightarrow> 'a list" where
  "js_set_from seen [] = []"
| "js_set_from seen (x # xs) =
     (if x \<in> set seen then js_set_from seen xs else x # js_set_from (x # seen) xs)"

definition array_from_set :: "'a list \<Rightarrow> 'a list" where
  "array_from_set xs = js_set_from [] xs"

lemma set_js_set_from: "set (js_set_from seen xs) = set xs - set seen"
  by (induction seen xs rule: js_set_from.induct) auto

lemma distinct_js_set_from: "distinct (js_set_from seen xs)"
  by (induction seen xs rule: js_set_from.induct) (auto simp: set_js_set_from)

lemma set_array_from_set [simp]: "set (array_from_set xs) = set xs"
  by (simp add: array_from_set_def set_js_set_from)

lemma distinct_array_from_set [simp]: "distinct (array_from_set xs)"
  by (simp add: array_from_set_def distinct_js_set_from)

lemma js_set_from_distinct:
  "distinct xs \<Longrightarrow> set xs \<inter> set seen = {} \<Longrightarrow> js_set_from seen xs = xs"
  by (induction seen xs rule: js_set_from.induct) auto

lemma array_from_set_distinct: "distinct xs \<Longrightarrow> array_from_set xs = xs"
  by (simp add: array_from_set_def js_set_from_distinct)

lemma remdups_snoc: "remdups (ys @ [x]) = filter (\<lambda>y. y \<noteq> x) (remdups ys) @ [x]"
  by (induction ys) auto

lemma js_set_from_remdups:
  "js_set_from seen xs = filter (\<lambda>x. x \<notin> set seen) (rev (remdups (rev xs)))"
proof (induction seen xs rule: js_set_from.induct)
  case (2 seen x xs)
  have r: "rev (remdups (rev (x # xs))) = x # filter (\<lambda>y. y \<noteq> x) (rev (remdups (rev xs)))"
    by (simp add: remdups_snoc rev_filter)
  show ?case unfolding r using 2 by (auto simp: filter_filter intro!: filter_cong)
qed simp

text \<open>
  Equivalence with the library: \<open>Array.from(new Set(xs))\<close> as the code walks it
  is HOL's \<open>remdups\<close> read from the other end, i.e. it keeps the first occurrence of
  each element where \<open>remdups\<close> keeps the last.
\<close>

lemma array_from_set_remdups: "array_from_set xs = rev (remdups (rev xs))"
  by (simp add: array_from_set_def js_set_from_remdups)

section \<open>Lists and maps\<close>

text \<open>
  \<open>List.map_filter m ks\<close> reads the values a key list addresses in a map, dropping
  the keys the map lacks; it is the abstraction the stores share.
\<close>

lemma map_filter_append [simp]:
  "List.map_filter f (xs @ ys) = List.map_filter f xs @ List.map_filter f ys"
  by (simp add: map_filter_def)

lemma map_filter_cong_set:
  "(\<And>x. x \<in> set xs \<Longrightarrow> f x = g x) \<Longrightarrow> List.map_filter f xs = List.map_filter g xs"
  by (induction xs) (auto split: option.splits)

lemma map_filter_filter:
  "List.map_filter f (filter P xs) = List.map_filter (\<lambda>x. if P x then f x else None) xs"
  by (induction xs) (auto split: option.splits)

lemma map_filter_dom:
  "set xs \<subseteq> dom f \<Longrightarrow> List.map_filter f xs = map (\<lambda>x. the (f x)) xs"
  by (induction xs) auto

lemma length_map_filter_dom:
  "set xs \<subseteq> dom f \<Longrightarrow> length (List.map_filter f xs) = length xs"
  by (induction xs) auto

end
