(* ===== verification/JsString.thy ===== *)
theory JsString
  imports Prelude
begin

text \<open>
  The string operations of the program, with the JavaScript semantics the code relies
  on. A JavaScript string is a sequence of UTF-16 code units; the model reads it as a
  \<open>char\<close> list, so it covers the code units below 256 (the line terminators
  U+2028 and U+2029 lie outside it). The operations: the regular expression
  \<open>^(.*):.*\<close> with which both stores read the user back out of a key, the global
  replacement \<open>/[<>]/g\<close> that normalises a message identifier, and the
  \<open>split(',')\<close> and \<open>trim()\<close> that read the static credential list.
\<close>

section \<open>Line terminators and the user-extraction regex\<close>

text \<open>In a regular expression without the \<open>s\<close> flag, \<open>.\<close> matches any code unit but
  a line terminator.\<close>

definition is_line_term :: "char \<Rightarrow> bool" where
  "is_line_term c \<longleftrightarrow> c = CHR 0x0A \<or> c = CHR 0x0D"

text \<open>The part of \<open>xs\<close> before the last occurrence of \<open>c\<close>.\<close>

definition before_last :: "'a \<Rightarrow> 'a list \<Rightarrow> 'a list" where
  "before_last c xs = rev (tl (dropWhile (\<lambda>x. x \<noteq> c) (rev xs)))"

text \<open>
  \<open>k.replace(new RegExp('^(.*):.*'), '$1')\<close> (and its \<open>^box:(.*):.*\<close> variant
  after the prefix). The anchor \<open>^\<close> fixes the match at position 0, and neither
  \<open>.*\<close> crosses a line terminator, so the match lives in the first line \<open>l\<close>.
  If \<open>l\<close> holds a colon the greedy \<open>(.*)\<close> stops at its last colon and the
  trailing \<open>.*\<close> eats the rest of \<open>l\<close>: the first line is replaced by the part
  before its last colon and the rest of the string stays. Without a colon there is no
  match and the string is returned as it is.
\<close>

definition key_user :: "string \<Rightarrow> string" where
  "key_user k =
     (let l = takeWhile (\<lambda>c. \<not> is_line_term c) k
      in if CHR '':'' \<in> set l then before_last CHR '':'' l @ drop (length l) k else k)"

lemma before_last_append_sep:
  "c \<notin> set ys \<Longrightarrow> before_last c (xs @ c # ys) = xs"
proof -
  assume "c \<notin> set ys"
  then have "dropWhile (\<lambda>x. x \<noteq> c) (rev ys) = []"
    by (auto simp: dropWhile_eq_Nil_conv)
  then show ?thesis by (simp add: before_last_def dropWhile_append)
qed

lemma key_user_key [js_simps]:
  assumes "CHR '':'' \<notin> set m" and "\<forall>c \<in> set (u @ m). \<not> is_line_term c"
  shows "key_user (u @ CHR '':'' # m) = u"
proof -
  let ?k = "u @ CHR '':'' # m"
  have nt: "\<not> is_line_term CHR '':''" by (simp add: is_line_term_def)
  with assms(2) have tw: "takeWhile (\<lambda>c. \<not> is_line_term c) ?k = ?k"
    by (simp add: takeWhile_eq_all_conv)
  show ?thesis
    unfolding key_user_def Let_def tw using assms(1) by (simp add: before_last_append_sep)
qed

section \<open>Message identifier normalisation\<close>

text \<open>\<open>s.replace(/[<>]/g, '')\<close>: every angle bracket, wherever it stands, is removed.\<close>

definition strip_angles :: "string \<Rightarrow> string" where
  "strip_angles s = filter (\<lambda>c. c \<noteq> CHR ''<'' \<and> c \<noteq> CHR ''>'') s"

section \<open>split and trim\<close>

text \<open>
  \<open>s.split(sep)\<close> with a one-character separator: the pieces between separators,
  empty pieces included, so the empty string splits into one empty piece.
\<close>

fun js_split :: "char \<Rightarrow> string \<Rightarrow> string list" where
  "js_split c [] = [[]]"
| "js_split c (x # xs) =
     (if x = c then [] # js_split c xs
      else (let r = js_split c xs in (x # hd r) # tl r))"

text \<open>
  \<open>s.trim()\<close> removes leading and trailing white space and line terminators; in the
  code units modelled these are tab, line feed, vertical tab, form feed, carriage return,
  space and no-break space (U+00A0).
\<close>

definition is_js_space :: "char \<Rightarrow> bool" where
  "is_js_space c \<longleftrightarrow> c \<in> {CHR 0x09, CHR 0x0A, CHR 0x0B, CHR 0x0C, CHR 0x0D, CHR 0x20, CHR 0xA0}"

definition js_trim :: "string \<Rightarrow> string" where
  "js_trim s = rev (dropWhile is_js_space (rev (dropWhile is_js_space s)))"

section \<open>ASCII case\<close>

text \<open>\<open>toLowerCase\<close> and \<open>toUpperCase\<close> on one ASCII character.\<close>

definition js_lower :: "char \<Rightarrow> char" where
  "js_lower c = (let n = of_char c :: nat in if 65 \<le> n \<and> n \<le> 90 then char_of (n + 32) else c)"

definition js_upper :: "char \<Rightarrow> char" where
  "js_upper c = (let n = of_char c :: nat in if 97 \<le> n \<and> n \<le> 122 then char_of (n - 32) else c)"

end
