(* ===== verification/Mailbox.thy ===== *)
theory Mailbox
  imports JsString
begin

text \<open>
  The data both stores exchange with their callers, and the abstract mailbox that states
  what a store promises. The parsed message is the part of the \<open>mailparser\<close> result
  the stores read (\<open>messageId\<close>, \<open>subject\<close>, \<open>date\<close>, \<open>to.text\<close>); the stored
  record is the object literal of \<open>LocalStorage.push\<close>, whose metadata part is what
  \<open>getEmails\<close> returns. The abstract mailbox is the list of live records, oldest
  first, with the insertion rule of the store contract: append, keep the newest
  \<open>maxItems\<close>, drop what is older than the retention window.
\<close>

section \<open>Records\<close>

text \<open>
  The fields of the parsed message the stores use. \<open>p_to\<close> is \<open>email.to.text\<close>,
  or \<open>None\<close> when the message has no To header and \<open>email.to\<close> is undefined.
\<close>

record parsed_email =
  p_messageId :: string
  p_subject :: string
  p_date :: time_ms
  p_to :: "string option"

text \<open>The metadata of a stored message, and the stored message with its raw text.\<close>

record email_meta =
  messageId :: string
  subject :: string
  date :: time_ms
  recipient :: string
  user :: js_user

record message = email_meta +
  raw :: string

text \<open>The identity a stored message belongs to, as the key spells it.\<close>

definition msg_owner :: "('a) email_meta_scheme \<Rightarrow> string" where
  "msg_owner m = user_str (user m)"

section \<open>The composite key\<close>

text \<open>\<open>`${user}:${messageId}`\<close>: the key both stores build.\<close>

definition email_key :: "string \<Rightarrow> string \<Rightarrow> string" where
  "email_key u i = u @ CHR '':'' # i"

lemma takeWhile_email_key:
  "CHR '':'' \<notin> set u \<Longrightarrow> takeWhile (\<lambda>c. c \<noteq> CHR '':'') (email_key u i) = u"
  by (induction u) (auto simp: email_key_def)

lemma email_key_inj:
  assumes "CHR '':'' \<notin> set u" and "CHR '':'' \<notin> set u'"
    and "email_key u i = email_key u' i'"
  shows "u = u' \<and> i = i'"
proof -
  have "takeWhile (\<lambda>c. c \<noteq> CHR '':'') (email_key u i) = u"
    "takeWhile (\<lambda>c. c \<noteq> CHR '':'') (email_key u' i') = u'"
    using assms(1,2) by (simp_all add: takeWhile_email_key)
  with assms(3) have "u = u'" by simp
  with assms(3) show ?thesis by (simp add: email_key_def)
qed

lemma email_key_prefix:
  assumes "CHR '':'' \<notin> set u" and "CHR '':'' \<notin> set v"
  shows "starts_with (email_key v i) (u @ '':'') \<longleftrightarrow> u = v"
proof
  assume "starts_with (email_key v i) (u @ '':'')"
  then obtain r where r: "email_key v i = u @ CHR '':'' # r"
    by (auto simp: starts_with_prefix prefix_def)
  have "email_key v i = email_key u r" using r by (simp add: email_key_def)
  with assms show "u = v" by (blast dest: email_key_inj)
next
  assume "u = v"
  then show "starts_with (email_key v i) (u @ '':'')" by (simp add: email_key_def starts_with_def)
qed

section \<open>The store interface\<close>

text \<open>
  What the SMTP front end needs of a store: \<open>push(user, email, raw)\<close>, run at a time,
  returning its outcome and the store it leaves. Both backends provide one.
\<close>

type_synonym 's store_push =
  "'s \<Rightarrow> js_user \<Rightarrow> parsed_email \<Rightarrow> string \<Rightarrow> time_ms \<Rightarrow> (js_error + unit) \<times> 's"

section \<open>Abstract mailbox\<close>

text \<open>
  The live messages, oldest first. A message is addressed by its owner and its
  identifier; a well-formed mailbox addresses each message once.
\<close>

type_synonym mailbox = "message list"

definition msg_addr :: "message \<Rightarrow> string \<times> string" where
  "msg_addr m = (msg_owner m, messageId m)"

definition mb_wf :: "mailbox \<Rightarrow> bool" where
  "mb_wf box \<longleftrightarrow> distinct (map msg_addr box)"

text \<open>Capacity: the newest \<open>cap\<close> messages; \<open>0\<close> disables the bound.\<close>

definition mb_bound :: "nat \<Rightarrow> 'a list \<Rightarrow> 'a list" where
  "mb_bound cap xs = (if cap = 0 then xs else rev (take cap (rev xs)))"

text \<open>Retention: a message is visible while its date is within \<open>ttl\<close> minutes of now;
  \<open>0\<close> disables the bound.\<close>

definition mb_fresh :: "nat \<Rightarrow> time_ms \<Rightarrow> ('a) email_meta_scheme \<Rightarrow> bool" where
  "mb_fresh ttl now m \<longleftrightarrow> ttl = 0 \<or> now - int ttl * 60000 \<le> date m"

definition mb_insert :: "nat \<Rightarrow> nat \<Rightarrow> time_ms \<Rightarrow> message \<Rightarrow> mailbox \<Rightarrow> mailbox" where
  "mb_insert cap ttl now m box = filter (mb_fresh ttl now) (mb_bound cap (box @ [m]))"

definition mb_list :: "string \<Rightarrow> mailbox \<Rightarrow> email_meta list" where
  "mb_list u box = map email_meta.truncate (filter (\<lambda>m. msg_owner m = u) box)"

definition mb_get :: "string \<Rightarrow> string \<Rightarrow> mailbox \<Rightarrow> string option" where
  "mb_get u i box = map_option raw (find (\<lambda>m. msg_addr m = (u, i)) box)"

definition mb_users :: "mailbox \<Rightarrow> string list" where
  "mb_users box = array_from_set (map msg_owner box)"

subsection \<open>What the contract guarantees\<close>

lemma js_slice_neg_mb_bound: "js_slice_neg n xs = mb_bound n xs"
  by (simp add: js_slice_neg_def mb_bound_def take_rev)

lemma length_mb_bound: "0 < cap \<Longrightarrow> length (mb_bound cap xs) \<le> cap"
  by (simp add: mb_bound_def)

lemma mb_bound_small: "length xs \<le> cap \<Longrightarrow> mb_bound cap xs = xs"
  by (simp add: mb_bound_def)

lemma mb_bound_snoc:
  "0 < cap \<Longrightarrow> mb_bound cap (xs @ [x]) = rev (take (cap - 1) (rev xs)) @ [x]"
  by (cases cap) (simp_all add: mb_bound_def)

lemma mb_bound_suffix: "suffix (mb_bound cap xs) xs"
  by (metis js_slice_neg_mb_bound js_slice_neg_suffix)

lemma length_mb_insert: "0 < cap \<Longrightarrow> length (mb_insert cap ttl now m box) \<le> cap"
  unfolding mb_insert_def by (meson length_filter_le length_mb_bound order_trans)

lemma mb_wf_insert:
  assumes "mb_wf box" and "msg_addr m \<notin> msg_addr ` set box"
  shows "mb_wf (mb_insert cap ttl now m box)"
proof -
  have "distinct (map msg_addr (box @ [m]))" using assms by (simp add: mb_wf_def)
  then have "distinct (map msg_addr (mb_bound cap (box @ [m])))"
    using mb_bound_suffix by (metis distinct_append map_append suffix_def)
  then show ?thesis by (simp add: mb_wf_def mb_insert_def distinct_map_filter)
qed

lemma mb_get_insert:
  assumes "mb_wf box" and "msg_addr m \<notin> msg_addr ` set box" and "mb_fresh ttl now m"
  shows "mb_get (msg_owner m) (messageId m) (mb_insert cap ttl now m box) = Some (raw m)"
proof -
  let ?b = "mb_bound cap (box @ [m])"
  have "suffix ?b (box @ [m])" by (rule mb_bound_suffix)
  then obtain p where p: "box @ [m] = p @ ?b" by (auto simp: suffix_def)
  have "m \<in> set ?b"
    by (cases cap) (simp_all add: mb_bound_def)
  then obtain b0 where b0: "?b = b0 @ [m]"
    using p by (metis append_butlast_last_id append_is_Nil_conv last_appendR last_snoc
        not_Cons_self2 emptyE empty_set)
  from p b0 have "set b0 \<subseteq> set box"
    by (metis append_assoc butlast_snoc set_append sup_ge2)
  with assms(2) have "\<forall>x \<in> set (filter (mb_fresh ttl now) b0). msg_addr x \<noteq> msg_addr m"
    by (auto simp: image_iff) (metis subsetD)
  then have "find (\<lambda>x. msg_addr x = msg_addr m) (filter (mb_fresh ttl now) b0 @ [m]) = Some m"
    by (induction b0) auto
  with b0 assms(3) show ?thesis
    by (simp add: mb_get_def mb_insert_def msg_addr_def)
qed

end
