(* ===== verification/LocalStorage.thy ===== *)
theory LocalStorage
  imports Mailbox
begin

text \<open>
  The volatile store, \<open>src/src/local-storage.js\<close>. Its state is the class's four
  fields: the ordered key list, the key-to-record object, and the two settings read from
  the environment at construction. Every method is one definition; \<open>push\<close> returns
  its outcome with the state it leaves, and the reads return the value or the exception
  they would throw. The theory proves the key/record consistency invariant, the capacity
  bound, the insert/lookup round trip, the refinement of the abstract mailbox, and the
  places where the code departs from that contract.
\<close>

section \<open>State\<close>

text \<open>
  \<open>maxItems\<close> is \<open>process.env.MAX_ITEMS || 0\<close>, compared numerically, so it is
  read as a count. \<open>ttl\<close> is \<open>process.env.TTL || 0\<close> and is only tested for
  truthiness: \<open>None\<close> when the variable is unset or empty (the number \<open>0\<close>),
  \<open>Some n\<close> when it holds the numeral \<open>n\<close>, which as a non-empty string is truthy
  even when \<open>n = 0\<close>.
\<close>

record local_storage =
  keys :: "string list"
  emails :: "string \<rightharpoonup> message"
  maxItems :: nat
  ttl :: "nat option"

definition local_new :: "nat \<Rightarrow> nat option \<Rightarrow> local_storage" where
  "local_new max_items ttl_env =
     \<lparr>keys = [], emails = Map.empty, maxItems = max_items, ttl = ttl_env\<rparr>"

section \<open>Operations\<close>

text \<open>
  The object literal stored by \<open>push\<close>: reading \<open>email.to.text\<close> throws when the
  message has no To header, before anything is assigned.
\<close>

definition local_record :: "js_user \<Rightarrow> parsed_email \<Rightarrow> string \<Rightarrow> js_error + message" where
  "local_record u e r =
     (case p_to e of
        None \<Rightarrow> Inl (TypeError ''Cannot read properties of undefined (reading 'text')'')
      | Some t \<Rightarrow> Inr \<lparr>messageId = p_messageId e, subject = p_subject e, date = p_date e,
                      recipient = t, user = u, raw = r\<rparr>)"

text \<open>
  The capacity branch of \<open>push\<close>: keep the last \<open>maxItems\<close> keys, and delete every
  record whose key is no longer in the list.
\<close>

definition local_evict :: "local_storage \<Rightarrow> local_storage" where
  "local_evict s =
     (if 0 < maxItems s \<and> maxItems s < length (keys s) then
        (let ks = js_slice_neg (maxItems s) (keys s)
         in s\<lparr>keys := ks, emails := emails s |` set ks\<rparr>)
      else s)"

text \<open>
  \<open>checkTtl\<close>: when \<open>ttl\<close> is truthy, every record dated before
  \<open>now - ttl\<close> minutes is deleted from the object and its key filtered out of the list.
\<close>

definition local_expired :: "(string \<rightharpoonup> message) \<Rightarrow> time_ms \<Rightarrow> string \<Rightarrow> bool" where
  "local_expired es threshold k = (case es k of None \<Rightarrow> False | Some m \<Rightarrow> date m < threshold)"

definition local_checkTtl :: "time_ms \<Rightarrow> local_storage \<Rightarrow> local_storage" where
  "local_checkTtl now s =
     (case ttl s of
        None \<Rightarrow> s
      | Some n \<Rightarrow>
          (let threshold = now - int n * 60000;
               gone = local_expired (emails s) threshold
           in s\<lparr>emails := (\<lambda>k. if gone k then None else emails s k),
                keys := filter (\<lambda>k. \<not> gone k) (keys s)\<rparr>))"

text \<open>
  \<open>push(user, email, raw)\<close>: store the record under \<open>`${user}:${messageId}`\<close>,
  append the key, apply the capacity rule, then sweep expired records.
\<close>

definition local_push ::
  "local_storage \<Rightarrow> js_user \<Rightarrow> parsed_email \<Rightarrow> string \<Rightarrow> time_ms \<Rightarrow>
   (js_error + unit) \<times> local_storage" where
  "local_push s u e r now =
     (case local_record u e r of
        Inl err \<Rightarrow> (Inl err, s)
      | Inr m \<Rightarrow>
          (let k = email_key (user_str u) (p_messageId e);
               s1 = s\<lparr>emails := (emails s)(k \<mapsto> m), keys := keys s @ [k]\<rparr>
           in (Inr (), local_checkTtl now (local_evict s1))))"

text \<open>
  \<open>getEmails(user)\<close>: the keys that start with \<open>`${user}:`\<close>, in list order, each
  mapped to its record without \<open>raw\<close>. Destructuring the record of a key the object
  lacks throws.
\<close>

fun local_collect :: "(string \<rightharpoonup> message) \<Rightarrow> string list \<Rightarrow> js_error + email_meta list" where
  "local_collect es [] = Inr []"
| "local_collect es (k # ks) =
     (case es k of
        None \<Rightarrow> Inl (TypeError ''Cannot destructure undefined'')
      | Some m \<Rightarrow> (case local_collect es ks of
                    Inl err \<Rightarrow> Inl err
                  | Inr ms \<Rightarrow> Inr (email_meta.truncate m # ms)))"

definition local_getEmails :: "local_storage \<Rightarrow> string \<Rightarrow> js_error + email_meta list" where
  "local_getEmails s u = local_collect (emails s) (filter (\<lambda>k. starts_with k (u @ '':'')) (keys s))"

text \<open>\<open>getEmail(user, messageId)\<close>: the raw text under the key, if any.\<close>

definition local_getEmail :: "local_storage \<Rightarrow> string \<Rightarrow> string \<Rightarrow> string option" where
  "local_getEmail s u i = map_option raw (emails s (email_key u i))"

text \<open>\<open>listUsers()\<close>: the user part of every key, duplicates removed.\<close>

definition local_listUsers :: "local_storage \<Rightarrow> string list" where
  "local_listUsers s = array_from_set (map key_user (keys s))"

section \<open>Invariant and abstraction\<close>

text \<open>
  The key list and the record object address the same keys, and each record sits under
  the key built from its own owner and identifier.
\<close>

definition local_wf :: "local_storage \<Rightarrow> bool" where
  "local_wf s \<longleftrightarrow> set (keys s) = dom (emails s) \<and>
     (\<forall>k m. emails s k = Some m \<longrightarrow> k = email_key (msg_owner m) (messageId m))"

text \<open>The mailbox a state represents: the records in key-list order.\<close>

definition local_abs :: "local_storage \<Rightarrow> mailbox" where
  "local_abs s = List.map_filter (emails s) (keys s)"

text \<open>
  The retention setting as the contract reads it: the number of minutes, \<open>0\<close>
  when the variable is unset or empty.
\<close>

definition ttl_minutes :: "nat option \<Rightarrow> nat" where
  "ttl_minutes t = (case t of None \<Rightarrow> 0 | Some n \<Rightarrow> n)"

text \<open>The key list never exceeds a positive capacity.\<close>

definition local_bounded :: "local_storage \<Rightarrow> bool" where
  "local_bounded s \<longleftrightarrow> (0 < maxItems s \<longrightarrow> length (keys s) \<le> maxItems s)"

text \<open>
  The states a store reaches from its construction by any sequence of \<open>push\<close> calls,
  successful or not (the reads do not change the state).
\<close>

inductive local_reachable :: "local_storage \<Rightarrow> bool" where
  init: "local_reachable (local_new max_items ttl_env)"
| push: "local_reachable s \<Longrightarrow> local_push s u e r now = (res, s') \<Longrightarrow> local_reachable s'"

text \<open>The state \<open>push\<close> builds before eviction: the record stored and its key appended.\<close>

abbreviation local_add :: "local_storage \<Rightarrow> string \<Rightarrow> message \<Rightarrow> local_storage" where
  "local_add s k m \<equiv> s\<lparr>emails := (emails s)(k \<mapsto> m), keys := keys s @ [k]\<rparr>"

section \<open>Lemmas\<close>

subsection \<open>The phases of push\<close>

lemma local_record_Inr:
  "local_record u e r = Inr m \<Longrightarrow> msg_owner m = user_str u \<and> messageId m = p_messageId e \<and>
     date m = p_date e \<and> raw m = r \<and> user m = u"
  by (auto simp: local_record_def msg_owner_def split: option.splits)

lemma local_pushE:
  assumes "local_push s u e r now = (res, s')"
  obtains (error) err where "local_record u e r = Inl err" "res = Inl err" "s' = s"
  | (stored) m where "local_record u e r = Inr m" "res = Inr ()"
      "s' = local_checkTtl now (local_evict (local_add s (email_key (msg_owner m) (messageId m)) m))"
  using assms local_record_Inr
  by (cases "local_record u e r") (auto simp: local_push_def Let_def)

lemma local_wf_add:
  "local_wf s \<Longrightarrow> k = email_key (msg_owner m) (messageId m) \<Longrightarrow> local_wf (local_add s k m)"
  by (auto simp: local_wf_def)

lemma local_wf_evict: "local_wf s \<Longrightarrow> local_wf (local_evict s)"
  using set_js_slice_neg [of "maxItems s" "keys s"]
  by (auto simp: local_wf_def local_evict_def Let_def restrict_map_def dom_def split: if_splits)

lemma local_wf_checkTtl: "local_wf s \<Longrightarrow> local_wf (local_checkTtl now s)"
  by (auto simp: local_wf_def local_checkTtl_def Let_def local_expired_def split: option.splits if_splits)

lemma local_wf_push:
  assumes "local_wf s" and "local_push s u e r now = (res, s')"
  shows "local_wf s'"
  using assms(2)
proof (cases rule: local_pushE)
  case error
  with assms(1) show ?thesis by simp
next
  case (stored m)
  with assms(1) show ?thesis by (simp add: local_wf_add local_wf_evict local_wf_checkTtl)
qed

lemma length_keys_evict: "0 < maxItems s \<Longrightarrow> length (keys (local_evict s)) \<le> maxItems s"
  by (auto simp: local_evict_def Let_def length_js_slice_neg)

lemma length_keys_checkTtl: "length (keys (local_checkTtl now s)) \<le> length (keys s)"
  by (auto simp: local_checkTtl_def Let_def split: option.splits)

lemma maxItems_evict [simp]: "maxItems (local_evict s) = maxItems s"
  by (simp add: local_evict_def Let_def)

lemma maxItems_checkTtl [simp]: "maxItems (local_checkTtl now s) = maxItems s"
  "ttl (local_checkTtl now s) = ttl s"
  by (simp_all add: local_checkTtl_def Let_def split: option.splits)

lemma maxItems_push [simp]: "maxItems (snd (local_push s u e r now)) = maxItems s"
  by (simp add: local_push_def Let_def split: sum.split)

lemma local_reachable_push: "local_reachable s \<Longrightarrow> local_reachable (snd (local_push s u e r now))"
  by (rule local_reachable.push [of s u e r now "fst (local_push s u e r now)"]) simp_all

lemma local_wf_card: "local_wf s \<Longrightarrow> card (dom (emails s)) \<le> length (keys s)"
  by (metis card_length local_wf_def)

lemma local_push_stored_keys:
  assumes "local_push s u e r now = (Inr (), s')"
  obtains m where "local_record u e r = Inr m"
    "s' = local_checkTtl now (local_evict (local_add s (email_key (msg_owner m) (messageId m)) m))"
  using assms by (cases rule: local_pushE) auto

lemma local_abs_add:
  "k \<notin> set (keys s) \<Longrightarrow> local_abs (local_add s k m) = local_abs s @ [m]"
  unfolding local_abs_def by (auto intro: map_filter_cong_set)

lemma local_evict_cases:
  "local_evict s = (if 0 < maxItems s \<and> maxItems s < length (keys s)
     then s\<lparr>keys := js_slice_neg (maxItems s) (keys s),
            emails := emails s |` set (js_slice_neg (maxItems s) (keys s))\<rparr> else s)"
  by (simp add: local_evict_def Let_def)

lemma local_abs_evict:
  assumes "set (keys s) \<subseteq> dom (emails s)"
  shows "local_abs (local_evict s) = mb_bound (maxItems s) (local_abs s)"
proof -
  let ?f = "\<lambda>k. the (emails s k)"
  have abs: "local_abs s = map ?f (keys s)"
    using assms by (simp add: local_abs_def map_filter_dom)
  show ?thesis
  proof (cases "0 < maxItems s \<and> maxItems s < length (keys s)")
    case True
    let ?ks = "js_slice_neg (maxItems s) (keys s)"
    have sub: "set ?ks \<subseteq> dom (emails s)"
      by (rule order_trans [OF set_js_slice_neg assms])
    have "local_abs (local_evict s) = List.map_filter (emails s |` set ?ks) ?ks"
      using True by (simp add: local_evict_cases local_abs_def)
    also have "\<dots> = List.map_filter (emails s) ?ks"
      by (rule map_filter_cong_set) simp
    also have "\<dots> = map ?f ?ks"
      using sub by (rule map_filter_dom)
    also have "\<dots> = js_slice_neg (maxItems s) (map ?f (keys s))"
      by (simp only: js_slice_neg_map)
    finally show ?thesis by (simp only: abs js_slice_neg_mb_bound)
  next
    case False
    then have "local_evict s = s" by (simp only: local_evict_cases if_False)
    moreover have "mb_bound (maxItems s) (local_abs s) = local_abs s"
      using False by (auto simp: abs mb_bound_def)
    ultimately show ?thesis by simp
  qed
qed

lemma local_abs_checkTtl:
  assumes "set (keys s) \<subseteq> dom (emails s)" and "ttl s \<noteq> Some 0"
  shows "local_abs (local_checkTtl now s) = filter (mb_fresh (ttl_minutes (ttl s)) now) (local_abs s)"
proof (cases "ttl s")
  case None
  then show ?thesis by (simp add: local_checkTtl_def ttl_minutes_def mb_fresh_def)
next
  case (Some n)
  with assms(2) have n: "n \<noteq> 0" by simp
  let ?gone = "local_expired (emails s) (now - int n * 60000)"
  let ?es = "\<lambda>k. if ?gone k then None else emails s k"
  let ?ks = "filter (\<lambda>k. \<not> ?gone k) (keys s)"
  let ?f = "\<lambda>k. the (emails s k)"
  have ct: "local_checkTtl now s = s\<lparr>emails := ?es, keys := ?ks\<rparr>"
    using Some by (simp add: local_checkTtl_def Let_def)
  have ks: "?ks = filter (mb_fresh n now \<circ> ?f) (keys s)"
    using assms(1) n by (intro filter_cong) (auto simp: local_expired_def mb_fresh_def)
  have sub: "set ?ks \<subseteq> dom (emails s)" using assms(1) by auto
  have "local_abs (local_checkTtl now s) = List.map_filter ?es ?ks"
    by (simp add: ct local_abs_def)
  also have "\<dots> = List.map_filter (emails s) ?ks"
    by (rule map_filter_cong_set) simp
  also have "\<dots> = map ?f ?ks"
    using sub by (rule map_filter_dom)
  also have "\<dots> = filter (mb_fresh n now) (map ?f (keys s))"
    by (simp only: ks filter_map)
  also have "map ?f (keys s) = local_abs s"
    using assms(1) by (simp add: local_abs_def map_filter_dom)
  finally show ?thesis by (simp add: Some ttl_minutes_def)
qed

lemma ttl_evict [simp]: "ttl (local_evict s) = ttl s"
  by (simp add: local_evict_def Let_def)

lemma emails_checkTtl_keep:
  assumes "emails s k = Some m" and "\<forall>n. ttl s = Some n \<longrightarrow> now - int n * 60000 \<le> date m"
  shows "emails (local_checkTtl now s) k = Some m"
  using assms by (auto simp: local_checkTtl_def Let_def local_expired_def split: option.splits)

lemma ran_checkTtl:
  assumes "ttl s = Some n" and "m \<in> ran (emails (local_checkTtl now s))"
  shows "now - int n * 60000 \<le> date m"
  using assms by (auto simp: local_checkTtl_def Let_def local_expired_def ran_def
      split: if_splits)

lemma local_bounded_push:
  assumes "local_bounded s" and "local_push s u e r now = (res, s')"
  shows "local_bounded s'"
  using assms(2)
proof (cases rule: local_pushE)
  case error
  with assms(1) show ?thesis by simp
next
  case (stored m)
  let ?s1 = "local_add s (email_key (msg_owner m) (messageId m)) m"
  have ev: "0 < maxItems s \<Longrightarrow> length (keys (local_evict ?s1)) \<le> maxItems s"
    using length_keys_evict [of ?s1] by simp
  have mx: "maxItems s' = maxItems s" using stored(3) by simp
  have "length (keys s') \<le> length (keys (local_evict ?s1))"
    unfolding stored(3) by (rule length_keys_checkTtl)
  with ev mx show ?thesis by (auto simp: local_bounded_def)
qed

lemma local_reachable_inv: "local_reachable s \<Longrightarrow> local_wf s \<and> local_bounded s"
proof (induction rule: local_reachable.induct)
  case init
  show ?case by (simp add: local_new_def local_wf_def local_bounded_def)
next
  case (push s u e r now res s')
  then show ?case using local_wf_push local_bounded_push by blast
qed

lemma local_push_noTtl:
  fixes u :: js_user and r :: string and now :: time_ms
  assumes wf: "local_wf s" and nt: "ttl s = None" and to: "p_to e = Some t"
  defines "k \<equiv> email_key (user_str u) (p_messageId e)"
  shows "\<exists>m. local_record u e r = Inr m \<and> local_push s u e r now =
    (Inr (), s\<lparr>emails := (\<lambda>k'. if k' \<in> set (mb_bound (maxItems s) (keys s @ [k]))
                                 then ((emails s)(k \<mapsto> m)) k' else None),
              keys := mb_bound (maxItems s) (keys s @ [k])\<rparr>)"
proof -
  obtain m where m: "local_record u e r = Inr m"
    using to by (simp add: local_record_def)
  let ?s1 = "local_add s k m"
  have dom1: "dom (emails ?s1) = set (keys ?s1)" using wf by (auto simp: local_wf_def)
  have push: "local_push s u e r now = (Inr (), local_evict ?s1)"
    using m nt by (simp add: local_push_def k_def local_checkTtl_def Let_def)
  have ev2: "local_evict ?s1 = s\<lparr>emails := (\<lambda>k'. if k' \<in> set (mb_bound (maxItems s) (keys s @ [k]))
                                 then ((emails s)(k \<mapsto> m)) k' else None),
              keys := mb_bound (maxItems s) (keys s @ [k])\<rparr>"
  proof (cases "0 < maxItems s \<and> maxItems s < length (keys ?s1)")
    case True
    let ?ks = "js_slice_neg (maxItems s) (keys s @ [k])"
    have "local_evict ?s1 = ?s1\<lparr>keys := ?ks, emails := emails ?s1 |` set ?ks\<rparr>"
      using True by (subst local_evict_cases) simp
    then show ?thesis by (simp add: js_slice_neg_mb_bound restrict_map_def)
  next
    case False
    then have mb: "mb_bound (maxItems s) (keys s @ [k]) = keys s @ [k]"
      by (auto simp: mb_bound_def)
    have ev: "local_evict ?s1 = ?s1"
      by (subst local_evict_cases, rule if_not_P) (use False in simp)
    have "(emails s)(k \<mapsto> m) = (\<lambda>k'. if k' \<in> set (keys s @ [k]) then ((emails s)(k \<mapsto> m)) k' else None)"
    proof
      fix k'
      show "((emails s)(k \<mapsto> m)) k' = (if k' \<in> set (keys s @ [k]) then ((emails s)(k \<mapsto> m)) k' else None)"
        using dom1 by (cases "k' \<in> set (keys s @ [k])") auto
    qed
    then show ?thesis by (simp only: ev mb)
  qed
  show ?thesis by (rule exI [of _ m]) (simp only: m push ev2 simp_thms)
qed

text \<open>
  C1. Capacity: in every state a volatile store reaches by any sequence of
  \<open>push\<close> calls, the number of live records is at most a positive \<open>maxItems\<close>.
\<close>

theorem local_reachable_bound:
  assumes "local_reachable s" and "0 < maxItems s"
  shows "card (dom (emails s)) \<le> maxItems s"
proof -
  from assms(1) have "local_wf s" and "local_bounded s" by (simp_all add: local_reachable_inv)
  with assms(2) show ?thesis
    using local_wf_card by (metis local_bounded_def order_trans)
qed

lemma local_evict_keeps_last:
  assumes "keys s = ks @ [k]" and "emails s k = Some m"
  shows "emails (local_evict s) k = Some m"
proof -
  have "0 < n \<Longrightarrow> k \<in> set (js_slice_neg n (ks @ [k]))" for n
    by (simp add: js_slice_neg_mb_bound mb_bound_snoc)
  with assms show ?thesis by (auto simp: local_evict_def Let_def)
qed

lemma local_push_stored:
  assumes "local_push s u e r now = (Inr (), s')"
    and "\<forall>n. ttl s = Some n \<longrightarrow> now - int n * 60000 \<le> p_date e"
  shows "\<exists>m. local_record u e r = Inr m \<and> emails s' (email_key (user_str u) (p_messageId e)) = Some m"
proof -
  obtain m where m: "local_record u e r = Inr m"
    and s': "s' = local_checkTtl now (local_evict (local_add s (email_key (msg_owner m) (messageId m)) m))"
    using assms(1) by (rule local_push_stored_keys)
  have m': "msg_owner m = user_str u" "messageId m = p_messageId e" "date m = p_date e"
    using local_record_Inr [OF m] by simp_all
  let ?k = "email_key (msg_owner m) (messageId m)"
  have "emails (local_evict (local_add s ?k m)) ?k = Some m"
    using local_evict_keeps_last [of "local_add s ?k m" "keys s" ?k m] by simp
  then have "emails s' ?k = Some m"
    unfolding s' using assms(2) m' by (intro emails_checkTtl_keep) simp_all
  with m m' show ?thesis by auto
qed

text \<open>
  C4. Round trip: after a successful \<open>push\<close>, \<open>getEmail\<close> with the same user and
  message identifier returns the raw text that was pushed, unless the record is already
  older than the retention window.
\<close>

theorem local_push_getEmail:
  assumes "local_push s u e r now = (Inr (), s')"
    and "\<forall>n. ttl s = Some n \<longrightarrow> now - int n * 60000 \<le> p_date e"
  shows "local_getEmail s' (user_str u) (p_messageId e) = Some r"
  using local_push_stored [OF assms] local_record_Inr
  by (auto simp: local_getEmail_def)

text \<open>
  C3. Refinement: a successful \<open>push\<close> of a record whose key is new acts on the
  represented mailbox as the contract's insertion: append, keep the newest \<open>maxItems\<close>,
  drop what is older than the retention window (for any \<open>TTL\<close> but the string \<open>0\<close>).
\<close>

theorem local_push_refines:
  assumes "local_wf s" and "ttl s \<noteq> Some 0" and "local_record u e r = Inr m"
    and "email_key (user_str u) (p_messageId e) \<notin> set (keys s)"
  shows "local_abs (snd (local_push s u e r now)) =
    mb_insert (maxItems s) (ttl_minutes (ttl s)) now m (local_abs s)"
proof -
  have m': "msg_owner m = user_str u" "messageId m = p_messageId e"
    using local_record_Inr [OF assms(3)] by simp_all
  let ?k = "email_key (user_str u) (p_messageId e)"
  let ?s1 = "local_add s ?k m"
  have push: "snd (local_push s u e r now) = local_checkTtl now (local_evict ?s1)"
    using assms(3) by (simp add: local_push_def Let_def)
  have wf1: "local_wf ?s1" using assms(1) m' by (intro local_wf_add) simp_all
  then have wf2: "local_wf (local_evict ?s1)" by (rule local_wf_evict)
  have d1: "set (keys ?s1) \<subseteq> dom (emails ?s1)" using wf1 by (simp add: local_wf_def)
  have d2: "set (keys (local_evict ?s1)) \<subseteq> dom (emails (local_evict ?s1))"
    using wf2 by (simp add: local_wf_def)
  have t2: "ttl (local_evict ?s1) \<noteq> Some 0" using assms(2) by simp
  have "local_abs (local_checkTtl now (local_evict ?s1))
      = filter (mb_fresh (ttl_minutes (ttl (local_evict ?s1))) now) (local_abs (local_evict ?s1))"
    using d2 t2 by (rule local_abs_checkTtl)
  also have "local_abs (local_evict ?s1) = mb_bound (maxItems ?s1) (local_abs ?s1)"
    using d1 by (rule local_abs_evict)
  also have "local_abs ?s1 = local_abs s @ [m]"
    using assms(4) by (rule local_abs_add)
  finally show ?thesis unfolding push mb_insert_def by (simp add: fun_upd_def)
qed

lemma local_collect_dom:
  "set ks \<subseteq> dom es \<Longrightarrow> local_collect es ks = Inr (map (\<lambda>k. email_meta.truncate (the (es k))) ks)"
  by (induction ks) auto

text \<open>
  C5. \<open>getEmails(u)\<close> on a consistent store returns exactly the metadata of the
  records owned by \<open>u\<close>, in insertion order, provided no user name involved contains
  a colon.
\<close>

theorem local_getEmails_correct:
  assumes "local_wf s" and "CHR '':'' \<notin> set u"
    and "\<forall>m \<in> ran (emails s). CHR '':'' \<notin> set (msg_owner m)"
  shows "local_getEmails s u = Inr (mb_list u (local_abs s))"
proof -
  let ?f = "\<lambda>k. the (emails s k)"
  have dom: "set (keys s) \<subseteq> dom (emails s)" using assms(1) by (simp add: local_wf_def)
  have F: "filter (\<lambda>k. starts_with k (u @ '':'')) (keys s) = filter (\<lambda>k. msg_owner (?f k) = u) (keys s)"
  proof (rule filter_cong)
    fix k assume "k \<in> set (keys s)"
    then obtain m where em: "emails s k = Some m" using dom by auto
    then have k: "k = email_key (msg_owner m) (messageId m)"
      using assms(1) by (simp add: local_wf_def)
    have "CHR '':'' \<notin> set (msg_owner m)" using assms(3) em by (auto simp: ran_def)
    then have "starts_with k (u @ '':'') \<longleftrightarrow> u = msg_owner m"
      unfolding k by (rule email_key_prefix [OF assms(2)])
    then show "starts_with k (u @ '':'') = (msg_owner (?f k) = u)"
      using em by auto
  qed simp
  have B: "local_abs s = map ?f (keys s)"
    using dom by (simp add: local_abs_def map_filter_dom)
  have C: "local_collect (emails s) (filter (\<lambda>k. msg_owner (?f k) = u) (keys s)) =
      Inr (map (\<lambda>k. email_meta.truncate (?f k)) (filter (\<lambda>k. msg_owner (?f k) = u) (keys s)))"
    using dom by (intro local_collect_dom) auto
  show ?thesis
    by (simp add: local_getEmails_def F C B mb_list_def filter_map comp_def)
qed

text \<open>
  C6. \<open>listUsers()\<close> on a consistent store returns the owners of the stored
  records, each once, in order of first insertion, provided no message identifier
  contains a colon and no key contains a line terminator.
\<close>

theorem local_listUsers_correct:
  assumes "local_wf s"
    and "\<forall>m \<in> ran (emails s). CHR '':'' \<notin> set (messageId m) \<and>
           (\<forall>c \<in> set (msg_owner m @ messageId m). \<not> is_line_term c)"
  shows "local_listUsers s = mb_users (local_abs s)"
proof -
  let ?f = "\<lambda>k. the (emails s k)"
  have dom: "set (keys s) \<subseteq> dom (emails s)" using assms(1) by (simp add: local_wf_def)
  have A: "map key_user (keys s) = map (\<lambda>k. msg_owner (?f k)) (keys s)"
  proof (rule map_cong)
    fix k assume "k \<in> set (keys s)"
    then obtain m where em: "emails s k = Some m" using dom by auto
    then have k: "k = email_key (msg_owner m) (messageId m)"
      using assms(1) by (simp add: local_wf_def)
    from assms(2) em have "CHR '':'' \<notin> set (messageId m)"
      "\<forall>c \<in> set (msg_owner m @ messageId m). \<not> is_line_term c" by (auto simp: ran_def)
    then have "key_user k = msg_owner m"
      unfolding k email_key_def by (intro key_user_key)
    then show "key_user k = msg_owner (?f k)"
      using em by simp
  qed simp
  have B: "local_abs s = map ?f (keys s)"
    using dom by (simp add: local_abs_def map_filter_dom)
  show ?thesis by (simp only: local_listUsers_def mb_users_def A B map_map comp_def)
qed

subsection \<open>Consistency over runs\<close>

text \<open>
  C2. Consistency: in every state a volatile store reaches, the key list and the record
  object hold the same keys, and every record sits under the key made of its own user
  and message identifier.
\<close>

theorem local_reachable_consistent:
  assumes "local_reachable s"
  shows "set (keys s) = dom (emails s) \<and>
    (\<forall>k m. emails s k = Some m \<longrightarrow> k = email_key (user_str (user m)) (messageId m))"
  using local_reachable_inv [OF assms] by (simp add: local_wf_def msg_owner_def)

subsection \<open>Where the code departs from the contract\<close>

lemma emails_evict_cases: "emails (local_evict s) k = None \<or> emails (local_evict s) k = emails s k"
  by (simp add: local_evict_def Let_def restrict_map_def)

lemma emails_checkTtl_cases:
  "emails (local_checkTtl now s) k = None \<or> emails (local_checkTtl now s) k = emails s k"
  by (simp add: local_checkTtl_def Let_def split: option.splits)

text \<open>
  C7. A \<open>TTL\<close> of \<open>0\<close> does not disable retention in the volatile store: the
  string \<open>"0"\<close> is truthy, so \<open>checkTtl\<close> runs with threshold \<open>now\<close> and a
  message whose Date header lies before the insert is deleted by the very \<open>push\<close> that
  stored it.
\<close>

theorem local_ttl_zero_drops:
  assumes "ttl s = Some 0" and "p_date e < now" and "local_push s u e r now = (Inr (), s')"
  shows "local_getEmail s' (user_str u) (p_messageId e) = None"
proof -
  obtain m where m: "local_record u e r = Inr m"
    and s': "s' = local_checkTtl now (local_evict (local_add s (email_key (msg_owner m) (messageId m)) m))"
    using assms(3) by (rule local_push_stored_keys)
  have m': "msg_owner m = user_str u" "messageId m = p_messageId e" "date m = p_date e"
    using local_record_Inr [OF m] by simp_all
  let ?k = "email_key (msg_owner m) (messageId m)"
  let ?s2 = "local_evict (local_add s ?k m)"
  have "emails s' ?k \<noteq> Some m'" if "m' \<in> {m}" for m'
  proof
    assume eq: "emails s' ?k = Some m'"
    then have "m' \<in> ran (emails (local_checkTtl now ?s2))" by (auto simp: s' ran_def)
    moreover have "ttl ?s2 = Some 0" using assms(1) by simp
    ultimately have "now \<le> date m'" using ran_checkTtl by fastforce
    with that m' assms(2) show False by simp
  qed
  moreover have "emails s' ?k = None \<or> emails s' ?k = Some m"
    using emails_checkTtl_cases [of now ?s2 ?k] emails_evict_cases [of "local_add s ?k m" ?k]
    by (auto simp: s')
  ultimately have "emails s' ?k = None" by blast
  then show ?thesis using m' by (simp add: local_getEmail_def)
qed

lemma local_wf_stored_key:
  assumes "local_wf s" and "emails s k = Some m"
  shows "k \<in> set (keys s) \<and> k = email_key (msg_owner m) (messageId m)"
  using assms by (auto simp: local_wf_def)

text \<open>
  C29. Users leak into each other's listings: \<open>getEmails\<close> selects keys by the prefix
  \<open>`${user}:`\<close>, so on any consistent store the messages of a user \<open>a:b\<close> are
  listed for the user \<open>a\<close>.
\<close>

theorem local_getEmails_cross_user:
  assumes "local_wf s" and "emails s k = Some m" and "user m = Some (a @ CHR '':'' # b)"
  shows "\<exists>ms. local_getEmails s a = Inr ms \<and> email_meta.truncate m \<in> set ms"
proof -
  have k1: "k \<in> set (keys s)" using local_wf_stored_key [OF assms(1,2)] by blast
  have k2: "k = a @ CHR '':'' # b @ CHR '':'' # messageId m"
    using local_wf_stored_key [OF assms(1,2)] assms(3) by (simp add: msg_owner_def email_key_def)
  note k = k1 k2
  have dom: "set (filter (\<lambda>k. starts_with k (a @ '':'')) (keys s)) \<subseteq> dom (emails s)"
    using assms(1) by (auto simp: local_wf_def)
  have "k \<in> set (filter (\<lambda>k. starts_with k (a @ '':'')) (keys s))"
    using k by (simp add: starts_with_def)
  then show ?thesis using assms(2)
    by (auto simp: local_getEmails_def local_collect_dom [OF dom] intro!: rev_image_eqI [of k])
qed

text \<open>
  C30. \<open>listUsers\<close> reads the user as everything before the last colon of the key, so
  once a user \<open>a\<close> has stored a message whose identifier \<open>x:y\<close> has a colon (an
  RFC 5322 domain literal such as \<open>x@[IPv6:::1]\<close>), the listing names the user
  \<open>a:x\<close>, who never sent anything, while the message is retained.
\<close>

theorem local_listUsers_colon_id:
  assumes "local_wf s" and "local_push s (Some a) e r now = (Inr (), s')"
    and "\<forall>n. ttl s = Some n \<longrightarrow> now - int n * 60000 \<le> p_date e"
    and "p_messageId e = x @ CHR '':'' # y" and "CHR '':'' \<notin> set y"
    and "\<forall>c \<in> set (a @ p_messageId e). \<not> is_line_term c"
  shows "a @ CHR '':'' # x \<in> set (local_listUsers s')"
proof -
  obtain m where m: "local_record (Some a) e r = Inr m" and
    st: "emails s' (email_key (user_str (Some a)) (p_messageId e)) = Some m"
    using local_push_stored [OF assms(2,3)] by blast
  have "local_wf s'" using assms(1,2) by (rule local_wf_push)
  then have "email_key a (p_messageId e) \<in> set (keys s')"
    using local_wf_stored_key [of s'] st by simp
  moreover have "key_user (email_key a (p_messageId e)) = a @ CHR '':'' # x"
    using assms(4-6) key_user_key [of y "a @ CHR '':'' # x"] by (simp add: email_key_def)
  ultimately show ?thesis unfolding local_listUsers_def by (force intro: rev_image_eqI)
qed

text \<open>
  C31. The composite key is not injective: user \<open>a:b\<close> with message \<open>c\<close> and user
  \<open>a\<close> with message \<open>b:c\<close> share the key \<open>a:b:c\<close>. Whatever the store held,
  once user \<open>a\<close> has stored message \<open>b:c\<close>, \<open>getEmail('a:b', 'c')\<close> returns
  user \<open>a\<close>'s text.
\<close>

theorem local_key_collision:
  assumes "local_push s (Some a) e r now = (Inr (), s')"
    and "\<forall>n. ttl s = Some n \<longrightarrow> now - int n * 60000 \<le> p_date e"
    and "p_messageId e = b @ CHR '':'' # c"
  shows "local_getEmail s' (a @ CHR '':'' # b) c = Some r"
proof -
  obtain m where m: "local_record (Some a) e r = Inr m" and
    st: "emails s' (email_key (user_str (Some a)) (p_messageId e)) = Some m"
    using local_push_stored [OF assms(1,2)] by blast
  then show ?thesis using local_record_Inr [OF m] assms(3)
    by (simp add: local_getEmail_def email_key_def)
qed

text \<open>
  A message identifier delivered twice for the same user (the contract assumes it
  unique) is stored once but its key is appended twice, so \<open>getEmails\<close> lists the
  message twice.
\<close>

lemma local_duplicate_listed_twice:
  "map_sum id length (local_getEmails
     (snd (local_push
       (snd (local_push (local_new 0 None) (Some ''u'')
          \<lparr>p_messageId = ''m'', p_subject = ''s'', p_date = 0, p_to = Some ''t''\<rparr> ''r1'' 0))
       (Some ''u'') \<lparr>p_messageId = ''m'', p_subject = ''s'', p_date = 0, p_to = Some ''t''\<rparr>
       ''r2'' 0)) ''u'') = Inr 2"
  by code_simp

text \<open>
  C32. A message without a To header makes \<open>push\<close> throw a \<open>TypeError\<close> before it
  touches the store: the state is returned unchanged.
\<close>

theorem local_push_no_recipient:
  assumes "p_to e = None"
  shows "\<exists>msg. local_push s u e r now = (Inl (TypeError msg), s)"
  using assms by (simp add: local_push_def local_record_def)

lemma local_push_Inr:
  "p_to e = Some t \<Longrightarrow> local_push s u e r now = (Inr (), snd (local_push s u e r now))"
  by (simp add: local_push_def local_record_def Let_def)

subsection \<open>Witnesses\<close>

text \<open>Each theorem with hypotheses, applied where they hold: one message pushed by user
  \<open>u\<close> into a fresh store, or the store that holds it.\<close>

lemma local_reachable_one:
  "local_reachable (snd (local_push (local_new 1 None) (Some ''u'') \<lparr>p_messageId = ''1'', p_subject = ''s'', p_date = 0, p_to = Some ''t''\<rparr> ''r'' 0))"
  by (rule local_reachable.push [OF local_reachable.init [of 1 None],
        of "Some ''u''" "\<lparr>p_messageId = ''1'', p_subject = ''s'', p_date = 0, p_to = Some ''t''\<rparr>" "''r''" 0 "fst (local_push (local_new 1 None) (Some ''u'') \<lparr>p_messageId = ''1'', p_subject = ''s'', p_date = 0, p_to = Some ''t''\<rparr> ''r'' 0)"]) simp

theorem local_reachable_bound_witness:
  "card (dom (emails (snd (local_push (local_new 1 None) (Some ''u'') \<lparr>p_messageId = ''1'', p_subject = ''s'', p_date = 0, p_to = Some ''t''\<rparr> ''r'' 0)))) \<le> maxItems (snd (local_push (local_new 1 None) (Some ''u'') \<lparr>p_messageId = ''1'', p_subject = ''s'', p_date = 0, p_to = Some ''t''\<rparr> ''r'' 0))"
proof -
  have r: "local_reachable (snd (local_push (local_new 1 None) (Some ''u'') \<lparr>p_messageId = ''1'', p_subject = ''s'', p_date = 0, p_to = Some ''t''\<rparr> ''r'' 0))" by (rule local_reachable_one)
  have m: "0 < maxItems (snd (local_push (local_new 1 None) (Some ''u'') \<lparr>p_messageId = ''1'', p_subject = ''s'', p_date = 0, p_to = Some ''t''\<rparr> ''r'' 0))" by code_simp
  show ?thesis using local_reachable_bound [OF r m] .
qed

theorem local_reachable_consistent_witness:
  "set (keys (snd (local_push (local_new 1 None) (Some ''u'') \<lparr>p_messageId = ''1'', p_subject = ''s'', p_date = 0, p_to = Some ''t''\<rparr> ''r'' 0))) = dom (emails (snd (local_push (local_new 1 None) (Some ''u'') \<lparr>p_messageId = ''1'', p_subject = ''s'', p_date = 0, p_to = Some ''t''\<rparr> ''r'' 0))) \<and>
   (\<exists>m. emails (snd (local_push (local_new 1 None) (Some ''u'') \<lparr>p_messageId = ''1'', p_subject = ''s'', p_date = 0, p_to = Some ''t''\<rparr> ''r'' 0)) ''u:1'' = Some m \<and>
        ''u:1'' = email_key (user_str (user m)) (messageId m))"
proof -
  have c: "set (keys (snd (local_push (local_new 1 None) (Some ''u'') \<lparr>p_messageId = ''1'', p_subject = ''s'', p_date = 0, p_to = Some ''t''\<rparr> ''r'' 0))) = dom (emails (snd (local_push (local_new 1 None) (Some ''u'') \<lparr>p_messageId = ''1'', p_subject = ''s'', p_date = 0, p_to = Some ''t''\<rparr> ''r'' 0))) \<and>
    (\<forall>k m. emails (snd (local_push (local_new 1 None) (Some ''u'') \<lparr>p_messageId = ''1'', p_subject = ''s'', p_date = 0, p_to = Some ''t''\<rparr> ''r'' 0)) k = Some m \<longrightarrow> k = email_key (user_str (user m)) (messageId m))"
    by (rule local_reachable_consistent [OF local_reachable_one])
  have "map_option messageId (emails (snd (local_push (local_new 1 None) (Some ''u'') \<lparr>p_messageId = ''1'', p_subject = ''s'', p_date = 0, p_to = Some ''t''\<rparr> ''r'' 0)) ''u:1'') = Some ''1''" by code_simp
  then obtain m where "emails (snd (local_push (local_new 1 None) (Some ''u'') \<lparr>p_messageId = ''1'', p_subject = ''s'', p_date = 0, p_to = Some ''t''\<rparr> ''r'' 0)) ''u:1'' = Some m" by auto
  with c show ?thesis by blast
qed

theorem local_push_refines_witness:
  "local_abs (snd (local_push (local_new 1 None) (Some ''u'') \<lparr>p_messageId = ''1'', p_subject = ''s'', p_date = 0, p_to = Some ''t''\<rparr> ''r'' 0)) = mb_insert (maxItems (local_new 1 None))
     (ttl_minutes (ttl (local_new 1 None))) 0 \<lparr>messageId = ''1'', subject = ''s'', date = 0, recipient = ''t'', user = Some ''u'', raw = ''r''\<rparr> (local_abs (local_new 1 None))"
proof -
  have h1: "local_wf (local_new 1 None)" by (simp add: local_wf_def local_new_def)
  have h2: "ttl (local_new 1 None) \<noteq> Some 0" by (simp add: local_new_def)
  have h3: "local_record (Some ''u'') \<lparr>p_messageId = ''1'', p_subject = ''s'', p_date = 0, p_to = Some ''t''\<rparr> ''r'' = Inr \<lparr>messageId = ''1'', subject = ''s'', date = 0, recipient = ''t'', user = Some ''u'', raw = ''r''\<rparr>" by (simp add: local_record_def)
  have h4: "email_key (user_str (Some ''u'')) (p_messageId \<lparr>p_messageId = ''1'', p_subject = ''s'', p_date = 0, p_to = Some ''t''\<rparr>) \<notin> set (keys (local_new 1 None))"
    by (simp add: local_new_def)
  show ?thesis using local_push_refines [OF h1 h2 h3 h4, of 0] .
qed

theorem local_push_getEmail_witness:
  "local_getEmail (snd (local_push (local_new 1 None) (Some ''u'') \<lparr>p_messageId = ''1'', p_subject = ''s'', p_date = 0, p_to = Some ''t''\<rparr> ''r'' 0)) (user_str (Some ''u'')) (p_messageId \<lparr>p_messageId = ''1'', p_subject = ''s'', p_date = 0, p_to = Some ''t''\<rparr>) = Some ''r''"
proof -
  have h1: "local_push (local_new 1 None) (Some ''u'') \<lparr>p_messageId = ''1'', p_subject = ''s'', p_date = 0, p_to = Some ''t''\<rparr> ''r'' 0 = (Inr (), snd (local_push (local_new 1 None) (Some ''u'') \<lparr>p_messageId = ''1'', p_subject = ''s'', p_date = 0, p_to = Some ''t''\<rparr> ''r'' 0))"
    by (rule local_push_Inr) simp
  have h2: "\<forall>n. ttl (local_new 1 None) = Some n \<longrightarrow> 0 - int n * 60000 \<le> p_date \<lparr>p_messageId = ''1'', p_subject = ''s'', p_date = 0, p_to = Some ''t''\<rparr>"
    by (simp add: local_new_def)
  show ?thesis using local_push_getEmail [OF h1 h2] .
qed

theorem local_getEmails_correct_witness:
  "local_getEmails \<lparr>keys = [''u:1''], emails = [''u:1'' \<mapsto> \<lparr>messageId = ''1'', subject = ''s'', date = 0, recipient = ''t'', user = Some ''u'', raw = ''r''\<rparr>], maxItems = 0, ttl = None\<rparr> ''u'' = Inr (mb_list ''u'' (local_abs \<lparr>keys = [''u:1''], emails = [''u:1'' \<mapsto> \<lparr>messageId = ''1'', subject = ''s'', date = 0, recipient = ''t'', user = Some ''u'', raw = ''r''\<rparr>], maxItems = 0, ttl = None\<rparr>))"
proof -
  have h1: "local_wf \<lparr>keys = [''u:1''], emails = [''u:1'' \<mapsto> \<lparr>messageId = ''1'', subject = ''s'', date = 0, recipient = ''t'', user = Some ''u'', raw = ''r''\<rparr>], maxItems = 0, ttl = None\<rparr>" by (simp add: local_wf_def email_key_def msg_owner_def)
  have h2: "CHR '':'' \<notin> set ''u''" by simp
  have h3: "\<forall>m \<in> ran (emails \<lparr>keys = [''u:1''], emails = [''u:1'' \<mapsto> \<lparr>messageId = ''1'', subject = ''s'', date = 0, recipient = ''t'', user = Some ''u'', raw = ''r''\<rparr>], maxItems = 0, ttl = None\<rparr>). CHR '':'' \<notin> set (msg_owner m)" by (simp add: msg_owner_def)
  show ?thesis using local_getEmails_correct [OF h1 h2 h3] .
qed

theorem local_listUsers_correct_witness:
  "local_listUsers \<lparr>keys = [''u:1''], emails = [''u:1'' \<mapsto> \<lparr>messageId = ''1'', subject = ''s'', date = 0, recipient = ''t'', user = Some ''u'', raw = ''r''\<rparr>], maxItems = 0, ttl = None\<rparr> = mb_users (local_abs \<lparr>keys = [''u:1''], emails = [''u:1'' \<mapsto> \<lparr>messageId = ''1'', subject = ''s'', date = 0, recipient = ''t'', user = Some ''u'', raw = ''r''\<rparr>], maxItems = 0, ttl = None\<rparr>)"
proof -
  have h1: "local_wf \<lparr>keys = [''u:1''], emails = [''u:1'' \<mapsto> \<lparr>messageId = ''1'', subject = ''s'', date = 0, recipient = ''t'', user = Some ''u'', raw = ''r''\<rparr>], maxItems = 0, ttl = None\<rparr>" by (simp add: local_wf_def email_key_def msg_owner_def)
  have h2: "\<forall>m \<in> ran (emails \<lparr>keys = [''u:1''], emails = [''u:1'' \<mapsto> \<lparr>messageId = ''1'', subject = ''s'', date = 0, recipient = ''t'', user = Some ''u'', raw = ''r''\<rparr>], maxItems = 0, ttl = None\<rparr>). CHR '':'' \<notin> set (messageId m) \<and>
      (\<forall>c \<in> set (msg_owner m @ messageId m). \<not> is_line_term c)"
    by (simp add: msg_owner_def is_line_term_def)
  show ?thesis using local_listUsers_correct [OF h1 h2] .
qed

theorem local_ttl_zero_drops_witness:
  "local_getEmail (snd (local_push (local_new 0 (Some 0)) (Some ''u'') \<lparr>p_messageId = ''1'', p_subject = ''s'', p_date = 5, p_to = Some ''t''\<rparr> ''r'' 6)) (user_str (Some ''u'')) (p_messageId \<lparr>p_messageId = ''1'', p_subject = ''s'', p_date = 5, p_to = Some ''t''\<rparr>) = None"
proof -
  have h1: "ttl (local_new 0 (Some 0)) = Some 0" by (simp add: local_new_def)
  have h2: "p_date \<lparr>p_messageId = ''1'', p_subject = ''s'', p_date = 5, p_to = Some ''t''\<rparr> < 6" by simp
  have h3: "local_push (local_new 0 (Some 0)) (Some ''u'') \<lparr>p_messageId = ''1'', p_subject = ''s'', p_date = 5, p_to = Some ''t''\<rparr> ''r'' 6 = (Inr (), snd (local_push (local_new 0 (Some 0)) (Some ''u'') \<lparr>p_messageId = ''1'', p_subject = ''s'', p_date = 5, p_to = Some ''t''\<rparr> ''r'' 6))"
    by (rule local_push_Inr) simp
  show ?thesis using local_ttl_zero_drops [OF h1 h2 h3] .
qed

theorem local_push_no_recipient_witness:
  "\<exists>msg. local_push (local_new 0 None) (Some ''u'') \<lparr>p_messageId = ''1'', p_subject = ''s'', p_date = 0, p_to = None\<rparr> ''r'' 0 = (Inl (TypeError msg), local_new 0 None)"
proof -
  have h: "p_to \<lparr>p_messageId = ''1'', p_subject = ''s'', p_date = 0, p_to = None\<rparr> = None" by simp
  show ?thesis using local_push_no_recipient [OF h] .
qed

lemma local_wf_new: "local_wf (local_new n t)"
  by (simp add: local_wf_def local_new_def)

theorem local_getEmails_cross_user_witness:
  "\<exists>ms. local_getEmails (snd (local_push (local_new 0 None) (Some ''a:b'') \<lparr>p_messageId = ''c'', p_subject = ''s'', p_date = 0, p_to = Some ''t''\<rparr> ''first'' 0)) ''a'' = Inr ms \<and>
     email_meta.truncate (\<lparr>messageId = ''c'', subject = ''s'', date = 0, recipient = ''t'', user = Some ''a:b'', raw = ''first''\<rparr> :: message) \<in> set ms"
proof -
  have wf: "local_wf (snd (local_push (local_new 0 None) (Some ''a:b'') \<lparr>p_messageId = ''c'', p_subject = ''s'', p_date = 0, p_to = Some ''t''\<rparr> ''first'' 0))"
    using local_wf_push [OF local_wf_new surjective_pairing] by simp
  have st: "emails (snd (local_push (local_new 0 None) (Some ''a:b'') \<lparr>p_messageId = ''c'', p_subject = ''s'', p_date = 0, p_to = Some ''t''\<rparr> ''first'' 0)) ''a:b:c'' = Some (\<lparr>messageId = ''c'', subject = ''s'', date = 0, recipient = ''t'', user = Some ''a:b'', raw = ''first''\<rparr> :: message)" by code_simp
  have u: "user (\<lparr>messageId = ''c'', subject = ''s'', date = 0, recipient = ''t'', user = Some ''a:b'', raw = ''first''\<rparr> :: message) = Some (''a'' @ CHR '':'' # ''b'')" by simp
  show ?thesis by (rule local_getEmails_cross_user [OF wf st u])
qed

theorem local_listUsers_colon_id_witness:
  "''alice'' @ CHR '':'' # ''x'' \<in> set (local_listUsers (snd (local_push (local_new 0 None) (Some ''alice'') \<lparr>p_messageId = ''x:y'', p_subject = ''s'', p_date = 0, p_to = Some ''t''\<rparr> ''r'' 0)))"
proof -
  have p: "local_push (local_new 0 None) (Some ''alice'') \<lparr>p_messageId = ''x:y'', p_subject = ''s'', p_date = 0, p_to = Some ''t''\<rparr> ''r'' 0 =
      (Inr (), snd (local_push (local_new 0 None) (Some ''alice'') \<lparr>p_messageId = ''x:y'', p_subject = ''s'', p_date = 0, p_to = Some ''t''\<rparr> ''r'' 0))"
    by (rule local_push_Inr) simp
  have t: "\<forall>n. ttl (local_new 0 None) = Some n \<longrightarrow> 0 - int n * 60000 \<le> p_date \<lparr>p_messageId = ''x:y'', p_subject = ''s'', p_date = 0, p_to = Some ''t''\<rparr>"
    by (simp add: local_new_def)
  have i: "p_messageId \<lparr>p_messageId = ''x:y'', p_subject = ''s'', p_date = 0, p_to = Some ''t''\<rparr> = ''x'' @ CHR '':'' # ''y''" by simp
  have y: "CHR '':'' \<notin> set ''y''" by simp
  have l: "\<forall>c \<in> set (''alice'' @ p_messageId \<lparr>p_messageId = ''x:y'', p_subject = ''s'', p_date = 0, p_to = Some ''t''\<rparr>). \<not> is_line_term c" by code_simp
  show ?thesis by (rule local_listUsers_colon_id [OF local_wf_new p t i y l])
qed

theorem local_key_collision_witness:
  "local_getEmail (snd (local_push (snd (local_push (local_new 0 None) (Some ''a:b'') \<lparr>p_messageId = ''c'', p_subject = ''s'', p_date = 0, p_to = Some ''t''\<rparr> ''first'' 0)) (Some ''a'') \<lparr>p_messageId = ''b:c'', p_subject = ''s'', p_date = 0, p_to = Some ''t''\<rparr> ''second'' 0)) (''a'' @ CHR '':'' # ''b'') ''c'' = Some ''second''"
proof -
  have p: "local_push (snd (local_push (local_new 0 None) (Some ''a:b'') \<lparr>p_messageId = ''c'', p_subject = ''s'', p_date = 0, p_to = Some ''t''\<rparr> ''first'' 0)) (Some ''a'') \<lparr>p_messageId = ''b:c'', p_subject = ''s'', p_date = 0, p_to = Some ''t''\<rparr> ''second'' 0 =
      (Inr (), snd (local_push (snd (local_push (local_new 0 None) (Some ''a:b'') \<lparr>p_messageId = ''c'', p_subject = ''s'', p_date = 0, p_to = Some ''t''\<rparr> ''first'' 0)) (Some ''a'') \<lparr>p_messageId = ''b:c'', p_subject = ''s'', p_date = 0, p_to = Some ''t''\<rparr> ''second'' 0))"
    by (rule local_push_Inr) simp
  have t0: "ttl (snd (local_push (local_new 0 None) (Some ''a:b'') \<lparr>p_messageId = ''c'', p_subject = ''s'', p_date = 0, p_to = Some ''t''\<rparr> ''first'' 0)) = None" by code_simp
  then have t: "\<forall>n. ttl (snd (local_push (local_new 0 None) (Some ''a:b'') \<lparr>p_messageId = ''c'', p_subject = ''s'', p_date = 0, p_to = Some ''t''\<rparr> ''first'' 0)) = Some n \<longrightarrow> 0 - int n * 60000 \<le> p_date \<lparr>p_messageId = ''b:c'', p_subject = ''s'', p_date = 0, p_to = Some ''t''\<rparr>" by simp
  have i: "p_messageId \<lparr>p_messageId = ''b:c'', p_subject = ''s'', p_date = 0, p_to = Some ''t''\<rparr> = ''b'' @ CHR '':'' # ''c''" by simp
  show ?thesis by (rule local_key_collision [OF p t i])
qed

end
