(* ===== verification/Redis.thy ===== *)
theory Redis
  imports Prelude "HOL-Library.AList"
begin

text \<open>
  The part of the Redis server that \<open>src/src/redis-storage.js\<close> relies on, as the
  Redis documentation specifies it (the server is not code of this repository). The key
  space is an association list from keys to values, each value a hash or a list with an
  optional expiry deadline in milliseconds. Every command first drops the keys whose
  deadline has passed, so no command ever observes an expired key. The commands the store
  issues are a datatype, run one after the other in the order the client sends them;
  \<open>SCAN\<close> is a relation, since the server chooses the order and may repeat keys.
\<close>

section \<open>Key space\<close>

datatype rval = RHash "(string \<times> string) list" | RList "string list"

record rentry =
  rv :: rval
  rexp :: "time_ms option"

type_synonym rdb = "(string \<times> rentry) list"

definition wrongtype :: js_error where
  "wrongtype = RedisError ''WRONGTYPE Operation against a key holding the wrong kind of value''"

definition r_live :: "time_ms \<Rightarrow> rentry \<Rightarrow> bool" where
  "r_live now e \<longleftrightarrow> (case rexp e of None \<Rightarrow> True | Some d \<Rightarrow> now < d)"

definition r_purge :: "time_ms \<Rightarrow> rdb \<Rightarrow> rdb" where
  "r_purge now db = filter (\<lambda>(k, e). r_live now e) db"

section \<open>Commands\<close>

text \<open>
  \<open>HSetUndef k f\<close> is \<open>hSet(k, f, undefined)\<close>: the client refuses to encode an
  undefined argument, so the command fails with a \<open>TypeError\<close> and the key space is
  unchanged.
\<close>

datatype rcmd =
    HSet string string string
  | HSetUndef string string
  | LPush string string
  | Expire string int
  | Del string

text \<open>\<open>HSET\<close>: create the hash if the key is absent; an existing expiry is kept.\<close>

definition r_hset :: "string \<Rightarrow> string \<Rightarrow> string \<Rightarrow> rdb \<Rightarrow> (js_error + unit) \<times> rdb" where
  "r_hset k f v db =
     (case map_of db k of
        None \<Rightarrow> (Inr (), AList.update k \<lparr>rv = RHash [(f, v)], rexp = None\<rparr> db)
      | Some e \<Rightarrow>
          (case rv e of
             RHash h \<Rightarrow> (Inr (), AList.update k (e\<lparr>rv := RHash (AList.update f v h)\<rparr>) db)
           | RList _ \<Rightarrow> (Inl wrongtype, db)))"

text \<open>\<open>LPUSH\<close>: prepend to the list, creating it if the key is absent.\<close>

definition r_lpush :: "string \<Rightarrow> string \<Rightarrow> rdb \<Rightarrow> (js_error + unit) \<times> rdb" where
  "r_lpush k x db =
     (case map_of db k of
        None \<Rightarrow> (Inr (), AList.update k \<lparr>rv = RList [x], rexp = None\<rparr> db)
      | Some e \<Rightarrow>
          (case rv e of
             RList xs \<Rightarrow> (Inr (), AList.update k (e\<lparr>rv := RList (x # xs)\<rparr>) db)
           | RHash _ \<Rightarrow> (Inl wrongtype, db)))"

text \<open>\<open>EXPIRE k secs\<close>: a deadline \<open>secs\<close> seconds from now; a non-positive one deletes the key.\<close>

definition r_expire :: "time_ms \<Rightarrow> string \<Rightarrow> int \<Rightarrow> rdb \<Rightarrow> rdb" where
  "r_expire now k secs db =
     (case map_of db k of
        None \<Rightarrow> db
      | Some e \<Rightarrow> if secs \<le> 0 then AList.delete k db
                  else AList.update k (e\<lparr>rexp := Some (now + secs * 1000)\<rparr>) db)"

fun r_exec :: "time_ms \<Rightarrow> rcmd \<Rightarrow> rdb \<Rightarrow> (js_error + unit) \<times> rdb" where
  "r_exec now (HSet k f v) db = r_hset k f v (r_purge now db)"
| "r_exec now (HSetUndef k f) db = (Inl (TypeError ''Invalid argument type''), db)"
| "r_exec now (LPush k x) db = r_lpush k x (r_purge now db)"
| "r_exec now (Expire k secs) db = (Inr (), r_expire now k secs (r_purge now db))"
| "r_exec now (Del k) db = (Inr (), AList.delete k (r_purge now db))"

text \<open>
  Commands sent together (\<open>Promise.all\<close>) are all executed; the caller sees the first
  failure.
\<close>

fun r_run :: "time_ms \<Rightarrow> rcmd list \<Rightarrow> rdb \<Rightarrow> (js_error + unit) \<times> rdb" where
  "r_run now [] db = (Inr (), db)"
| "r_run now (c # cs) db =
     (let (r1, db1) = r_exec now c db; (r2, db2) = r_run now cs db1
      in (case r1 of Inl err \<Rightarrow> Inl err | Inr _ \<Rightarrow> r2, db2))"

text \<open>The commands that set a deadline.\<close>

fun r_sets_expiry :: "rcmd \<Rightarrow> bool" where
  "r_sets_expiry (Expire k secs) = True"
| "r_sets_expiry _ = False"

definition r_dbsize :: "time_ms \<Rightarrow> rdb \<Rightarrow> nat" where
  "r_dbsize now db = length (r_purge now db)"

text \<open>
  \<open>RPOP k count\<close>: the last \<open>count\<close> elements, last first; \<open>None\<close> (a null reply)
  when the key is absent; the key is removed with its last element.
\<close>

definition r_rpopcount ::
  "time_ms \<Rightarrow> string \<Rightarrow> nat \<Rightarrow> rdb \<Rightarrow> (js_error + string list option) \<times> rdb" where
  "r_rpopcount now k n db =
     (let db' = r_purge now db in
      case map_of db' k of
        None \<Rightarrow> (Inr None, db')
      | Some e \<Rightarrow>
          (case rv e of
             RList xs \<Rightarrow>
               (let keep = take (length xs - n) xs
                in (Inr (Some (rev (drop (length xs - n) xs))),
                    if keep = [] then AList.delete k db' else AList.update k (e\<lparr>rv := RList keep\<rparr>) db'))
           | RHash _ \<Rightarrow> (Inl wrongtype, db')))"

definition r_hget :: "time_ms \<Rightarrow> string \<Rightarrow> string \<Rightarrow> rdb \<Rightarrow> js_error + string option" where
  "r_hget now k f db =
     (case map_of (r_purge now db) k of
        None \<Rightarrow> Inr None
      | Some e \<Rightarrow> (case rv e of RHash h \<Rightarrow> Inr (map_of h f) | RList _ \<Rightarrow> Inl wrongtype))"

definition r_hmget :: "time_ms \<Rightarrow> string \<Rightarrow> string list \<Rightarrow> rdb \<Rightarrow> js_error + string option list" where
  "r_hmget now k fs db =
     (case map_of (r_purge now db) k of
        None \<Rightarrow> Inr (map (\<lambda>_. None) fs)
      | Some e \<Rightarrow> (case rv e of RHash h \<Rightarrow> Inr (map (map_of h) fs) | RList _ \<Rightarrow> Inl wrongtype))"

section \<open>Glob patterns and SCAN\<close>

text \<open>
  The \<open>MATCH\<close> patterns of \<open>SCAN\<close>, as Redis's \<open>stringmatchlen\<close> reads them:
  \<open>*\<close>, \<open>?\<close>, a class \<open>[...]\<close> (with \<open>^\<close>, ranges and escapes), and
  a backslash quoting the next character. \<open>glob_class\<close> reads a class body against a
  character and returns whether it matched and the pattern after the closing bracket; an
  unterminated class ends the pattern.
\<close>

fun glob_class :: "string \<Rightarrow> char \<Rightarrow> bool \<Rightarrow> bool \<times> string" where
  "glob_class [] c m = (m, [])"
| "glob_class (a # p) c m =
     (if a = CHR 0x5C \<and> p \<noteq> [] then glob_class (tl p) c (m \<or> hd p = c)
      else if a = CHR '']'' then (m, p)
      else if 2 \<le> length p \<and> hd p = CHR ''-'' then
        glob_class (drop 2 p) c (m \<or> (min (of_char a) (of_char (p ! 1)) \<le> (of_char c :: nat) \<and>
                                       of_char c \<le> max (of_char a) (of_char (p ! 1) :: nat)))
      else glob_class p c (m \<or> a = c))"

lemma glob_class_length: "length (snd (glob_class p c m)) \<le> length p"
  by (induction p c m rule: glob_class.induct) (auto simp: le_SucI)

function glob :: "string \<Rightarrow> string \<Rightarrow> bool" where
  "glob p s =
     (case p of
        [] \<Rightarrow> s = []
      | a # p' \<Rightarrow>
          if a = CHR ''*'' then glob p' s \<or> (case s of [] \<Rightarrow> False | _ # s' \<Rightarrow> glob p s')
          else (case s of
                  [] \<Rightarrow> False
                | c # s' \<Rightarrow>
                    if a = CHR ''?'' then glob p' s'
                    else if a = CHR ''['' then
                      (let neg = (p' \<noteq> [] \<and> hd p' = CHR ''^'');
                           mr = glob_class (if neg then tl p' else p') c False
                       in (fst mr \<noteq> neg) \<and> glob (snd mr) s')
                    else if a = CHR 0x5C \<and> p' \<noteq> [] then c = hd p' \<and> glob (tl p') s'
                    else c = a \<and> glob p' s'))"
  by pat_completeness auto

termination
  apply (relation "measure (\<lambda>(p, s). length p + length s)")
  apply simp_all
  apply (metis glob_class_length le_imp_less_Suc length_tl less_SucI order.strict_trans1
      diff_le_self)
  done

declare glob.simps [simp del]

text \<open>
  \<open>SCAN\<close> with a pattern, iterated to the end (\<open>scanIterator\<close>): every live
  matching key, and only those, in an order the server chooses, possibly more than once.
\<close>

definition r_keys :: "time_ms \<Rightarrow> rdb \<Rightarrow> string list" where
  "r_keys now db = map fst (r_purge now db)"

definition r_scan_ok :: "time_ms \<Rightarrow> string \<Rightarrow> rdb \<Rightarrow> string list \<Rightarrow> bool" where
  "r_scan_ok now pat db ks \<longleftrightarrow> set ks = set (filter (glob pat) (r_keys now db))"

text \<open>
  One \<open>SCAN cursor MATCH pat COUNT count\<close> call of this model's server: the cursor is a
  position in the live key space; a call returns the matching keys among the next
  \<open>count\<close> and the cursor after them, \<open>0\<close> once the end is reached.
\<close>

definition r_scan :: "time_ms \<Rightarrow> string \<Rightarrow> nat \<Rightarrow> nat \<Rightarrow> rdb \<Rightarrow> nat \<times> string list" where
  "r_scan now pat count cur db =
     (let ks = r_keys now db
      in (if cur + count < length ks then cur + count else 0,
          filter (glob pat) (take count (drop cur ks))))"

text \<open>
  The client's \<open>scanIterator\<close>: start at cursor \<open>0\<close>, yield each reply's keys, and
  call again until the server answers cursor \<open>0\<close>; \<open>COUNT\<close> is the server's default
  of 10. No structural argument bounds the calls, so the loop is a partial function
  whose \<open>None\<close> is "never ends"; \<open>r_scan_loop_Some\<close> proves that it ends.
\<close>

partial_function (option) r_scan_loop :: "time_ms \<Rightarrow> string \<Rightarrow> rdb \<Rightarrow> nat \<Rightarrow> string list option" where
  "r_scan_loop now pat db cur =
     (case r_scan now pat 10 cur db of
        (cur', ks) \<Rightarrow> if cur' = 0 then Some ks
                     else Option.bind (r_scan_loop now pat db cur') (\<lambda>rest. Some (ks @ rest)))"

definition r_scan_iter :: "time_ms \<Rightarrow> string \<Rightarrow> rdb \<Rightarrow> string list option" where
  "r_scan_iter now pat db = r_scan_loop now pat db 0"

text \<open>A pattern character with no special meaning.\<close>

definition glob_plain :: "char \<Rightarrow> bool" where
  "glob_plain a \<longleftrightarrow> a \<notin> {CHR ''*'', CHR ''?'', CHR ''['', CHR 0x5C}"

text \<open>A key space in which no key carries a deadline.\<close>

definition redis_noexp :: "rdb \<Rightarrow> bool" where
  "redis_noexp db \<longleftrightarrow> (\<forall>p\<in>set db. rexp (snd p) = None)"

section \<open>Lemmas\<close>

lemma glob_Nil [simp]: "glob [] s \<longleftrightarrow> s = []"
  by (simp add: glob.simps)

lemma glob_plain_Cons [simp]:
  "glob_plain a \<Longrightarrow> glob (a # p) s \<longleftrightarrow> (\<exists>s'. s = a # s' \<and> glob p s')"
  by (subst glob.simps) (auto simp: glob_plain_def split: list.split)

lemma glob_star_any [simp]: "glob ''*'' s"
  by (induction s) (subst glob.simps, simp split: list.split)+

lemma glob_prefix_star:
  "\<forall>a\<in>set p. glob_plain a \<Longrightarrow> glob (p @ ''*'') s \<longleftrightarrow> prefix p s"
  by (induction p arbitrary: s) (auto simp: prefix_def)

lemma glob_star_Cons:
  "glob (CHR ''*'' # p) s \<longleftrightarrow> (\<exists>x y. s = x @ y \<and> glob p y)"
proof (induction s)
  case Nil
  then show ?case by (subst glob.simps) simp
next
  case (Cons c s)
  have "glob (CHR ''*'' # p) (c # s) \<longleftrightarrow> glob p (c # s) \<or> glob (CHR ''*'' # p) s"
    by (subst glob.simps) simp
  also have "\<dots> \<longleftrightarrow> (\<exists>x y. c # s = x @ y \<and> glob p y)"
    using Cons.IH by (auto simp: Cons_eq_append_conv)
  finally show ?case .
qed

subsection \<open>Commands on a key space without deadlines\<close>

lemma set_update_sub: "set (AList.update k v al) \<subseteq> insert (k, v) (set al)"
  by (induction al) auto

lemma r_purge_noexp: "redis_noexp db \<Longrightarrow> r_purge now db = db"
  by (auto simp: r_purge_def redis_noexp_def r_live_def filter_id_conv split: option.splits)

lemma redis_noexp_update: "redis_noexp db \<Longrightarrow> rexp v = None \<Longrightarrow> redis_noexp (AList.update k v db)"
  using set_update_sub [of k v db] by (auto simp: redis_noexp_def)

lemma redis_noexp_delete: "redis_noexp db \<Longrightarrow> redis_noexp (AList.delete k db)"
  by (auto simp: redis_noexp_def AList.delete_eq)

lemma redis_noexp_map_of: "redis_noexp db \<Longrightarrow> map_of db k = Some e \<Longrightarrow> rexp e = None"
  by (metis map_of_SomeD redis_noexp_def snd_conv)

lemma redis_noexp_hset: "redis_noexp db \<Longrightarrow> redis_noexp (snd (r_hset k f v db))"
  by (auto simp: r_hset_def redis_noexp_update redis_noexp_map_of split: option.split rval.split)

lemma redis_noexp_lpush: "redis_noexp db \<Longrightarrow> redis_noexp (snd (r_lpush k x db))"
  by (auto simp: r_lpush_def redis_noexp_update redis_noexp_map_of split: option.split rval.split)

lemma distinct_hset: "distinct (map fst db) \<Longrightarrow> distinct (map fst (snd (r_hset k f v db)))"
  by (auto simp: r_hset_def AList.distinct_update split: option.split rval.split)

lemma distinct_lpush: "distinct (map fst db) \<Longrightarrow> distinct (map fst (snd (r_lpush k x db)))"
  by (auto simp: r_lpush_def AList.distinct_update split: option.split rval.split)

lemma distinct_delete: "distinct (map fst db) \<Longrightarrow> distinct (map fst (AList.delete k db))"
  by (simp add: AList.delete_eq distinct_map_filter)

lemma redis_noexp_exec:
  assumes "redis_noexp db" and "\<not> r_sets_expiry c"
  shows "redis_noexp (snd (r_exec now c db))"
  using assms
  by (cases c) (simp_all add: r_purge_noexp redis_noexp_hset redis_noexp_lpush redis_noexp_delete)

lemma distinct_exec:
  "distinct (map fst db) \<Longrightarrow> redis_noexp db \<Longrightarrow> \<not> r_sets_expiry c \<Longrightarrow>
   distinct (map fst (snd (r_exec now c db)))"
  by (cases c) (simp_all add: r_purge_noexp distinct_hset distinct_lpush distinct_delete)

lemma r_run_inv:
  "distinct (map fst db) \<Longrightarrow> redis_noexp db \<Longrightarrow> \<forall>c\<in>set cs. \<not> r_sets_expiry c \<Longrightarrow>
   distinct (map fst (snd (r_run now cs db))) \<and> redis_noexp (snd (r_run now cs db))"
proof (induction cs arbitrary: db)
  case (Cons c cs)
  then show ?case
    using distinct_exec [where db = db and c = c and now = now]
      redis_noexp_exec [where db = db and c = c and now = now]
    by (auto simp: case_prod_beta)
qed simp

lemma r_run_append:
  "r_run now (xs @ ys) db =
     (let (r1, db1) = r_run now xs db; (r2, db2) = r_run now ys db1
      in (case r1 of Inl err \<Rightarrow> Inl err | Inr _ \<Rightarrow> r2, db2))"
  by (induction xs arbitrary: db) (auto simp: case_prod_beta split: sum.split)

lemma update_update [simp]: "AList.update k a (AList.update k b al) = AList.update k a al"
  by (induction al) auto

lemma map_of_update_same [simp]: "map_of (AList.update k v al) k = Some v"
  by (simp add: AList.update_conv')

lemma update_same_id: "map_of al k = Some v \<Longrightarrow> AList.update k v al = al"
  by (induction al) (auto split: if_splits)

lemma r_run_hsets:
  assumes "redis_noexp db" and "map_of db k = Some \<lparr>rv = RHash h, rexp = None\<rparr>"
  shows "r_run now (map (\<lambda>(f, x). HSet k f x) fxs) db =
    (Inr (), AList.update k \<lparr>rv = RHash (fold (\<lambda>(f, x). AList.update f x) fxs h), rexp = None\<rparr> db)"
  using assms
proof (induction fxs arbitrary: h db)
  case Nil
  then show ?case by (simp add: update_same_id)
next
  case (Cons fx fxs)
  obtain f x where fx: "fx = (f, x)" by (cases fx)
  let ?db1 = "AList.update k \<lparr>rv = RHash (AList.update f x h), rexp = None\<rparr> db"
  have "r_exec now (HSet k f x) db = (Inr (), ?db1)"
    using Cons.prems by (simp add: r_purge_noexp r_hset_def)
  moreover have "redis_noexp ?db1" using Cons.prems(1) by (simp add: redis_noexp_update)
  ultimately show ?case using Cons.IH [of ?db1 "AList.update f x h"] fx by simp
qed

lemma rentry_rv_update: "rexp e = None \<Longrightarrow> e\<lparr>rv := x\<rparr> = \<lparr>rv = x, rexp = None\<rparr>"
  by (cases e) simp

lemma keys_delete: "fst ` set (AList.delete x al) = fst ` set al - {x}"
  by (auto simp: AList.delete_eq)

lemma r_dbsize_distinct:
  "redis_noexp db \<Longrightarrow> distinct (map fst db) \<Longrightarrow> r_dbsize now db = card (fst ` set db)"
proof -
  assume "redis_noexp db" and d: "distinct (map fst db)"
  then have "r_dbsize now db = length (map fst db)" by (simp add: r_dbsize_def r_purge_noexp)
  also have "\<dots> = card (fst ` set db)" using distinct_card [OF d] by simp
  finally show ?thesis .
qed

text \<open>
  The \<open>SCAN\<close> loop ends: from any cursor it returns the matching live keys from that
  position on, by induction on the keys left.
\<close>

lemma r_scan_loop_Some:
  "r_scan_loop now pat db cur = Some (filter (glob pat) (drop cur (r_keys now db)))"
proof (induction "length (r_keys now db) - cur" arbitrary: cur rule: less_induct)
  case less
  let ?ks = "r_keys now db"
  show ?case
  proof (cases "cur + 10 < length ?ks")
    case True
    then have "r_scan_loop now pat db (cur + 10) = Some (filter (glob pat) (drop (cur + 10) ?ks))"
      by (intro less) simp
    moreover have "drop cur ?ks = take 10 (drop cur ?ks) @ drop (cur + 10) ?ks"
      by (metis append_take_drop_id drop_drop add.commute)
    ultimately show ?thesis using True
      by (subst r_scan_loop.simps) (simp add: r_scan_def Let_def, metis filter_append)
  next
    case False
    then have "take 10 (drop cur ?ks) = drop cur ?ks" by simp
    then show ?thesis using False
      by (subst r_scan_loop.simps) (simp add: r_scan_def Let_def)
  qed
qed

lemma r_scan_iter_Some: "r_scan_iter now pat db = Some (filter (glob pat) (r_keys now db))"
  by (simp add: r_scan_iter_def r_scan_loop_Some)

lemma r_scan_iter_ok: "r_scan_ok now pat db (filter (glob pat) (r_keys now db))"
  by (simp add: r_scan_ok_def)

end
