(* ===== verification/RedisStorage.thy ===== *)
theory RedisStorage
  imports Mailbox Redis
begin

text \<open>
  The Redis backend, \<open>src/src/redis-storage.js\<close>, over the server model of
  \<open>Redis\<close>. A message is a hash under \<open>box:user:messageId\<close>; its key is pushed on
  the list \<open>emailKeys\<close>, newest first, which eviction pops from the oldest end. The
  commands \<open>push\<close> issues are listed in the order the code issues them, so a
  \<open>TypeError\<close> thrown while the argument array of \<open>Promise.all\<close> is being built
  leaves the commands issued before it executed. The reads take the keys a complete
  \<open>SCAN\<close> returned, constrained by \<open>r_scan_ok\<close>.
\<close>

section \<open>State\<close>

text \<open>
  \<open>maxItems\<close> is \<open>process.env.MAX_ITEMS || 0\<close>, a string compared numerically:
  the model keeps its numeric value, \<open>0\<close> disabling the bound. \<open>ttl\<close> is
  \<open>Number(process.env.TTL || 0)\<close>, in minutes, kept as an integer.
\<close>

record redis_storage =
  rdb :: rdb
  r_maxItems :: nat
  r_ttl :: int

definition redis_new :: "nat \<Rightarrow> int \<Rightarrow> redis_storage" where
  "redis_new max_items ttl_env = \<lparr>rdb = [], r_maxItems = max_items, r_ttl = ttl_env\<rparr>"

definition emailKeys :: string where
  "emailKeys = ''emailKeys''"

text \<open>\<open>`box:${user}:${email.messageId}`\<close>.\<close>

definition redis_key :: "string \<Rightarrow> string \<Rightarrow> string" where
  "redis_key u i = ''box:'' @ email_key u i"

section \<open>push\<close>

text \<open>
  The commands issued by the array literal of \<open>Promise.all\<close>, in order, and whether
  the literal was completed: reading \<open>email.to.text\<close> throws when the message has no
  To header, after three commands have been sent. \<open>toISO\<close> is \<open>Date.toISOString\<close>.
\<close>

definition redis_issue ::
  "(time_ms \<Rightarrow> string) \<Rightarrow> js_user \<Rightarrow> parsed_email \<Rightarrow> string \<Rightarrow> string \<Rightarrow> rcmd list \<times> bool" where
  "redis_issue toISO u e rawEmail k =
     (let pre = [HSet k ''messageId'' (p_messageId e), HSet k ''subject'' (p_subject e),
                 HSet k ''date'' (toISO (p_date e))]
      in case p_to e of
           None \<Rightarrow> (pre, False)
         | Some t \<Rightarrow>
             (pre @ [HSet k ''recipient'' t,
                     (case u of None \<Rightarrow> HSetUndef k ''user'' | Some v \<Rightarrow> HSet k ''user'' v),
                     HSet k ''raw'' rawEmail, LPush emailKeys k], True))"

text \<open>
  The capacity rule: with \<open>numKeys = dbSize - 1\<close>, pop \<open>numKeys - maxItems\<close> keys
  from the old end of \<open>emailKeys\<close> and delete each. A null reply of \<open>rPopCount\<close>
  makes \<open>popedKeys.map\<close> throw.
\<close>

definition redis_evict :: "time_ms \<Rightarrow> nat \<Rightarrow> rdb \<Rightarrow> (js_error + unit) \<times> rdb" where
  "redis_evict now max_items db =
     (let numKeys = int (r_dbsize now db) - 1 in
      if 0 < max_items \<and> int max_items < numKeys then
        (case r_rpopcount now emailKeys (nat (numKeys - int max_items)) db of
           (Inl err, db') \<Rightarrow> (Inl err, db')
         | (Inr None, db') \<Rightarrow> (Inl (TypeError ''popedKeys is null''), db')
         | (Inr (Some ks), db') \<Rightarrow> r_run now (map Del ks) db')
      else (Inr (), db))"

definition redis_push :: "(time_ms \<Rightarrow> string) \<Rightarrow> redis_storage store_push" where
  "redis_push toISO s u e rawEmail now =
     (let k = redis_key (user_str u) (p_messageId e);
          (cmds, complete) = redis_issue toISO u e rawEmail k;
          (res, db1) = r_run now cmds (rdb s)
      in if \<not> complete then (Inl (TypeError ''email.to is undefined''), s\<lparr>rdb := db1\<rparr>)
         else
           (case res of
              Inl err \<Rightarrow> (Inl err, s\<lparr>rdb := db1\<rparr>)
            | Inr _ \<Rightarrow>
                (let db2 = (if r_ttl s \<noteq> 0 then snd (r_exec now (Expire k (r_ttl s * 60)) db1) else db1);
                     (res3, db3) = redis_evict now (r_maxItems s) db2
                 in (res3, s\<lparr>rdb := db3\<rparr>))))"

section \<open>Reads\<close>

record redis_meta =
  rm_messageId :: "string option"
  rm_subject :: "string option"
  rm_date :: "string option"
  rm_recipient :: "string option"
  rm_user :: "string option"

definition meta_fields :: "string list" where
  "meta_fields = [''messageId'', ''subject'', ''date'', ''recipient'', ''user'']"

text \<open>The loop of \<open>getEmails\<close>: one \<open>hmGet\<close> per scanned key, in scan order.\<close>

fun redis_collect :: "time_ms \<Rightarrow> rdb \<Rightarrow> string list \<Rightarrow> js_error + redis_meta list" where
  "redis_collect now db [] = Inr []"
| "redis_collect now db (k # ks) =
     (case r_hmget now k meta_fields db of
        Inl err \<Rightarrow> Inl err
      | Inr vs \<Rightarrow>
          (case redis_collect now db ks of
             Inl err \<Rightarrow> Inl err
           | Inr ms \<Rightarrow> Inr (\<lparr>rm_messageId = vs ! 0, rm_subject = vs ! 1, rm_date = vs ! 2,
                              rm_recipient = vs ! 3, rm_user = vs ! 4\<rparr> # ms)))"

text \<open>The pattern of \<open>getEmails(user)\<close>: \<open>`box:${user}:*`\<close>.\<close>

definition user_pattern :: "string \<Rightarrow> string" where
  "user_pattern u = ''box:'' @ u @ '':*''"

text \<open>
  \<open>for await (const key of this.redisClient.scanIterator({ MATCH: pat }))\<close>: the keys
  the loop body sees, in order.
\<close>

definition redis_scan :: "redis_storage \<Rightarrow> time_ms \<Rightarrow> string \<Rightarrow> string list option" where
  "redis_scan s now pat = r_scan_iter now pat (rdb s)"

text \<open>
  \<open>getEmails(user)\<close>: the \<open>hmGet\<close> loop over the keys the scan of
  \<open>`box:${user}:*`\<close> yields; \<open>None\<close> when that iteration does not end.
\<close>

definition redis_getEmails :: "redis_storage \<Rightarrow> time_ms \<Rightarrow> string \<Rightarrow> (js_error + redis_meta list) option" where
  "redis_getEmails s now u = map_option (redis_collect now (rdb s)) (redis_scan s now (user_pattern u))"

definition redis_getEmail :: "redis_storage \<Rightarrow> string \<Rightarrow> string \<Rightarrow> time_ms \<Rightarrow> js_error + string option" where
  "redis_getEmail s u i now = r_hget now (redis_key u i) ''raw'' (rdb s)"

text \<open>\<open>key.replace(new RegExp(`^box:(.*):.*`), '$1')\<close>.\<close>

definition redis_key_user :: "string \<Rightarrow> string" where
  "redis_key_user k =
     (if starts_with k ''box:'' \<and> CHR '':'' \<in> set (takeWhile (\<lambda>c. \<not> is_line_term c) (drop 4 k))
      then key_user (drop 4 k) else k)"

text \<open>
  \<open>listUsers()\<close>: the user part of every key the scan of \<open>box:*\<close> yields, then
  \<open>Array.from(new Set(keys))\<close>.
\<close>

definition redis_listUsers :: "redis_storage \<Rightarrow> time_ms \<Rightarrow> string list option" where
  "redis_listUsers s now = map_option (\<lambda>ks. array_from_set (map redis_key_user ks)) (redis_scan s now ''box:*'')"

section \<open>Invariant of the clean store\<close>

text \<open>The hash a complete \<open>push\<close> writes, field by field.\<close>

definition redis_fields ::
  "(time_ms \<Rightarrow> string) \<Rightarrow> string \<Rightarrow> parsed_email \<Rightarrow> string \<Rightarrow> string \<Rightarrow> (string \<times> string) list" where
  "redis_fields toISO v e rawEmail t =
     [(''messageId'', p_messageId e), (''subject'', p_subject e), (''date'', toISO (p_date e)),
      (''recipient'', t), (''user'', v), (''raw'', rawEmail)]"

text \<open>The list \<open>emailKeys\<close> as a value: empty when the key is absent.\<close>

definition redis_list :: "rdb \<Rightarrow> string list" where
  "redis_list db =
     (case map_of db emailKeys of
        Some e \<Rightarrow> (case rv e of RList xs \<Rightarrow> xs | RHash _ \<Rightarrow> [])
      | None \<Rightarrow> [])"

text \<open>
  A store without retention whose list and hashes agree: the list holds each message key
  once, every key of the key space is a message key of the list or the list itself, and
  the list is within capacity.
\<close>

definition redis_inv :: "redis_storage \<Rightarrow> bool" where
  "redis_inv s \<longleftrightarrow>
     (let db = rdb s; L = redis_list db in
      distinct (map fst db) \<and> r_ttl s = 0 \<and> redis_noexp db \<and> distinct L \<and> emailKeys \<notin> set L \<and>
      set (map fst db) = set L \<union> (if L = [] then {} else {emailKeys}) \<and>
      (\<forall>e. map_of db emailKeys = Some e \<longrightarrow> (\<exists>xs. rv e = RList xs)) \<and>
      (\<forall>k\<in>set L. \<exists>e h. map_of db k = Some e \<and> rv e = RHash h) \<and>
      (0 < r_maxItems s \<longrightarrow> length L \<le> r_maxItems s))"

text \<open>
  The states reached from an empty store without retention by complete pushes of
  authenticated users, each under a key not yet in the key space.
\<close>

inductive redis_clean :: "redis_storage \<Rightarrow> bool" where
  init: "redis_clean (redis_new max_items 0)"
| push: "redis_clean s \<Longrightarrow> p_to e = Some t \<Longrightarrow> redis_key v (p_messageId e) \<notin> fst ` set (rdb s) \<Longrightarrow>
    redis_clean (snd (redis_push toISO s (Some v) e rawEmail now))"

section \<open>Example inputs\<close>

text \<open>A rendering of dates and a message with a To header, for the concrete scenarios.\<close>

abbreviation ex_toISO :: "time_ms \<Rightarrow> string" where
  "ex_toISO \<equiv> (\<lambda>_. ''1970-01-01T00:00:00.000Z'')"

abbreviation ex_mail :: "string \<Rightarrow> time_ms \<Rightarrow> parsed_email" where
  "ex_mail i d \<equiv> \<lparr>p_messageId = i, p_subject = ''s'', p_date = d, p_to = Some ''t''\<rparr>"

section \<open>Lemmas\<close>

lemma redis_issue_complete:
  "p_to e = Some t \<Longrightarrow> redis_issue toISO (Some v) e rawEmail k =
     (map (\<lambda>(f, x). HSet k f x) (redis_fields toISO v e rawEmail t) @ [LPush emailKeys k], True)"
  by (simp add: redis_issue_def redis_fields_def)

lemma redis_push_cmds:
  assumes ne: "redis_noexp db" and k: "map_of db k = None" "k \<noteq> emailKeys"
    and lst: "\<forall>e'. map_of db emailKeys = Some e' \<longrightarrow> (\<exists>xs. rv e' = RList xs)"
  shows "r_run now (map (\<lambda>(f, x). HSet k f x) (redis_fields toISO v e rawEmail t) @ [LPush emailKeys k]) db =
    (Inr (), AList.update emailKeys \<lparr>rv = RList (k # redis_list db), rexp = None\<rparr>
       (AList.update k \<lparr>rv = RHash (redis_fields toISO v e rawEmail t), rexp = None\<rparr> db))"
proof -
  let ?F = "redis_fields toISO v e rawEmail t"
  let ?h0 = "[(''messageId'', p_messageId e)]"
  let ?db0 = "AList.update k \<lparr>rv = RHash ?h0, rexp = None\<rparr> db"
  let ?db1 = "AList.update k \<lparr>rv = RHash ?F, rexp = None\<rparr> db"
  have f: "?F = (''messageId'', p_messageId e) # tl ?F" by (simp add: redis_fields_def)
  have e0: "r_exec now (HSet k ''messageId'' (p_messageId e)) db = (Inr (), ?db0)"
    using ne k by (simp add: r_purge_noexp r_hset_def)
  have ne0: "redis_noexp ?db0" using ne by (simp add: redis_noexp_update)
  have fold: "fold (\<lambda>(f, x). AList.update f x) (tl ?F) ?h0 = ?F"
    by (simp add: redis_fields_def)
  have hs: "r_run now (map (\<lambda>(f, x). HSet k f x) ?F) db = (Inr (), ?db1)"
    using r_run_hsets [OF ne0, of k ?h0 now "tl ?F"] e0 fold
    by (subst f) (simp add: case_prod_beta)
  have ne1: "redis_noexp ?db1" using ne by (simp add: redis_noexp_update)
  have m1: "map_of ?db1 emailKeys = map_of db emailKeys" using k(2) by (simp add: AList.update_conv')
  have lp: "r_exec now (LPush emailKeys k) ?db1 =
      (Inr (), AList.update emailKeys \<lparr>rv = RList (k # redis_list db), rexp = None\<rparr> ?db1)"
  proof (cases "map_of db emailKeys")
    case None
    then show ?thesis using ne1 m1 by (simp add: r_purge_noexp r_lpush_def redis_list_def)
  next
    case (Some e')
    with lst obtain xs where "rv e' = RList xs" by blast
    moreover have "rexp e' = None" using ne Some by (rule redis_noexp_map_of)
    ultimately show ?thesis using ne1 m1 Some
      by (simp add: r_purge_noexp r_lpush_def redis_list_def rentry_rv_update)
  qed
  show ?thesis using hs lp by (simp add: r_run_append)
qed

lemma redis_evict_one:
  assumes ne: "redis_noexp db" and m: "map_of db emailKeys = Some \<lparr>rv = RList (xs @ [x]), rexp = None\<rparr>"
    and xs: "xs \<noteq> []" and sz: "r_dbsize now db = length xs + 2" and cap: "cap = length xs"
  shows "redis_evict now cap db =
    (Inr (), AList.delete x (AList.update emailKeys \<lparr>rv = RList xs, rexp = None\<rparr> db))"
proof -
  let ?db' = "AList.update emailKeys \<lparr>rv = RList xs, rexp = None\<rparr> db"
  have n: "nat (int (r_dbsize now db) - 1 - int cap) = 1" using sz cap by simp
  have pop: "r_rpopcount now emailKeys 1 db = (Inr (Some [x]), ?db')"
    using ne m xs by (simp add: r_rpopcount_def r_purge_noexp Let_def)
  have "redis_noexp ?db'" using ne by (simp add: redis_noexp_update)
  then have "r_run now [Del x] ?db' = (Inr (), AList.delete x ?db')"
    by (simp add: r_purge_noexp)
  moreover have "0 < cap \<and> int cap < int (r_dbsize now db) - 1" using sz cap xs by simp
  ultimately show ?thesis using n pop by (simp add: redis_evict_def Let_def)
qed

lemma redis_evict_skip:
  "\<not> (0 < cap \<and> int cap < int (r_dbsize now db) - 1) \<Longrightarrow> redis_evict now cap db = (Inr (), db)"
  unfolding redis_evict_def Let_def by auto

lemma redis_key_not_emailKeys [simp]: "redis_key u i \<noteq> emailKeys" "emailKeys \<noteq> redis_key u i"
  by (simp_all add: redis_key_def emailKeys_def)

lemma redis_inv_keys:
  "redis_inv s \<Longrightarrow> fst ` set (rdb s) = set (redis_list (rdb s)) \<union>
     (if redis_list (rdb s) = [] then {} else {emailKeys})"
  by (simp add: redis_inv_def Let_def)

lemma redis_push_clean_db:
  fixes toISO :: "time_ms \<Rightarrow> string" and rawEmail :: string and now :: time_ms
  assumes inv: "redis_inv s" and to: "p_to e = Some t"
    and fresh: "redis_key v (p_messageId e) \<notin> fst ` set (rdb s)"
  defines "k \<equiv> redis_key v (p_messageId e)" and "L \<equiv> redis_list (rdb s)"
    and "H \<equiv> \<lparr>rv = RHash (redis_fields toISO v e rawEmail t), rexp = None\<rparr>"
  shows "redis_push toISO s (Some v) e rawEmail now =
    (Inr (), s\<lparr>rdb := (if 0 < r_maxItems s \<and> length L = r_maxItems s
        then AList.delete (last L) (AList.update emailKeys \<lparr>rv = RList (k # butlast L), rexp = None\<rparr>
               (AList.update k H (rdb s)))
        else AList.update emailKeys \<lparr>rv = RList (k # L), rexp = None\<rparr> (AList.update k H (rdb s)))\<rparr>)"
proof -
  let ?db = "rdb s"
  let ?db1 = "AList.update emailKeys \<lparr>rv = RList (k # L), rexp = None\<rparr> (AList.update k H ?db)"
  have ne: "redis_noexp ?db" and d: "distinct (map fst ?db)" and ttl: "r_ttl s = 0"
    and dL: "distinct L" and eL: "emailKeys \<notin> set L"
    and lst: "\<forall>e'. map_of ?db emailKeys = Some e' \<longrightarrow> (\<exists>xs. rv e' = RList xs)"
    and bnd: "0 < r_maxItems s \<longrightarrow> length L \<le> r_maxItems s"
    using inv by (simp_all add: redis_inv_def Let_def L_def)
  have keys: "fst ` set ?db = set L \<union> (if L = [] then {} else {emailKeys})"
    using inv by (simp add: redis_inv_keys L_def)
  have kn: "map_of ?db k = None" using fresh by (simp add: k_def map_of_eq_None_iff)
  have kL: "k \<notin> set L" using fresh keys by (auto simp: k_def)
  have run: "r_run now (fst (redis_issue toISO (Some v) e rawEmail k)) ?db = (Inr (), ?db1)"
    using redis_push_cmds [OF ne kn _ lst, of now toISO v e rawEmail t] to
    by (simp add: redis_issue_complete k_def H_def L_def)
  have ne1: "redis_noexp ?db1" using ne by (simp add: redis_noexp_update H_def)
  have d1: "distinct (map fst ?db1)" using d by (simp add: AList.distinct_update)
  have "fst ` set ?db1 = insert emailKeys (insert k (set L))"
    using keys by (auto simp: AList.dom_update)
  then have sz: "r_dbsize now ?db1 = length L + 2"
    using r_dbsize_distinct [OF ne1 d1] kL eL dL by (simp add: distinct_card k_def)
  show ?thesis
  proof (cases "0 < r_maxItems s \<and> length L = r_maxItems s")
    case True
    then have "L \<noteq> []" by auto
    then have split: "k # L = (k # butlast L) @ [last L]" by simp
    have m1: "map_of ?db1 emailKeys = Some \<lparr>rv = RList ((k # butlast L) @ [last L]), rexp = None\<rparr>"
      using split by (simp add: AList.update_conv')
    have "redis_evict now (r_maxItems s) ?db1 =
        (Inr (), AList.delete (last L) (AList.update emailKeys \<lparr>rv = RList (k # butlast L), rexp = None\<rparr> ?db1))"
      by (rule redis_evict_one [OF ne1 m1]) (use sz True in simp_all)
    then show ?thesis using run True ttl
      by (simp add: redis_push_def k_def [symmetric] Let_def case_prod_beta redis_issue_complete [OF to])
  next
    case False
    then have "\<not> (0 < r_maxItems s \<and> int (r_maxItems s) < int (r_dbsize now ?db1) - 1)"
      using sz bnd by auto
    then have "redis_evict now (r_maxItems s) ?db1 = (Inr (), ?db1)" by (rule redis_evict_skip)
    then show ?thesis using run False ttl
      by (simp add: redis_push_def k_def [symmetric] Let_def case_prod_beta redis_issue_complete [OF to]
          del: de_Morgan_conj)
  qed
qed

lemma redis_inv_intro:
  assumes "distinct (map fst (rdb s))" "redis_noexp (rdb s)" "r_ttl s = 0"
    and "map_of (rdb s) emailKeys = Some \<lparr>rv = RList L, rexp = None\<rparr>" "L \<noteq> []"
    and "distinct L" "emailKeys \<notin> set L" "fst ` set (rdb s) = insert emailKeys (set L)"
    and "\<forall>k\<in>set L. \<exists>e h. map_of (rdb s) k = Some e \<and> rv e = RHash h"
    and "0 < r_maxItems s \<longrightarrow> length L \<le> r_maxItems s"
  shows "redis_inv s"
  using assms by (simp add: redis_inv_def redis_list_def Let_def)

lemma redis_inv_hash:
  "redis_inv s \<Longrightarrow> k \<in> set (redis_list (rdb s)) \<Longrightarrow> \<exists>e h. map_of (rdb s) k = Some e \<and> rv e = RHash h"
  unfolding redis_inv_def Let_def by blast

lemma redis_push_clean:
  fixes toISO :: "time_ms \<Rightarrow> string" and rawEmail :: string and now :: time_ms
  assumes inv: "redis_inv s" and to: "p_to e = Some t"
    and fresh: "redis_key v (p_messageId e) \<notin> fst ` set (rdb s)"
  defines "k \<equiv> redis_key v (p_messageId e)" and "L \<equiv> redis_list (rdb s)"
    and "s' \<equiv> snd (redis_push toISO s (Some v) e rawEmail now)"
  shows "fst (redis_push toISO s (Some v) e rawEmail now) = Inr () \<and> redis_inv s' \<and>
    rev (redis_list (rdb s')) = mb_bound (r_maxItems s) (rev L @ [k]) \<and>
    map_of (rdb s') k = Some \<lparr>rv = RHash (redis_fields toISO v e rawEmail t), rexp = None\<rparr> \<and>
    r_maxItems s' = r_maxItems s \<and>
    (\<forall>x\<in>set (redis_list (rdb s')). x \<noteq> k \<longrightarrow> map_of (rdb s') x = map_of (rdb s) x)"
proof -
  let ?db = "rdb s"
  let ?H = "\<lparr>rv = RHash (redis_fields toISO v e rawEmail t), rexp = None\<rparr>"
  have ne: "redis_noexp ?db" and d: "distinct (map fst ?db)" and ttl: "r_ttl s = 0"
    and dL: "distinct L" and eL: "emailKeys \<notin> set L"
    and bnd: "0 < r_maxItems s \<longrightarrow> length L \<le> r_maxItems s"
    using inv by (simp_all add: redis_inv_def Let_def L_def)
  have keys: "fst ` set ?db = set L \<union> (if L = [] then {} else {emailKeys})"
    using inv by (simp add: redis_inv_keys L_def)
  have kL: "k \<notin> set L" using fresh keys by (auto simp: k_def)
  have ke: "k \<noteq> emailKeys" by (simp add: k_def)
  have kn: "map_of ?db k = None" using fresh by (simp add: k_def map_of_eq_None_iff)
  have hash: "\<forall>k'\<in>set L. \<exists>e h. map_of ?db k' = Some e \<and> rv e = RHash h"
    using inv redis_inv_hash L_def by blast
  have run: "redis_push toISO s (Some v) e rawEmail now =
    (Inr (), s\<lparr>rdb := (if 0 < r_maxItems s \<and> length L = r_maxItems s
        then AList.delete (last L) (AList.update emailKeys \<lparr>rv = RList (k # butlast L), rexp = None\<rparr>
               (AList.update k ?H ?db))
        else AList.update emailKeys \<lparr>rv = RList (k # L), rexp = None\<rparr> (AList.update k ?H ?db))\<rparr>)"
    using redis_push_clean_db [OF inv to fresh] by (simp add: k_def L_def)
  show ?thesis
  proof (cases "0 < r_maxItems s \<and> length L = r_maxItems s")
    case True
    let ?L' = "k # butlast L"
    let ?db' = "AList.delete (last L) (AList.update emailKeys \<lparr>rv = RList ?L', rexp = None\<rparr> (AList.update k ?H ?db))"
    have "L \<noteq> []" using True by auto
    then have Lsplit: "L = butlast L @ [last L]" by simp
    then have xL: "last L \<notin> set (butlast L)" using dL by (metis distinct_append not_distinct_conv_prefix
        disjoint_iff_not_equal list.set_intros(1) set_append)
    have xe: "last L \<noteq> emailKeys" and xk: "last L \<noteq> k"
      using eL kL \<open>L \<noteq> []\<close> last_in_set by metis+
    have sub: "set (butlast L) \<subseteq> set L" by (metis Lsplit set_append sup_ge1)
    have s': "s' = s\<lparr>rdb := ?db'\<rparr>" using run True by (simp add: s'_def)
    have inv': "redis_inv s'"
    proof (rule redis_inv_intro [where L = ?L'])
      show "distinct (map fst (rdb s'))" using d s'
        by (simp add: distinct_delete AList.distinct_update)
      show "redis_noexp (rdb s')" using ne s'
        by (simp add: redis_noexp_delete redis_noexp_update)
      show "map_of (rdb s') emailKeys = Some \<lparr>rv = RList ?L', rexp = None\<rparr>"
        using s' xe by (simp add: AList.map_of_delete AList.update_conv')
      show "distinct ?L'" using dL kL sub by (auto simp: distinct_butlast)
      show "emailKeys \<notin> set ?L'" using eL sub ke by auto
      have "set L = insert (last L) (set (butlast L))" by (metis Lsplit set_append Un_insert_right
          empty_set list.simps(15) sup_bot.right_neutral)
      then show "fst ` set (rdb s') = insert emailKeys (set ?L')"
        using s' keys xL xe xk \<open>L \<noteq> []\<close> by (auto simp: keys_delete AList.dom_update)
      show "\<forall>k'\<in>set ?L'. \<exists>e h. map_of (rdb s') k' = Some e \<and> rv e = RHash h"
      proof
        fix k' assume k': "k' \<in> set ?L'"
        show "\<exists>e h. map_of (rdb s') k' = Some e \<and> rv e = RHash h"
        proof (cases "k' = k")
          case False
          with k' have "k' \<in> set (butlast L)" by simp
          then have "k' \<noteq> last L" "k' \<noteq> emailKeys" "k' \<in> set L" using xL eL sub by auto
          then show ?thesis using hash s' False
            by (simp add: AList.map_of_delete AList.update_conv')
        qed (use s' xk ke in \<open>simp add: AList.map_of_delete AList.update_conv'\<close>)
      qed
      show "0 < r_maxItems s' \<longrightarrow> length ?L' \<le> r_maxItems s'" using s' True by simp
    qed (use s' ttl in simp_all)
    have "rev ?L' = mb_bound (r_maxItems s) (rev L @ [k])"
      using True by (simp add: mb_bound_snoc butlast_conv_take)
    moreover have "redis_list (rdb s') = ?L'"
      using s' xe by (simp add: redis_list_def AList.map_of_delete AList.update_conv')
    moreover have "map_of (rdb s') k = Some ?H"
      using s' xk ke by (simp add: AList.map_of_delete AList.update_conv')
    moreover have "\<forall>x\<in>set ?L'. x \<noteq> k \<longrightarrow> map_of (rdb s') x = map_of ?db x"
    proof (intro ballI impI)
      fix x assume x: "x \<in> set ?L'" "x \<noteq> k"
      then have "x \<in> set (butlast L)" by simp
      then have "x \<noteq> last L" "x \<noteq> emailKeys" using xL eL sub by auto
      then show "map_of (rdb s') x = map_of ?db x"
        using s' x(2) by (simp add: AList.map_of_delete AList.update_conv')
    qed
    ultimately show ?thesis using run True inv' s' by simp
  next
    case False
    let ?L' = "k # L"
    let ?db' = "AList.update emailKeys \<lparr>rv = RList ?L', rexp = None\<rparr> (AList.update k ?H ?db)"
    have s': "s' = s\<lparr>rdb := ?db'\<rparr>" using run False by (simp add: s'_def del: de_Morgan_conj)
    have inv': "redis_inv s'"
    proof (rule redis_inv_intro [where L = ?L'])
      show "fst ` set (rdb s') = insert emailKeys (set ?L')"
        using s' keys by (auto simp: AList.dom_update)
      show "\<forall>k'\<in>set ?L'. \<exists>e h. map_of (rdb s') k' = Some e \<and> rv e = RHash h"
        using s' hash eL ke by (auto simp: AList.update_conv')
      show "0 < r_maxItems s' \<longrightarrow> length ?L' \<le> r_maxItems s'" using s' False bnd by auto
    qed (use s' d ne ttl dL kL eL ke in \<open>simp_all add: AList.distinct_update redis_noexp_update
        AList.update_conv'\<close>)
    have "rev ?L' = mb_bound (r_maxItems s) (rev L @ [k])"
      using False bnd by (auto simp: mb_bound_def)
    moreover have "redis_list (rdb s') = ?L'" using s' by (simp add: redis_list_def AList.update_conv')
    moreover have "map_of (rdb s') k = Some ?H" using s' ke by (simp add: AList.update_conv')
    moreover have "\<forall>x\<in>set ?L'. x \<noteq> k \<longrightarrow> map_of (rdb s') x = map_of ?db x"
      using s' eL by (auto simp: AList.update_conv')
    ultimately show ?thesis using run False inv' s' by (simp del: de_Morgan_conj)
  qed
qed

lemma redis_inv_new: "redis_inv (redis_new max_items 0)"
  by (simp add: redis_inv_def redis_new_def redis_list_def redis_noexp_def)

lemma redis_clean_inv: "redis_clean s \<Longrightarrow> redis_inv s"
proof (induction rule: redis_clean.induct)
  case (push s e t v toISO rawEmail now)
  then show ?case using redis_push_clean [OF push.IH push.hyps(2,3)] by blast
qed (rule redis_inv_new)

lemma redis_inv_msg_keys:
  assumes "redis_inv s"
  shows "length (filter (\<lambda>k. k \<noteq> emailKeys) (r_keys now (rdb s))) = length (redis_list (rdb s))"
proof -
  let ?L = "redis_list (rdb s)"
  have d: "distinct (map fst (rdb s))" and ne: "redis_noexp (rdb s)" and dL: "distinct ?L"
    and eL: "emailKeys \<notin> set ?L"
    using assms by (simp_all add: redis_inv_def Let_def)
  have "set (filter (\<lambda>k. k \<noteq> emailKeys) (map fst (rdb s))) = set ?L"
    using redis_inv_keys [OF assms] eL by auto
  moreover have "distinct (filter (\<lambda>k. k \<noteq> emailKeys) (map fst (rdb s)))" using d by simp
  ultimately show ?thesis using dL ne
    by (metis distinct_card r_keys_def r_purge_noexp)
qed

text \<open>
  C8. Capacity, for the clean store: in every state reached from an empty store without
  retention by complete pushes under new keys, the live message keys number at most a
  positive \<open>maxItems\<close>.
\<close>

theorem redis_clean_bound:
  assumes "redis_clean s" and "0 < r_maxItems s"
  shows "length (filter (\<lambda>k. k \<noteq> emailKeys) (r_keys now (rdb s))) \<le> r_maxItems s"
proof -
  have inv: "redis_inv s" using assms(1) by (rule redis_clean_inv)
  then have "length (redis_list (rdb s)) \<le> r_maxItems s" using assms(2) by (simp add: redis_inv_def Let_def)
  then show ?thesis using redis_inv_msg_keys [OF inv] by simp
qed

text \<open>
  C9. Refinement, for the clean store: a complete push under a new key acts on the
  eviction list, read oldest first, as the contract's capacity rule: append the key and
  keep the newest \<open>maxItems\<close>.
\<close>

theorem redis_push_refines:
  assumes "redis_inv s" and "p_to e = Some t" and "redis_key v (p_messageId e) \<notin> fst ` set (rdb s)"
  shows "rev (redis_list (rdb (snd (redis_push toISO s (Some v) e rawEmail now)))) =
    mb_bound (r_maxItems s) (rev (redis_list (rdb s)) @ [redis_key v (p_messageId e)])"
  using redis_push_clean [OF assms] by blast

text \<open>
  C10. Round trip, for the clean store: after a complete push under a new key, the push
  succeeds and \<open>getEmail\<close> with the same user and identifier returns the raw text, at
  any later time.
\<close>

theorem redis_push_getEmail:
  assumes "redis_inv s" and "p_to e = Some t" and "redis_key v (p_messageId e) \<notin> fst ` set (rdb s)"
  shows "fst (redis_push toISO s (Some v) e rawEmail now) = Inr () \<and>
    redis_getEmail (snd (redis_push toISO s (Some v) e rawEmail now)) v (p_messageId e) later =
      Inr (Some rawEmail)"
proof -
  let ?s' = "snd (redis_push toISO s (Some v) e rawEmail now)"
  have c: "fst (redis_push toISO s (Some v) e rawEmail now) = Inr () \<and> redis_inv ?s' \<and>
      map_of (rdb ?s') (redis_key v (p_messageId e)) =
        Some \<lparr>rv = RHash (redis_fields toISO v e rawEmail t), rexp = None\<rparr>"
    using redis_push_clean [OF assms] by blast
  then have "redis_noexp (rdb ?s')" by (simp add: redis_inv_def Let_def)
  with c show ?thesis by (simp add: redis_getEmail_def r_hget_def r_purge_noexp redis_fields_def)
qed

text \<open>
  Capacity fails with retention. With \<open>TTL\<close> set, expired hashes vanish from
  the key space but their keys stay on \<open>emailKeys\<close>; eviction then pops a stale key,
  deletes nothing, and the live messages exceed \<open>maxItems\<close>. Here with
  \<open>MAX_ITEMS=1\<close>, \<open>TTL=1\<close>: two pushes at 0 s, two at 61 s and 62 s leave two live
  messages.
\<close>

theorem redis_ttl_breaks_bound:
  "(let s1 = snd (redis_push ex_toISO (redis_new 1 1) (Some ''u'') (ex_mail ''a'' 0) ''ra'' 0);
        s2 = snd (redis_push ex_toISO s1 (Some ''u'') (ex_mail ''b'' 0) ''rb'' 0);
        s3 = snd (redis_push ex_toISO s2 (Some ''u'') (ex_mail ''c'' 61000) ''rc'' 61000);
        s4 = snd (redis_push ex_toISO s3 (Some ''u'') (ex_mail ''d'' 62000) ''rd'' 62000)
    in filter (\<lambda>k. k \<noteq> emailKeys) (r_keys 62000 (rdb s4)) = [''box:u:c'', ''box:u:d''] \<and>
       r_maxItems s4 = 1)"
  by code_simp

text \<open>
  Capacity fails on a repeated message identifier, without retention: the second
  push of the same key adds a second list entry for one hash, and once the older entry has
  been popped the remaining stale entry makes a later eviction delete nothing.
\<close>

theorem redis_duplicate_breaks_bound:
  "(let s1 = snd (redis_push ex_toISO (redis_new 1 0) (Some ''u'') (ex_mail ''a'' 0) ''ra'' 0);
        s2 = snd (redis_push ex_toISO s1 (Some ''u'') (ex_mail ''a'' 0) ''ra'' 0);
        s3 = snd (redis_push ex_toISO s2 (Some ''u'') (ex_mail ''b'' 0) ''rb'' 0);
        s4 = snd (redis_push ex_toISO s3 (Some ''u'') (ex_mail ''c'' 0) ''rc'' 0)
    in filter (\<lambda>k. k \<noteq> emailKeys) (r_keys 0 (rdb s4)) = [''box:u:b'', ''box:u:c''] \<and>
       r_maxItems s4 = 1)"
  by code_simp

text \<open>
  A message without a To header fails its push with a \<open>TypeError\<close> after three
  fields have been written: the partial hash stays, with no list entry and no expiry.
  It counts in \<open>dbSize\<close> for ever; here with \<open>MAX_ITEMS=1\<close> the next push reports
  success and immediately evicts the message it stored.
\<close>

theorem redis_missing_to_partial:
  "(let r1 = redis_push ex_toISO (redis_new 1 0) (Some ''u'') ((ex_mail ''a'' 0)\<lparr>p_to := None\<rparr>) ''ra'' 0;
        r2 = redis_push ex_toISO (snd r1) (Some ''u'') (ex_mail ''b'' 0) ''rb'' 0
    in isl (fst r1) \<and> r_keys 0 (rdb (snd r1)) = [''box:u:a''] \<and>
       r_hget 0 ''box:u:a'' ''raw'' (rdb (snd r1)) = Inr None \<and>
       fst r2 = Inr () \<and> redis_getEmail (snd r2) ''u'' ''b'' 0 = Inr None)"
  by code_simp

text \<open>
  Retention counts from the insertion, not from the message date: a message whose
  \<open>Date\<close> is far older than \<open>TTL\<close> minutes is still returned right after the push,
  where the contract (and the volatile store) hide it.
\<close>

theorem redis_ttl_from_insertion:
  "redis_getEmail (snd (redis_push ex_toISO (redis_new 0 1) (Some ''u'') (ex_mail ''a'' 0) ''ra'' 600000000))
      ''u'' ''a'' 600000000 = Inr (Some ''ra'') \<and>
   \<not> mb_fresh 1 600000000 \<lparr>messageId = ''a'', subject = ''s'', date = 0, recipient = ''t'',
       user = Some ''u''\<rparr>"
  by code_simp

lemma glob_plain_key_chars [simp]:
  "(\<forall>c\<in>set (''box:'' @ u @ '':''). glob_plain c) \<longleftrightarrow> (\<forall>c\<in>set u. glob_plain c)"
  by (auto simp: glob_plain_def)

text \<open>
  For a user name without pattern characters, the scan of \<open>getEmails\<close> returns
  exactly the live keys \<open>box:user:id\<close> spelled with that name.
\<close>

lemma redis_scan_user:
  assumes "\<forall>c\<in>set u. glob_plain c" and "r_scan_ok now (user_pattern u) db ks"
  shows "set ks = {k \<in> set (r_keys now db). \<exists>i. k = redis_key u i}"
proof -
  have pl: "\<forall>c\<in>set (''box:'' @ u @ '':''). glob_plain c"
    using assms(1) glob_plain_key_chars by blast
  have up: "user_pattern u = (''box:'' @ u @ '':'') @ ''*''" by (simp add: user_pattern_def)
  have "glob (user_pattern u) k \<longleftrightarrow> prefix (''box:'' @ u @ '':'') k" for k
    unfolding up by (rule glob_prefix_star [OF pl])
  moreover have "prefix (''box:'' @ u @ '':'') k \<longleftrightarrow> (\<exists>i. k = redis_key u i)" for k
    by (auto simp: prefix_def redis_key_def email_key_def)
  ultimately show ?thesis using assms(2) by (auto simp: r_scan_ok_def)
qed

text \<open>
  The \<open>SCAN\<close> loops of \<open>getEmails\<close> and \<open>listUsers\<close> always end, and yield the
  live keys matching the pattern in key-space order; in particular a complete scan.
\<close>

lemma redis_scan_total:
  "redis_scan s now pat = Some (filter (glob pat) (r_keys now (rdb s))) \<and>
   r_scan_ok now pat (rdb s) (filter (glob pat) (r_keys now (rdb s)))"
  by (simp add: redis_scan_def r_scan_iter_Some r_scan_iter_ok)

lemma redis_getEmails_Some:
  "redis_getEmails s now u = Some (redis_collect now (rdb s) (filter (glob (user_pattern u)) (r_keys now (rdb s))))"
  by (simp add: redis_getEmails_def redis_scan_total)

lemma redis_listUsers_Some:
  "redis_listUsers s now = Some (array_from_set (map redis_key_user (filter (glob ''box:*'') (r_keys now (rdb s)))))"
  by (simp add: redis_listUsers_def redis_scan_total)

text \<open>The pattern \<open>box:*:*\<close> of \<open>getEmails('*')\<close> matches the key of every user.\<close>

lemma glob_box_star: "glob (user_pattern ''*'') k \<longleftrightarrow> (\<exists>r. k = ''box:'' @ r \<and> glob ''*:*'' r)"
  by (simp add: user_pattern_def glob_plain_def) auto

lemma glob_colon: "glob ''*:*'' r \<longleftrightarrow> (\<exists>x y. r = x @ CHR '':'' # y)"
  by (simp add: glob_plain_def glob_star_Cons) auto

lemma glob_all_users: "glob (user_pattern ''*'') k \<longleftrightarrow> (\<exists>u i. k = redis_key u i)"
  by (auto simp: glob_box_star glob_colon redis_key_def email_key_def)

text \<open>
  C27. The user name is pasted into the \<open>SCAN\<close> pattern unescaped: for every store
  and time, \<open>getEmails('*')\<close> reads the hash of every live message key of every user,
  where \<open>getEmails\<close> of a name without pattern characters reads only that user's keys
  (\<open>redis_scan_user\<close>).
\<close>

theorem redis_glob_injection:
  "\<exists>ks. redis_getEmails s now ''*'' = Some (redis_collect now (rdb s) ks) \<and>
     set ks = {k \<in> set (r_keys now (rdb s)). \<exists>u i. k = redis_key u i}"
  by (rule exI [of _ "filter (glob (user_pattern ''*'')) (r_keys now (rdb s))"])
    (simp add: redis_getEmails_Some glob_all_users)

section \<open>Witnesses\<close>

theorem redis_clean_bound_witness:
  "length (filter (\<lambda>k. k \<noteq> emailKeys)
      (r_keys 5 (rdb (snd (redis_push ex_toISO (redis_new 1 0) (Some ''u'') (ex_mail ''a'' 0) ''ra'' 0))))) \<le>
   r_maxItems (snd (redis_push ex_toISO (redis_new 1 0) (Some ''u'') (ex_mail ''a'' 0) ''ra'' 0))"
proof -
  have "redis_clean (snd (redis_push ex_toISO (redis_new 1 0) (Some ''u'') (ex_mail ''a'' 0) ''ra'' 0))"
    by (rule redis_clean.push [OF redis_clean.init]) (simp_all add: redis_new_def)
  moreover have "0 < r_maxItems (snd (redis_push ex_toISO (redis_new 1 0) (Some ''u'') (ex_mail ''a'' 0) ''ra'' 0))"
    by code_simp
  ultimately show ?thesis by (rule redis_clean_bound)
qed

theorem redis_push_refines_witness:
  "rev (redis_list (rdb (snd (redis_push ex_toISO (redis_new 2 0) (Some ''u'') (ex_mail ''a'' 0) ''ra'' 0)))) =
   mb_bound (r_maxItems (redis_new 2 0))
     (rev (redis_list (rdb (redis_new 2 0))) @ [redis_key ''u'' (p_messageId (ex_mail ''a'' 0))])"
  by (rule redis_push_refines [OF redis_inv_new]) (simp_all add: redis_new_def)

theorem redis_push_getEmail_witness:
  "fst (redis_push ex_toISO (redis_new 2 0) (Some ''u'') (ex_mail ''a'' 0) ''ra'' 0) = Inr () \<and>
   redis_getEmail (snd (redis_push ex_toISO (redis_new 2 0) (Some ''u'') (ex_mail ''a'' 0) ''ra'' 0))
     ''u'' (p_messageId (ex_mail ''a'' 0)) 99 = Inr (Some ''ra'')"
  by (rule redis_push_getEmail [OF redis_inv_new]) (simp_all add: redis_new_def)

end
