(* ===== verification/Backends.thy ===== *)
theory Backends
  imports LocalStorage RedisStorage
begin

text \<open>
  The two stores side by side. The specification asks the volatile store
  (\<open>src/src/local-storage.js\<close>) and the Redis store (\<open>src/src/redis-storage.js\<close>) to
  behave identically. \<open>both_clean\<close> runs the same pushes on both from empty stores with
  the same capacity and no retention, each push complete and under a key new to the
  store; \<open>backends_sim\<close> relates the states: the local key list is the Redis eviction
  list read oldest first, with the prefix \<open>box:\<close>, and every local record has a hash
  holding its raw text.
\<close>

section \<open>Joint runs and the simulation relation\<close>

text \<open>The relation between a volatile state and a Redis state.\<close>

definition backends_sim :: "local_storage \<Rightarrow> redis_storage \<Rightarrow> bool" where
  "backends_sim ls rs \<longleftrightarrow>
     local_wf ls \<and> ttl ls = None \<and> redis_inv rs \<and> maxItems ls = r_maxItems rs \<and>
     map (\<lambda>k. ''box:'' @ k) (keys ls) = rev (redis_list (rdb rs)) \<and>
     (\<forall>k m. emails ls k = Some m \<longrightarrow>
        (\<exists>e h. map_of (rdb rs) (''box:'' @ k) = Some e \<and> rv e = RHash h \<and> map_of h ''raw'' = Some (raw m)))"

text \<open>The pairs of states reached by the same clean pushes on both stores.\<close>

inductive both_clean :: "local_storage \<Rightarrow> redis_storage \<Rightarrow> bool" where
  init: "both_clean (local_new max_items None) (redis_new max_items 0)"
| push: "both_clean ls rs \<Longrightarrow> p_to e = Some t \<Longrightarrow> redis_key v (p_messageId e) \<notin> fst ` set (rdb rs) \<Longrightarrow>
    both_clean (snd (local_push ls (Some v) e rawEmail now)) (snd (redis_push toISO rs (Some v) e rawEmail now))"

section \<open>Lemmas\<close>

lemma mb_bound_map: "mb_bound n (map f xs) = map f (mb_bound n xs)"
  by (metis js_slice_neg_map js_slice_neg_mb_bound)

lemma backends_sim_push:
  assumes sim: "backends_sim ls rs" and to: "p_to e = Some t"
    and fresh: "redis_key v (p_messageId e) \<notin> fst ` set (rdb rs)"
  shows "backends_sim (snd (local_push ls (Some v) e rawEmail now)) (snd (redis_push toISO rs (Some v) e rawEmail now))"
proof -
  let ?k = "email_key v (p_messageId e)"
  let ?b = "\<lambda>k. ''box:'' @ k"
  let ?ls' = "snd (local_push ls (Some v) e rawEmail now)"
  let ?rs' = "snd (redis_push toISO rs (Some v) e rawEmail now)"
  have wf: "local_wf ls" and nt: "ttl ls = None" and inv: "redis_inv rs" and mx: "maxItems ls = r_maxItems rs"
    and ks: "map ?b (keys ls) = rev (redis_list (rdb rs))"
    and raws: "\<forall>k m. emails ls k = Some m \<longrightarrow>
        (\<exists>e h. map_of (rdb rs) (?b k) = Some e \<and> rv e = RHash h \<and> map_of h ''raw'' = Some (raw m))"
    using sim by (simp_all add: backends_sim_def)
  have kb: "redis_key v (p_messageId e) = ?b ?k" by (simp add: redis_key_def)
  have R: "redis_inv ?rs' \<and> rev (redis_list (rdb ?rs')) = mb_bound (r_maxItems rs) (rev (redis_list (rdb rs)) @ [?b ?k]) \<and>
      map_of (rdb ?rs') (?b ?k) = Some \<lparr>rv = RHash (redis_fields toISO v e rawEmail t), rexp = None\<rparr> \<and>
      r_maxItems ?rs' = r_maxItems rs \<and>
      (\<forall>x\<in>set (redis_list (rdb ?rs')). x \<noteq> ?b ?k \<longrightarrow> map_of (rdb ?rs') x = map_of (rdb rs) x)"
    using redis_push_clean [OF inv to fresh, of toISO rawEmail now] unfolding kb by blast
  obtain m where m: "local_record (Some v) e rawEmail = Inr m" and L:
    "local_push ls (Some v) e rawEmail now =
      (Inr (), ls\<lparr>emails := (\<lambda>k'. if k' \<in> set (mb_bound (maxItems ls) (keys ls @ [?k]))
                                 then ((emails ls)(?k \<mapsto> m)) k' else None),
              keys := mb_bound (maxItems ls) (keys ls @ [?k])\<rparr>)"
    using local_push_noTtl [OF wf nt to, of "Some v" rawEmail now, unfolded user_str_simps] by blast
  have rm: "raw m = rawEmail" using local_record_Inr [OF m] by simp
  have wf': "local_wf ?ls'" by (rule local_wf_push [OF wf, of "Some v" e rawEmail now "fst (local_push ls (Some v) e rawEmail now)"]) simp
  have "map ?b (keys ?ls') = map ?b (mb_bound (maxItems ls) (keys ls @ [?k]))" using L by simp
  also have "\<dots> = mb_bound (maxItems ls) (map ?b (keys ls) @ [?b ?k])"
    using mb_bound_map [of "maxItems ls" ?b "keys ls @ [?k]"] by simp
  also have "\<dots> = rev (redis_list (rdb ?rs'))" using ks mx R by simp
  finally have keys': "map ?b (keys ?ls') = rev (redis_list (rdb ?rs'))" .
  have Rk: "map_of (rdb ?rs') (?b ?k) = Some \<lparr>rv = RHash (redis_fields toISO v e rawEmail t), rexp = None\<rparr>"
    using R by blast
  have Rf: "\<forall>x\<in>set (redis_list (rdb ?rs')). x \<noteq> ?b ?k \<longrightarrow> map_of (rdb ?rs') x = map_of (rdb rs) x"
    using R by blast
  have raws': "\<exists>e h. map_of (rdb ?rs') (?b k) = Some e \<and> rv e = RHash h \<and> map_of h ''raw'' = Some (raw m')"
    if em: "emails ?ls' k = Some m'" for k m'
  proof (cases "k = ?k")
    case True
    have "m' = m" using em L True by (simp split: if_splits)
    then show ?thesis using True Rk rm by (simp add: redis_fields_def)
  next
    case False
    have kin: "k \<in> set (keys ?ls')" and old: "emails ls k = Some m'"
      using em L False by (simp_all split: if_splits)
    have "?b k \<in> set (map ?b (keys ?ls'))" using kin by simp
    then have "?b k \<in> set (redis_list (rdb ?rs'))" by (simp only: keys' set_rev)
    then have "map_of (rdb ?rs') (?b k) = map_of (rdb rs) (?b k)" using Rf False by simp
    then show ?thesis using raws old by simp
  qed
  have "ttl ?ls' = None" using L nt by simp
  moreover have "maxItems ?ls' = r_maxItems ?rs'" using L R mx by simp
  moreover have "redis_inv ?rs'" using R by blast
  ultimately show ?thesis
    unfolding backends_sim_def using wf' keys' raws' by blast
qed

lemma backends_sim_getEmail:
  assumes "backends_sim ls rs"
  shows "redis_getEmail rs u i now = Inr (local_getEmail ls u i)"
proof -
  have wf: "local_wf ls" and inv: "redis_inv rs"
    and ks: "map (\<lambda>k. ''box:'' @ k) (keys ls) = rev (redis_list (rdb rs))"
    and raws: "\<forall>k m. emails ls k = Some m \<longrightarrow>
        (\<exists>e h. map_of (rdb rs) (''box:'' @ k) = Some e \<and> rv e = RHash h \<and> map_of h ''raw'' = Some (raw m))"
    using assms by (simp_all add: backends_sim_def)
  have ne: "redis_noexp (rdb rs)" using inv by (simp add: redis_inv_def Let_def)
  show ?thesis
  proof (cases "emails ls (email_key u i)")
    case None
    then have "email_key u i \<notin> set (keys ls)" using wf by (auto simp: local_wf_def)
    moreover have "set (redis_list (rdb rs)) = (\<lambda>k. ''box:'' @ k) ` set (keys ls)"
      using arg_cong [OF ks, of set] by simp
    ultimately have "redis_key u i \<notin> set (redis_list (rdb rs))"
      by (auto simp: redis_key_def)
    then have "redis_key u i \<notin> fst ` set (rdb rs)"
      using redis_inv_keys [OF inv] by auto
    then have "map_of (rdb rs) (redis_key u i) = None" by (simp add: map_of_eq_None_iff)
    then show ?thesis using None ne
      by (simp add: redis_getEmail_def r_hget_def r_purge_noexp local_getEmail_def)
  next
    case (Some m)
    with raws obtain e h where "map_of (rdb rs) (''box:'' @ email_key u i) = Some e"
      "rv e = RHash h" "map_of h ''raw'' = Some (raw m)" by blast
    then show ?thesis using Some ne
      by (simp add: redis_getEmail_def r_hget_def r_purge_noexp local_getEmail_def redis_key_def)
  qed
qed

text \<open>
  C11. Equivalence of the backends: after the same clean pushes, \<open>getEmail\<close> of the
  Redis store answers, for every user and identifier, exactly what \<open>getEmail\<close> of the
  volatile store answers.
\<close>

theorem backends_agree:
  assumes "both_clean ls rs"
  shows "redis_getEmail rs u i now = Inr (local_getEmail ls u i)"
proof -
  from assms have "backends_sim ls rs"
  proof (induction rule: both_clean.induct)
    case (init max_items)
    have "redis_inv (redis_new max_items 0)" by (rule redis_inv_new)
    then show ?case by (simp add: backends_sim_def local_new_def local_wf_def redis_list_def,
        simp add: redis_new_def)
  next
    case (push ls rs e t v rawEmail now toISO)
    then show ?case by (intro backends_sim_push) simp_all
  qed
  then show ?thesis by (rule backends_sim_getEmail)
qed

theorem backends_agree_witness:
  "redis_getEmail (snd (redis_push ex_toISO (redis_new 1 0) (Some ''u'') (ex_mail ''a'' 0) ''ra'' 0))
      ''u'' ''a'' 7 =
   Inr (local_getEmail (snd (local_push (local_new 1 None) (Some ''u'') (ex_mail ''a'' 0) ''ra'' 0)) ''u'' ''a'')"
  by (rule backends_agree, rule both_clean.push [OF both_clean.init]) (simp_all add: redis_new_def)

end
