(* ===== verification/Ldap.thy ===== *)
theory Ldap
  imports Prelude
begin

text \<open>
  The directory client, \<open>src/src/ldap-client.js\<close>. The directory server is an
  environment the model does not implement: it is given by the outcome of a bind, the
  events a search emits, and the outcome of an unbind. Over it, \<open>connect\<close>,
  \<open>getSearchEntry\<close> and \<open>auth\<close> are translated as the code runs them. A promise
  that no event settles is the value \<open>Pending\<close>: that is how the model shows an
  authentication that never answers.
\<close>

section \<open>Environment and server\<close>

text \<open>
  Environment variables are \<open>None\<close> when unset. \<open>a || b\<close> on such values: the
  empty string and \<open>undefined\<close> are falsy.
\<close>

definition js_or :: "string option \<Rightarrow> string option \<Rightarrow> string option" where
  "js_or a b = (case a of Some s \<Rightarrow> if s = [] then b else Some s | None \<Rightarrow> b)"

record ldap_env =
  LDAP_BIND_DN :: "string option"
  LDAP_BIND_PASSWORD :: "string option"
  LDAP_USER_ID_ATTR :: "string option"
  LDAP_SEARCH_BASE :: "string option"
  LDAP_SEARCH_SCOPE :: "string option"

text \<open>The events a search object emits, in order.\<close>

datatype search_event = SearchEntry string | SearchError | SearchEnd

text \<open>
  The server: whether a bind with a DN and password is accepted, what a search on a
  connection (bound or not) with a base, scope and filter emits (\<open>None\<close> when the
  search call itself fails), and whether an unbind succeeds.
\<close>

record ldap_server =
  srv_bind :: "string option \<Rightarrow> string option \<Rightarrow> bool"
  srv_search :: "bool \<Rightarrow> string option \<Rightarrow> string \<Rightarrow> string \<Rightarrow> search_event list option"
  srv_unbind :: bool

text \<open>The state a promise reaches.\<close>

datatype 'a settled = Resolved 'a | Rejected js_error | Pending

section \<open>LdapClient\<close>

text \<open>
  \<open>connect(userdn, password)\<close>: bind with the given DN and password, each falling back
  to the configured one when it is falsy.
\<close>

definition ldap_connect ::
  "ldap_server \<Rightarrow> ldap_env \<Rightarrow> string option \<Rightarrow> string option \<Rightarrow> bool" where
  "ldap_connect srv env userdn password =
     srv_bind srv (js_or userdn (LDAP_BIND_DN env)) (js_or password (LDAP_BIND_PASSWORD env))"

text \<open>
  \<open>getSearchEntry(search)\<close>: a promise with listeners for \<open>error\<close> and
  \<open>searchEntry\<close> only. The first entry resolves it, an error rejects it; \<open>end\<close> has
  no listener, so a search that ends without either leaves it pending for ever.
\<close>

fun ldap_getSearchEntry :: "search_event list \<Rightarrow> string settled" where
  "ldap_getSearchEntry [] = Pending"
| "ldap_getSearchEntry (SearchEntry dn # _) = Resolved dn"
| "ldap_getSearchEntry (SearchError # _) = Rejected (AuthError ''search error'')"
| "ldap_getSearchEntry (SearchEnd # es) = ldap_getSearchEntry es"

text \<open>The filter \<open>`${uidAttr}=${username}`\<close>, with the attribute defaulting to \<open>uid\<close>.\<close>

definition ldap_filter :: "ldap_env \<Rightarrow> string \<Rightarrow> string" where
  "ldap_filter env username =
     the (js_or (LDAP_USER_ID_ATTR env) (Some ''uid'')) @ ''='' @ username"

definition ldap_auth_failed :: js_error where
  "ldap_auth_failed = AuthError ''Authentication failed''"

text \<open>
  \<open>auth(username, password)\<close> on the long-lived client (\<open>bound\<close> records whether
  its own bind succeeded): search, take the first entry, bind a fresh client as that
  entry's DN with the password, unbind it. Every failure is rethrown as the same
  error; the result is the entry found.
\<close>

definition ldap_auth ::
  "ldap_server \<Rightarrow> ldap_env \<Rightarrow> bool \<Rightarrow> string \<Rightarrow> string \<Rightarrow> string settled" where
  "ldap_auth srv env bound username password =
     (case srv_search srv bound (LDAP_SEARCH_BASE env)
             (the (js_or (LDAP_SEARCH_SCOPE env) (Some ''sub''))) (ldap_filter env username) of
        None \<Rightarrow> Rejected ldap_auth_failed
      | Some evs \<Rightarrow>
          (case ldap_getSearchEntry evs of
             Pending \<Rightarrow> Pending
           | Rejected _ \<Rightarrow> Rejected ldap_auth_failed
           | Resolved dn \<Rightarrow>
               (if ldap_connect srv env (Some dn) (Some password) \<and> srv_unbind srv
                then Resolved dn else Rejected ldap_auth_failed)))"

text \<open>
  A directory used by the examples: an administrator entry and one user, an
  administrator DN and password configured, every search answered whatever the binding.
\<close>

abbreviation ex_ldap_env :: ldap_env where
  "ex_ldap_env \<equiv> \<lparr>LDAP_BIND_DN = Some ''cn=admin'', LDAP_BIND_PASSWORD = Some ''adminpw'',
     LDAP_USER_ID_ATTR = None, LDAP_SEARCH_BASE = Some ''dc=ex'', LDAP_SEARCH_SCOPE = None\<rparr>"

abbreviation ex_dir :: ldap_server where
  "ex_dir \<equiv> \<lparr>srv_bind = (\<lambda>dn pw. (dn = Some ''cn=admin'' \<and> pw = Some ''adminpw'') \<or>
                                  (dn = Some ''uid=bob,dc=ex'' \<and> pw = Some ''bobpw'')),
     srv_search = (\<lambda>_ _ _ f. if f = ''uid=admin'' then Some [SearchEntry ''cn=admin'', SearchEnd]
                            else if f = ''uid=bob'' then Some [SearchEntry ''uid=bob,dc=ex'', SearchEnd]
                            else Some [SearchEnd]),
     srv_unbind = True\<rparr>"

section \<open>Lemmas\<close>

lemma js_or_Some [simp, js_simps]: "s \<noteq> [] \<Longrightarrow> js_or (Some s) b = Some s"
  by (simp add: js_or_def)

lemma js_or_empty [simp, js_simps]: "js_or (Some []) b = b" "js_or None b = b"
  by (simp_all add: js_or_def)

lemma ldap_getSearchEntry_Pending:
  "ldap_getSearchEntry evs = Pending \<longleftrightarrow> set evs \<subseteq> {SearchEnd}"
  by (induction evs rule: ldap_getSearchEntry.induct) auto

lemma ldap_auth_first_entry:
  assumes "srv_search srv b (LDAP_SEARCH_BASE env) (the (js_or (LDAP_SEARCH_SCOPE env) (Some ''sub'')))
      (ldap_filter env u) = Some (SearchEnd # SearchEntry dn # rest)"
  shows "ldap_auth srv env b u p =
    (if ldap_connect srv env (Some dn) (Some p) \<and> srv_unbind srv then Resolved dn else Rejected ldap_auth_failed)"
  using assms by (simp add: ldap_auth_def)

lemma ldap_auth_Resolved:
  assumes "ldap_auth srv env b u p = Resolved dn"
  shows "\<exists>evs. srv_search srv b (LDAP_SEARCH_BASE env) (the (js_or (LDAP_SEARCH_SCOPE env) (Some ''sub'')))
      (ldap_filter env u) = Some evs \<and> ldap_getSearchEntry evs = Resolved dn \<and>
    ldap_connect srv env (Some dn) (Some p)"
  using assms by (auto simp: ldap_auth_def split: option.splits settled.splits if_splits)

lemma ldap_auth_Resolved_bind:
  "ldap_auth srv env b u p = Resolved dn \<Longrightarrow> ldap_connect srv env (Some dn) (Some p)"
  using ldap_auth_Resolved by blast

text \<open>
  C22. A search that emits no entry and no error leaves \<open>auth\<close> pending for ever: the
  promise of \<open>getSearchEntry\<close> has no \<open>end\<close> listener, so neither success nor
  failure is ever reported for an unknown user.
\<close>

theorem ldap_auth_no_entry:
  assumes "srv_search srv b (LDAP_SEARCH_BASE env) (the (js_or (LDAP_SEARCH_SCOPE env) (Some ''sub'')))
      (ldap_filter env u) = Some evs" and "set evs \<subseteq> {SearchEnd}"
  shows "ldap_auth srv env b u p = Pending"
  using assms ldap_getSearchEntry_Pending [of evs] by (simp add: ldap_auth_def)

text \<open>
  C24. An empty password is replaced by the configured administrator password
  (\<open>password || LDAP_BIND_PASSWORD\<close>): a user whose entry accepts that password
  authenticates with an empty one.
\<close>

theorem ldap_auth_empty_password:
  assumes "srv_search srv b (LDAP_SEARCH_BASE env) (the (js_or (LDAP_SEARCH_SCOPE env) (Some ''sub'')))
      (ldap_filter env u) = Some (SearchEntry dn # rest)"
    and "dn \<noteq> []" and "srv_bind srv (Some dn) (LDAP_BIND_PASSWORD env)" and "srv_unbind srv"
  shows "ldap_auth srv env b u [] = Resolved dn"
  using assms by (simp add: ldap_auth_def ldap_connect_def)

theorem ldap_auth_no_entry_witness:
  "ldap_auth ex_dir ex_ldap_env True ''carol'' ''pw'' = Pending"
  by (rule ldap_auth_no_entry [where evs = "[SearchEnd]"]) (simp_all add: ldap_filter_def)

theorem ldap_auth_empty_password_witness:
  "ldap_auth ex_dir ex_ldap_env True ''admin'' [] = Resolved ''cn=admin''"
  by (rule ldap_auth_empty_password [where rest = "[SearchEnd]"]) (simp_all add: ldap_filter_def)

end
