(* ===== verification/Smtp.thy ===== *)
theory Smtp
  imports Mailbox Ldap
begin

text \<open>
  The SMTP front end, \<open>src/src/smtp-server.js\<close>: the authentication callback
  \<open>onAuth\<close> for its three modes and the data callback \<open>onData\<close>. The SMTP and MIME
  libraries are collaborators: a session hands \<open>onAuth\<close> the submitted credentials and
  \<open>onData\<close> the events of the message stream, and the MIME parser is a function from
  the raw text to a parsed message or a rejection. A callback is modelled by the list of
  its invocations, so a handler that answers twice, or never, shows as such. The store
  is any \<open>push\<close> of the store interface. The read \<open>getEmail\<close>, which parses the
  stored raw text, is \<open>smtp_getEmail\<close> over any store read.
\<close>

section \<open>Configuration and state\<close>

record smtp_env =
  SMTP_AUTH_MODE :: "string option"
  SMTP_AUTH_USERS :: "string option"
  ldap_cfg :: ldap_env

text \<open>\<open>process.env.SMTP_AUTH_MODE || 'none'\<close>.\<close>

definition smtp_auth_mode :: "smtp_env \<Rightarrow> string" where
  "smtp_auth_mode env = the (js_or (SMTP_AUTH_MODE env) (Some ''none''))"

text \<open>
  The instance field \<open>ldapClient\<close>: \<open>None\<close> while it is \<open>null\<close>, \<open>Some ok\<close> once a
  client has been created, \<open>ok\<close> telling whether its \<open>connect()\<close> succeeded.
\<close>

record smtp_state =
  ldapClient :: "bool option"

text \<open>What \<open>cb\<close> of \<open>onAuth\<close> is called with: a user, or an error.\<close>

datatype auth_reply = AuthOk string | AuthErr js_error

definition invalid_config :: js_error where
  "invalid_config = AuthError ''Invalid authentication configuration''"

section \<open>onAuth\<close>

text \<open>
  \<open>basic\<close>: the comma-separated \<open>SMTP_AUTH_USERS\<close>, each entry trimmed, searched for
  the literal \<open>`${username}:${password}`\<close>.
\<close>

definition basic_users :: "smtp_env \<Rightarrow> string list" where
  "basic_users env = map js_trim (js_split CHR '','' (the (js_or (SMTP_AUTH_USERS env) (Some []))))"

definition smtp_auth_basic :: "smtp_env \<Rightarrow> string \<Rightarrow> string \<Rightarrow> auth_reply" where
  "smtp_auth_basic env username password =
     (case find (\<lambda>up. up = username @ CHR '':'' # password) (basic_users env) of
        None \<Rightarrow> AuthErr (AuthError ''Invalid credentials'')
      | Some _ \<Rightarrow> AuthOk username)"

text \<open>
  \<open>ldap\<close>: create and connect the long-lived client on first use (the field is set
  before \<open>connect\<close> is awaited, so a failed connect leaves it set), answering with the
  configuration error if the connect throws; then, whatever happened, authenticate on
  that client and answer again with the outcome, unless it never settles.
\<close>

definition smtp_auth_ldap ::
  "ldap_server \<Rightarrow> smtp_env \<Rightarrow> smtp_state \<Rightarrow> string \<Rightarrow> string \<Rightarrow> auth_reply list \<times> smtp_state" where
  "smtp_auth_ldap srv env st username password =
     (let (st1, r1) =
        (case ldapClient st of
           None \<Rightarrow> (let ok = ldap_connect srv (ldap_cfg env) None None
                   in (st\<lparr>ldapClient := Some ok\<rparr>, if ok then [] else [AuthErr invalid_config]))
         | Some _ \<Rightarrow> (st, []));
          r2 = (case ldap_auth srv (ldap_cfg env) (ldapClient st1 = Some True) username password of
                  Resolved _ \<Rightarrow> [AuthOk username]
                | Rejected e \<Rightarrow> [AuthErr e]
                | Pending \<Rightarrow> [])
      in (r1 @ r2, st1))"

definition smtp_onAuth ::
  "ldap_server \<Rightarrow> smtp_env \<Rightarrow> smtp_state \<Rightarrow> string \<Rightarrow> string \<Rightarrow> auth_reply list \<times> smtp_state" where
  "smtp_onAuth srv env st username password =
     (let mode = smtp_auth_mode env in
      if mode = ''none'' then ([AuthOk ''anonymous''], st)
      else if mode = ''basic'' then ([smtp_auth_basic env username password], st)
      else if mode = ''ldap'' then smtp_auth_ldap srv env st username password
      else ([AuthErr invalid_config], st))"

section \<open>onData\<close>

text \<open>The events of the message stream, and the fields of the parser's result the code reads.\<close>

datatype stream_event = Chunk string | StreamFail | StreamEnd

record parsed_mail =
  m_messageId :: "string option"
  m_subject :: string
  m_date :: time_ms
  m_to :: "string option"

text \<open>
  The listeners: \<open>data\<close> appends a chunk, \<open>error\<close> answers with the error, \<open>end\<close>
  decodes the concatenated chunks. \<open>None\<close>: the stream has not finished.
\<close>

fun smtp_read_stream :: "string list \<Rightarrow> stream_event list \<Rightarrow> (js_error + string) option" where
  "smtp_read_stream acc [] = None"
| "smtp_read_stream acc (Chunk c # es) = smtp_read_stream (acc @ [c]) es"
| "smtp_read_stream acc (StreamFail # es) = Some (Inl StreamError)"
| "smtp_read_stream acc (StreamEnd # es) = Some (Inr (concat acc))"

datatype data_reply = DataOk | DataErr js_error

text \<open>
  The message object handed to \<open>push\<close>: the parser's result with its identifier
  rewritten by \<open>email.messageId.replace(/[<>]/g, '')\<close>.
\<close>

definition onData_email :: "parsed_mail \<Rightarrow> string \<Rightarrow> parsed_email" where
  "onData_email pm mid =
     \<lparr>p_messageId = strip_angles mid, p_subject = m_subject pm, p_date = m_date pm, p_to = m_to pm\<rparr>"

text \<open>
  \<open>onData\<close>: after \<open>end\<close>, parse, strip the angle brackets from the message
  identifier, push, and answer. The parse promise has no rejection handler, and the
  \<open>.then\<close> callback neither catches the \<open>TypeError\<close> of a missing identifier nor a
  failed \<open>push\<close>: in those cases \<open>cb\<close> is never called (\<open>None\<close>).
\<close>

definition smtp_onData ::
  "'s store_push \<Rightarrow> (string \<Rightarrow> js_error + parsed_mail) \<Rightarrow> 's \<Rightarrow> js_user \<Rightarrow>
   stream_event list \<Rightarrow> time_ms \<Rightarrow> data_reply option \<times> 's" where
  "smtp_onData push parse st u evs now =
     (case smtp_read_stream [] evs of
        None \<Rightarrow> (None, st)
      | Some (Inl err) \<Rightarrow> (Some (DataErr err), st)
      | Some (Inr rawEmail) \<Rightarrow>
          (case parse rawEmail of
             Inl _ \<Rightarrow> (None, st)
           | Inr pm \<Rightarrow>
               (case m_messageId pm of
                  None \<Rightarrow> (None, st)
                | Some mid \<Rightarrow>
                    (let (res, st') = push st u (onData_email pm mid) rawEmail now
                     in (case res of Inl _ \<Rightarrow> None | Inr _ \<Rightarrow> Some DataOk, st')))))"

section \<open>Reads\<close>

text \<open>
  \<open>listUsers()\<close> and \<open>listUserEmails(user)\<close> return the store's answers unchanged.
  \<open>getEmail(user, messageId)\<close> reads the raw text from the store; a falsy text
  (absent, or the empty string) gives \<open>null\<close>, otherwise the text is parsed again and
  returned with the parse, as \<open>parsedEmail.raw\<close>. A rejection of the store or of the
  parser propagates. \<open>get\<close> is the store's \<open>getEmail\<close>.
\<close>

definition smtp_getEmail ::
  "('s \<Rightarrow> string \<Rightarrow> string \<Rightarrow> js_error + string option) \<Rightarrow> (string \<Rightarrow> js_error + parsed_mail) \<Rightarrow>
   's \<Rightarrow> string \<Rightarrow> string \<Rightarrow> js_error + (parsed_mail \<times> string) option" where
  "smtp_getEmail get parse st u i =
     (case get st u i of
        Inl err \<Rightarrow> Inl err
      | Inr None \<Rightarrow> Inr None
      | Inr (Some rawEmail) \<Rightarrow>
          (if rawEmail = [] then Inr None
           else (case parse rawEmail of
                   Inl err \<Rightarrow> Inl err
                 | Inr pm \<Rightarrow> Inr (Some (pm, rawEmail)))))"

section \<open>Example configurations\<close>

abbreviation ex_basic_env :: "string \<Rightarrow> smtp_env" where
  "ex_basic_env us \<equiv> \<lparr>SMTP_AUTH_MODE = Some ''basic'', SMTP_AUTH_USERS = Some us, ldap_cfg = ex_ldap_env\<rparr>"

abbreviation ex_ldap_smtp_env :: "ldap_env \<Rightarrow> smtp_env" where
  "ex_ldap_smtp_env cfg \<equiv> \<lparr>SMTP_AUTH_MODE = Some ''ldap'', SMTP_AUTH_USERS = None, ldap_cfg = cfg\<rparr>"

text \<open>The example directory with a wrong administrator password configured.\<close>

abbreviation ex_bad_admin :: ldap_env where
  "ex_bad_admin \<equiv> ex_ldap_env\<lparr>LDAP_BIND_PASSWORD := Some ''wrong''\<rparr>"

text \<open>
  A store and a parser for the examples: the store keeps a list of
  \<open>(user, id, raw)\<close> and never fails; the parser rejects the empty text and reads a
  fixed header otherwise.
\<close>

abbreviation ex_list_push :: "(string \<times> string \<times> string) list store_push" where
  "ex_list_push \<equiv> (\<lambda>st u e r now. (Inr (), (user_str u, p_messageId e, r) # st))"

abbreviation ex_parse :: "string \<Rightarrow> js_error + parsed_mail" where
  "ex_parse \<equiv> (\<lambda>txt. if txt = [] then Inl (TypeError ''empty'')
     else Inr \<lparr>m_messageId = Some ''<id@x>'', m_subject = ''s'', m_date = 0, m_to = Some ''t''\<rparr>)"

section \<open>Lemmas: onAuth\<close>

lemma member_find_eq: "w \<in> set xs \<longleftrightarrow> find (\<lambda>x. x = w) xs \<noteq> None"
  by (simp add: find_None_iff)

lemma smtp_auth_ldap_ok:
  assumes "AuthOk v \<in> set (fst (smtp_auth_ldap srv env st u p))"
  shows "v = u \<and> (\<exists>dn. ldap_auth srv (ldap_cfg env)
     (ldapClient (snd (smtp_auth_ldap srv env st u p)) = Some True) u p = Resolved dn)"
  using assms
  by (auto simp: smtp_auth_ldap_def invalid_config_def Let_def split: option.splits settled.splits if_splits)

lemma smtp_auth_basic_member:
  "smtp_auth_basic env u p =
     (if u @ CHR '':'' # p \<in> set (basic_users env) then AuthOk u else AuthErr (AuthError ''Invalid credentials''))"
  by (simp add: smtp_auth_basic_def member_find_eq split: option.splits)

text \<open>
  In \<open>none\<close> mode every login succeeds as \<open>anonymous\<close>, whatever the
  credentials, and the state is unchanged.
\<close>

lemma smtp_onAuth_none:
  "smtp_auth_mode env = ''none'' \<Longrightarrow> smtp_onAuth srv env st u p = ([AuthOk ''anonymous''], st)"
  by (simp add: smtp_onAuth_def)

text \<open>
  C20. In \<open>basic\<close> mode the callback is called exactly once: with the submitted user
  name when \<open>user:password\<close> is one of the trimmed entries of \<open>SMTP_AUTH_USERS\<close>,
  with \<open>Invalid credentials\<close> otherwise.
\<close>

theorem smtp_onAuth_basic:
  "smtp_auth_mode env = ''basic'' \<Longrightarrow> smtp_onAuth srv env st u p =
     (if u @ CHR '':'' # p \<in> set (basic_users env) then [AuthOk u]
      else [AuthErr (AuthError ''Invalid credentials'')], st)"
  by (simp add: smtp_onAuth_def smtp_auth_basic_member)

text \<open>
  C21. In \<open>ldap\<close> mode a login succeeds only as the submitted user name, and only if
  the directory accepted a bind with the submitted password for some entry.
\<close>

theorem smtp_onAuth_ldap_ok:
  assumes "smtp_auth_mode env = ''ldap''" and "AuthOk v \<in> set (fst (smtp_onAuth srv env st u p))"
  shows "v = u \<and> (\<exists>dn. ldap_connect srv (ldap_cfg env) (Some dn) (Some p))"
proof -
  have "AuthOk v \<in> set (fst (smtp_auth_ldap srv env st u p))"
    using assms by (simp add: smtp_onAuth_def)
  then show ?thesis using smtp_auth_ldap_ok ldap_auth_Resolved_bind by blast
qed

text \<open>
  After a failed administrator bind the unbound client stays cached: later
  \<open>ldap\<close> logins never report the configuration error again and leave the state as it is.
\<close>

lemma smtp_onAuth_ldap_cached:
  assumes "smtp_auth_mode env = ''ldap''" and "ldapClient st = Some False"
  shows "AuthErr invalid_config \<notin> set (fst (smtp_onAuth srv env st u p)) \<and>
    snd (smtp_onAuth srv env st u p) = st"
  using assms
  by (auto simp: smtp_onAuth_def smtp_auth_ldap_def invalid_config_def ldap_auth_def ldap_auth_failed_def
      split: option.splits settled.splits if_splits)

text \<open>
  C23. When the administrator bind fails on the first \<open>ldap\<close> login, the callback is
  called with the configuration error and then called again with the outcome of the
  authentication attempted on the unbound client; the unbound client is kept, and no
  later login reports the configuration error again.
\<close>

theorem smtp_ldap_connect_fail_twice:
  assumes "smtp_auth_mode env = ''ldap''" and "ldapClient st = None"
    and "\<not> ldap_connect srv (ldap_cfg env) None None"
  shows "smtp_onAuth srv env st u p =
      (AuthErr invalid_config # (case ldap_auth srv (ldap_cfg env) False u p of
          Resolved _ \<Rightarrow> [AuthOk u] | Rejected e \<Rightarrow> [AuthErr e] | Pending \<Rightarrow> []),
       st\<lparr>ldapClient := Some False\<rparr>) \<and>
    (\<forall>u' p'. AuthErr invalid_config \<notin> set (fst (smtp_onAuth srv env (st\<lparr>ldapClient := Some False\<rparr>) u' p')))"
  using assms smtp_onAuth_ldap_cached [OF assms(1), of "st\<lparr>ldapClient := Some False\<rparr>"]
  by (simp add: smtp_onAuth_def smtp_auth_ldap_def Let_def)

text \<open>
  A login for a user the example directory does not know gets no answer at all: the
  callback is never called.
\<close>

lemma smtp_ldap_unknown_user_silent:
  "fst (smtp_onAuth ex_dir (ex_ldap_smtp_env ex_ldap_env) \<lparr>ldapClient = Some True\<rparr> ''carol'' ''pw'') = []"
  by code_simp

text \<open>
  C25. \<open>basic\<close> mode compares the joined string \<open>user:password\<close>, so a colon in
  the user name shifts the split: any entry \<open>a:b:c\<close> of \<open>SMTP_AUTH_USERS\<close> admits
  both the user \<open>a\<close> with password \<open>b:c\<close> and the user \<open>a:b\<close> with password \<open>c\<close>.
\<close>

theorem smtp_basic_colon_ambiguity:
  assumes "smtp_auth_mode env = ''basic''" and "a @ CHR '':'' # b @ CHR '':'' # c \<in> set (basic_users env)"
  shows "smtp_onAuth srv env st a (b @ CHR '':'' # c) = ([AuthOk a], st) \<and>
    smtp_onAuth srv env st (a @ CHR '':'' # b) c = ([AuthOk (a @ CHR '':'' # b)], st)"
  using assms by (simp add: smtp_onAuth_def smtp_auth_basic_member)

text \<open>
  A mode other than \<open>none\<close>, \<open>basic\<close> and \<open>ldap\<close> refuses every login with
  the configuration error.
\<close>

lemma smtp_onAuth_unknown_mode:
  assumes "smtp_auth_mode env \<notin> {''none'', ''basic'', ''ldap''}"
  shows "smtp_onAuth srv env st u p = ([AuthErr invalid_config], st)"
  using assms by (simp add: smtp_onAuth_def)

section \<open>Lemmas: onData\<close>

lemma smtp_onData_Inr:
  assumes "smtp_read_stream [] evs = Some (Inr txt)" "parse txt = Inr pm" "m_messageId pm = Some mid"
  shows "smtp_onData push parse st u evs now =
    (case fst (push st u (onData_email pm mid) txt now) of Inl _ \<Rightarrow> None | Inr _ \<Rightarrow> Some DataOk,
     snd (push st u (onData_email pm mid) txt now))"
  using assms by (cases "fst (push st u (onData_email pm mid) txt now)") (simp_all add: smtp_onData_def case_prod_beta)

lemma smtp_onData_quiet:
  "smtp_read_stream [] evs = None \<Longrightarrow> smtp_onData push parse st u evs now = (None, st)"
  "smtp_read_stream [] evs = Some (Inr txt) \<Longrightarrow> parse txt = Inl e \<Longrightarrow> smtp_onData push parse st u evs now = (None, st)"
  "smtp_read_stream [] evs = Some (Inr txt) \<Longrightarrow> parse txt = Inr pm \<Longrightarrow> m_messageId pm = None \<Longrightarrow>
   smtp_onData push parse st u evs now = (None, st)"
  by (simp_all add: smtp_onData_def)

lemma smtp_onData_cases:
  obtains (stream_open) "smtp_read_stream [] evs = None"
  | (stream_fail) err where "smtp_read_stream [] evs = Some (Inl err)"
  | (parse_fail) text0 e where "smtp_read_stream [] evs = Some (Inr text0)" "parse text0 = Inl e"
  | (no_id) text0 pm where "smtp_read_stream [] evs = Some (Inr text0)" "parse text0 = Inr pm" "m_messageId pm = None"
  | (pushed) text0 pm mid where "smtp_read_stream [] evs = Some (Inr text0)" "parse text0 = Inr pm" "m_messageId pm = Some mid"
  by (cases "smtp_read_stream [] evs" rule: option.exhaust, simp)
     (metis option.exhaust sum.exhaust)

text \<open>A property of the store that every push keeps survives \<open>onData\<close>.\<close>

lemma smtp_onData_preserves:
  assumes "P st" and "\<And>u e r now. P (snd (push st u e r now))"
  shows "P (snd (smtp_onData push parse st u evs now))"
proof (cases rule: smtp_onData_cases [where evs = evs and parse = parse])
  case (pushed t pm mid)
  then show ?thesis using assms(2) smtp_onData_Inr [of evs t parse pm mid push st u now] by simp
qed (use assms(1) in \<open>simp_all add: smtp_onData_quiet smtp_onData_def\<close>)

text \<open>
  The stream reader answers once the stream ends, with the concatenation of every
  chunk received before the end, in order.
\<close>

lemma smtp_read_stream_chunks:
  "smtp_read_stream acc (map Chunk cs @ StreamEnd # rest) = Some (Inr (concat (acc @ cs)))"
  by (induction cs arbitrary: acc) auto

text \<open>
  C17. When \<open>onData\<close> answers success, the whole message text was read, parsed, and
  pushed once to the store, as the parsed message with its identifier stripped of angle
  brackets, and the store returned is the one that push left.
\<close>

theorem smtp_onData_ok:
  assumes "fst (smtp_onData push parse st u evs now) = Some DataOk"
  shows "\<exists>txt pm mid. smtp_read_stream [] evs = Some (Inr txt) \<and> parse txt = Inr pm \<and>
    m_messageId pm = Some mid \<and>
    push st u (onData_email pm mid) txt now = (Inr (), snd (smtp_onData push parse st u evs now))"
proof (cases rule: smtp_onData_cases [where evs = evs and parse = parse])
  case (pushed t pm mid)
  then show ?thesis using assms smtp_onData_Inr [of evs t parse pm mid push st u now]
    by (auto simp: prod_eq_iff split: sum.splits)
qed (use assms in \<open>simp_all add: smtp_onData_quiet smtp_onData_def\<close>)

text \<open>
  C18. \<open>onData\<close> changes the store at most by one push of the complete message text:
  the store is either untouched or the result of that single push.
\<close>

theorem smtp_onData_effect:
  "snd (smtp_onData push parse st u evs now) = st \<or>
   (\<exists>txt pm mid. smtp_read_stream [] evs = Some (Inr txt) \<and> parse txt = Inr pm \<and>
      m_messageId pm = Some mid \<and>
      snd (smtp_onData push parse st u evs now) = snd (push st u (onData_email pm mid) txt now))"
proof (cases rule: smtp_onData_cases [where evs = evs and parse = parse])
  case (pushed t pm mid)
  then show ?thesis using smtp_onData_Inr [of evs t parse pm mid push st u now] by auto
qed (simp_all add: smtp_onData_quiet smtp_onData_def)

text \<open>
  C19. \<open>onData\<close> never calls its callback exactly when the stream is still open, the
  parser rejects the text, the parsed message has no identifier, or the push fails: on
  the last three the SMTP transaction is left without an answer.
\<close>

theorem smtp_onData_no_reply:
  "fst (smtp_onData push parse st u evs now) = None \<longleftrightarrow>
   smtp_read_stream [] evs = None \<or>
   (\<exists>txt. smtp_read_stream [] evs = Some (Inr txt) \<and>
      (isl (parse txt) \<or>
       (\<exists>pm. parse txt = Inr pm \<and> (m_messageId pm = None \<or>
          (\<exists>mid. m_messageId pm = Some mid \<and> isl (fst (push st u (onData_email pm mid) txt now)))))))"
proof (cases rule: smtp_onData_cases [where evs = evs and parse = parse])
  case (pushed t pm mid)
  then show ?thesis using smtp_onData_Inr [of evs t parse pm mid push st u now] by (auto split: sum.split)
qed (simp_all add: smtp_onData_quiet smtp_onData_def)

text \<open>
  A stream error is reported to the callback as such, before any parse, and the
  store is not touched.
\<close>

lemma smtp_onData_stream_fail:
  "smtp_read_stream [] evs = Some (Inl err) \<Longrightarrow>
   smtp_onData push parse st u evs now = (Some (DataErr err), st)"
  by (simp add: smtp_onData_def)

section \<open>Witnesses\<close>

theorem smtp_ldap_connect_fail_twice_witness:
  "smtp_onAuth ex_dir (ex_ldap_smtp_env ex_bad_admin) \<lparr>ldapClient = None\<rparr> ''bob'' ''bobpw'' =
      (AuthErr invalid_config # (case ldap_auth ex_dir (ldap_cfg (ex_ldap_smtp_env ex_bad_admin)) False ''bob'' ''bobpw'' of
          Resolved _ \<Rightarrow> [AuthOk ''bob''] | Rejected e \<Rightarrow> [AuthErr e] | Pending \<Rightarrow> []),
       \<lparr>ldapClient = Some False\<rparr>) \<and>
    (\<forall>u' p'. AuthErr invalid_config \<notin> set (fst (smtp_onAuth ex_dir (ex_ldap_smtp_env ex_bad_admin)
        \<lparr>ldapClient = Some False\<rparr> u' p')))"
proof -
  have m: "smtp_auth_mode (ex_ldap_smtp_env ex_bad_admin) = ''ldap''" by code_simp
  have c: "\<not> ldap_connect ex_dir (ldap_cfg (ex_ldap_smtp_env ex_bad_admin)) None None" by code_simp
  show ?thesis using smtp_ldap_connect_fail_twice [OF m _ c, of "\<lparr>ldapClient = None\<rparr>"] by simp
qed

theorem smtp_basic_colon_ambiguity_witness:
  "smtp_onAuth ex_dir (ex_basic_env ''alice:se:cret'') \<lparr>ldapClient = None\<rparr> ''alice'' ''se:cret'' =
     ([AuthOk ''alice''], \<lparr>ldapClient = None\<rparr>) \<and>
   smtp_onAuth ex_dir (ex_basic_env ''alice:se:cret'') \<lparr>ldapClient = None\<rparr> ''alice:se'' ''cret'' =
     ([AuthOk ''alice:se''], \<lparr>ldapClient = None\<rparr>)"
proof -
  have m: "smtp_auth_mode (ex_basic_env ''alice:se:cret'') = ''basic''" by code_simp
  have b: "''alice'' @ CHR '':'' # ''se'' @ CHR '':'' # ''cret'' \<in> set (basic_users (ex_basic_env ''alice:se:cret''))"
    by code_simp
  show ?thesis using smtp_basic_colon_ambiguity [OF m b, of ex_dir "\<lparr>ldapClient = None\<rparr>"] by simp
qed

theorem smtp_onAuth_basic_witness:
  "smtp_onAuth ex_dir (ex_basic_env '' alice:secret, bob:pw'') \<lparr>ldapClient = None\<rparr> ''alice'' ''secret'' =
     ([AuthOk ''alice''], \<lparr>ldapClient = None\<rparr>)"
proof -
  have m: "smtp_auth_mode (ex_basic_env '' alice:secret, bob:pw'') = ''basic''"
    by (simp add: smtp_auth_mode_def)
  have b: "''alice'' @ CHR '':'' # ''secret'' \<in> set (basic_users (ex_basic_env '' alice:secret, bob:pw''))"
    by code_simp
  show ?thesis using smtp_onAuth_basic [OF m] b by simp
qed

theorem smtp_onAuth_ldap_ok_witness:
  "''bob'' = ''bob'' \<and> (\<exists>dn. ldap_connect ex_dir ex_ldap_env (Some dn) (Some ''bobpw''))"
proof -
  have m: "smtp_auth_mode (ex_ldap_smtp_env ex_ldap_env) = ''ldap''"
    by (simp add: smtp_auth_mode_def)
  have "AuthOk ''bob'' \<in> set (fst (smtp_onAuth ex_dir (ex_ldap_smtp_env ex_ldap_env)
      \<lparr>ldapClient = Some True\<rparr> ''bob'' ''bobpw''))"
    by code_simp
  from smtp_onAuth_ldap_ok [OF m this] show ?thesis by simp
qed

theorem smtp_onData_ok_witness:
  "\<exists>txt pm mid. smtp_read_stream [] [Chunk ''hel'', Chunk ''lo'', StreamEnd] = Some (Inr txt) \<and>
    ex_parse txt = Inr pm \<and> m_messageId pm = Some mid \<and>
    ex_list_push [] (Some ''u'') (onData_email pm mid) txt 0 =
      (Inr (), snd (smtp_onData ex_list_push ex_parse [] (Some ''u'') [Chunk ''hel'', Chunk ''lo'', StreamEnd] 0))"
proof -
  have "fst (smtp_onData ex_list_push ex_parse [] (Some ''u'') [Chunk ''hel'', Chunk ''lo'', StreamEnd] 0) =
      Some DataOk"
    by code_simp
  then show ?thesis by (rule smtp_onData_ok)
qed

end
