(* ===== verification/Api.thy ===== *)
theory Api
  imports Smtp LocalStorage RedisStorage
begin

text \<open>
  The read API, \<open>src/src/api-server.js\<close> (class \<open>API\<close>), over the reads of the SMTP
  front end. Express routing is reduced to the three routes the constructor registers,
  recognised from the decoded path segments; each handler awaits one call of the
  \<open>SMTP\<close> object and either sends its result or passes the rejection to \<open>next\<close>.
  The store reads are a record of functions, so the handlers are stated once for both
  backends.
\<close>

section \<open>Routes and replies\<close>

text \<open>\<open>res.send(value)\<close> or \<open>next(e)\<close>.\<close>

datatype 'a http_reply = Send 'a | Next js_error

text \<open>\<open>try { res.send(await call) } catch (e) { next(e) }\<close>.\<close>

definition api_respond :: "js_error + 'a \<Rightarrow> 'a http_reply" where
  "api_respond r = (case r of Inl e \<Rightarrow> Next e | Inr v \<Rightarrow> Send v)"

text \<open>
  The routes \<open>/api/users\<close>, \<open>/api/users/:user/emails\<close> and
  \<open>/api/users/:user/emails/:messageId\<close>, matched as Express does by default: the
  literal segments without regard to case, one trailing slash ignored, and a parameter
  standing for one non-empty segment. The input is the path's segments between the
  slashes (a trailing slash gives a last empty segment), the parameters as Express hands
  them on; any other path is left to the static files.
\<close>

datatype api_route = RUsers | REmails string | REmail string string

definition seg_lit :: "string \<Rightarrow> string \<Rightarrow> bool" where
  "seg_lit lit s \<longleftrightarrow> map js_lower s = lit"

definition api_route_of :: "string list \<Rightarrow> api_route option" where
  "api_route_of segs =
     (let ss = (if segs \<noteq> [] \<and> last segs = [] then butlast segs else segs) in
      case ss of
        [a, b] \<Rightarrow> if seg_lit ''api'' a \<and> seg_lit ''users'' b then Some RUsers else None
      | [a, b, u, c] \<Rightarrow>
          if seg_lit ''api'' a \<and> seg_lit ''users'' b \<and> u \<noteq> [] \<and> seg_lit ''emails'' c
          then Some (REmails u) else None
      | [a, b, u, c, i] \<Rightarrow>
          if seg_lit ''api'' a \<and> seg_lit ''users'' b \<and> u \<noteq> [] \<and> seg_lit ''emails'' c \<and> i \<noteq> []
          then Some (REmail u i) else None
      | _ \<Rightarrow> None)"

text \<open>The bodies the three handlers send.\<close>

datatype 'm api_body = BUsers "string list" | BEmails "'m list" | BEmail "(parsed_mail \<times> string) option"

text \<open>The reads a store offers: \<open>listUsers\<close>, \<open>getEmails\<close>, \<open>getEmail\<close>.\<close>

record ('s, 'm) store_reads =
  sr_listUsers :: "'s \<Rightarrow> js_error + string list"
  sr_getEmails :: "'s \<Rightarrow> string \<Rightarrow> js_error + 'm list"
  sr_getEmail :: "'s \<Rightarrow> string \<Rightarrow> string \<Rightarrow> js_error + string option"

section \<open>Handlers\<close>

text \<open>
  \<open>listUsers\<close>, \<open>listEmails\<close> and \<open>getEmail\<close> of \<open>API\<close>, through
  \<open>SMTP.listUsers\<close>, \<open>SMTP.listUserEmails\<close> and \<open>SMTP.getEmail\<close>.
\<close>

definition api_handle ::
  "('s, 'm) store_reads \<Rightarrow> (string \<Rightarrow> js_error + parsed_mail) \<Rightarrow> 's \<Rightarrow> api_route \<Rightarrow> 'm api_body http_reply" where
  "api_handle sr parse st r =
     (case r of
        RUsers \<Rightarrow> api_respond (map_sum id BUsers (sr_listUsers sr st))
      | REmails u \<Rightarrow> api_respond (map_sum id BEmails (sr_getEmails sr st u))
      | REmail u i \<Rightarrow> api_respond (map_sum id BEmail (smtp_getEmail (sr_getEmail sr) parse st u i)))"

text \<open>The reads of the volatile store, which never reject but in \<open>getEmails\<close>.\<close>

definition local_reads :: "(local_storage, email_meta) store_reads" where
  "local_reads = \<lparr>sr_listUsers = (\<lambda>s. Inr (local_listUsers s)), sr_getEmails = local_getEmails,
     sr_getEmail = (\<lambda>s u i. Inr (local_getEmail s u i))\<rparr>"

text \<open>
  The reads of the Redis store at a time. The \<open>scanIterator\<close> loops of
  \<open>getEmails\<close> and \<open>listUsers\<close> always end (\<open>redis_scan_total\<close>), so their value
  is taken.
\<close>

definition redis_reads :: "time_ms \<Rightarrow> (redis_storage, redis_meta) store_reads" where
  "redis_reads now = \<lparr>sr_listUsers = (\<lambda>s. Inr (the (redis_listUsers s now))),
     sr_getEmails = (\<lambda>s u. the (redis_getEmails s now u)),
     sr_getEmail = (\<lambda>s u i. redis_getEmail s u i now)\<rparr>"

section \<open>Lemmas\<close>

lemma seg_lit_routes [simp]: "seg_lit ''api'' ''api''" "seg_lit ''users'' ''users''" "seg_lit ''emails'' ''emails''"
  by code_simp+

lemma api_route_of_getEmail:
  "u \<noteq> [] \<Longrightarrow> i \<noteq> [] \<Longrightarrow> api_route_of [''api'', ''users'', u, ''emails'', i] = Some (REmail u i)"
  by (simp add: api_route_of_def)

text \<open>Express's matching: \<open>GET /API/Users/\<close> is the user list.\<close>

lemma api_route_of_case_slash: "api_route_of [''API'', ''Users'', []] = Some RUsers"
  by code_simp

lemma api_respond_simps [simp]: "api_respond (Inl e) = Next e" "api_respond (Inr v) = Send v"
  by (simp_all add: api_respond_def)

lemma smtp_getEmail_Some:
  "get st u i = Inr (Some r) \<Longrightarrow> r \<noteq> [] \<Longrightarrow> parse r = Inr pm \<Longrightarrow>
   smtp_getEmail get parse st u i = Inr (Some (pm, r))"
  by (simp add: smtp_getEmail_def)

lemma api_getEmail_local:
  "api_handle local_reads parse s (REmail u i) =
     (case local_getEmail s u i of
        None \<Rightarrow> Send (BEmail None)
      | Some r \<Rightarrow> if r = [] then Send (BEmail None)
                 else (case parse r of Inl e \<Rightarrow> Next e | Inr pm \<Rightarrow> Send (BEmail (Some (pm, r)))))"
  by (simp add: api_handle_def local_reads_def smtp_getEmail_def split: option.split sum.split)

end
