(* ===== verification/Server.thy ===== *)
theory Server
  imports Api
begin

text \<open>
  Start-up: how the process environment configures the parts. The option bag the
  \<open>SMTP\<close> constructor builds from the \<open>SMTP_OPT_\<close> variables and hands to the
  \<open>smtp-server\<close> library (\<open>src/src/smtp-server.js\<close>, constructor), the choice of
  store, the listen addresses of both servers, the LDAP URL
  (\<open>src/src/ldap-client.js\<close>), and the credentials of the test client
  \<open>src/send-mail.js\<close>. The environment is an association list in the order
  \<open>Object.keys(process.env)\<close> lists it.
\<close>

section \<open>The environment\<close>

type_synonym proc_env = "(string \<times> string) list"

text \<open>The variables the authentication and LDAP code read, as \<open>process.env.X\<close>.\<close>

definition smtp_env_of :: "proc_env \<Rightarrow> smtp_env" where
  "smtp_env_of pe = \<lparr>SMTP_AUTH_MODE = map_of pe ''SMTP_AUTH_MODE'',
     SMTP_AUTH_USERS = map_of pe ''SMTP_AUTH_USERS'',
     ldap_cfg = \<lparr>LDAP_BIND_DN = map_of pe ''LDAP_BIND_DN'',
       LDAP_BIND_PASSWORD = map_of pe ''LDAP_BIND_PASSWORD'',
       LDAP_USER_ID_ATTR = map_of pe ''LDAP_USER_ID_ATTR'',
       LDAP_SEARCH_BASE = map_of pe ''LDAP_SEARCH_BASE'',
       LDAP_SEARCH_SCOPE = map_of pe ''LDAP_SEARCH_SCOPE''\<rparr>\<rparr>"

section \<open>The option bag of smtp-server\<close>

text \<open>A value of the options object: a string, a boolean, or one of the two callbacks.\<close>

datatype opt_val = OStr string | OBool bool | OHandler string

text \<open>\<open>if (value === 'true') value = true; if (value === 'false') value = false;\<close>\<close>

definition smtp_opt_value :: "string \<Rightarrow> opt_val" where
  "smtp_opt_value v = (if v = ''true'' then OBool True else if v = ''false'' then OBool False else OStr v)"

text \<open>
  \<open>lodash.camelcase\<close> on the names the code feeds it, words of capitals separated by
  underscores: the words lower-cased (\<open>js_lower\<close>), all but the first capitalised
  (\<open>js_upper\<close>), and joined.
\<close>

definition camel_case :: "string \<Rightarrow> string" where
  "camel_case s =
     (case filter (\<lambda>w. w \<noteq> []) (js_split CHR ''_'' s) of
        [] \<Rightarrow> []
      | w # ws \<Rightarrow> map js_lower w @ concat (map (\<lambda>v. js_upper (hd v) # map js_lower (tl v)) ws))"

text \<open>
  The \<open>reduce\<close> over the \<open>SMTP_OPT_\<close> keys: \<open>acc[camelCase(name)] = value\<close>, a
  property assigned twice keeping its first position. The name conversion is a
  parameter.
\<close>

definition smtp_options :: "(string \<Rightarrow> string) \<Rightarrow> proc_env \<Rightarrow> (string \<times> opt_val) list" where
  "smtp_options cc pe =
     foldl (\<lambda>acc k. AList.update (cc (drop (length ''SMTP_OPT_'') k)) (smtp_opt_value (the (map_of pe k))) acc)
       [] (filter (\<lambda>k. starts_with k ''SMTP_OPT_'') (map fst pe))"

text \<open>
  The object literal \<open>{ authOptional: ..., ...options, onAuth() {...}, onData() {...} }\<close>
  passed to \<open>new SMTPServer\<close>: later properties overwrite earlier ones in place.
  The list keeps insertion order, while JavaScript enumerates integer-like property
  names first; \<open>smtp-server\<close> reads its options by name, so only lookups matter.
\<close>

definition smtp_server_options :: "(string \<Rightarrow> string) \<Rightarrow> proc_env \<Rightarrow> (string \<times> opt_val) list" where
  "smtp_server_options cc pe =
     AList.update ''onData'' (OHandler ''onData'')
       (AList.update ''onAuth'' (OHandler ''onAuth'')
         (foldl (\<lambda>acc kv. AList.update (fst kv) (snd kv) acc)
            [(''authOptional'', OBool (smtp_auth_mode (smtp_env_of pe) = ''none''))] (smtp_options cc pe)))"

section \<open>The store\<close>

text \<open>
  \<open>Number(s)\<close> and the relational coercions of \<open>maxItems\<close>, on the strings of decimal
  digits; other strings are outside the model.
\<close>

definition is_digits :: "string \<Rightarrow> bool" where
  "is_digits s \<longleftrightarrow> s \<noteq> [] \<and> list_all (\<lambda>c. 48 \<le> (of_char c :: nat) \<and> (of_char c :: nat) \<le> 57) s"

definition dec_val :: "string \<Rightarrow> nat" where
  "dec_val s = foldl (\<lambda>n c. 10 * n + (of_char c - 48)) 0 s"

text \<open>\<open>process.env.X || 0\<close> read as a number.\<close>

definition env_num :: "string option \<Rightarrow> nat option" where
  "env_num v = (case v of None \<Rightarrow> Some 0 | Some s \<Rightarrow> if s = [] then Some 0 else if is_digits s then Some (dec_val s) else None)"

text \<open>
  \<open>if (process.env.REDIS === 'true')\<close> a \<open>RedisStorage\<close>, else a \<open>LocalStorage\<close>,
  each built by its constructor: \<open>maxItems = MAX_ITEMS || 0\<close> in both, the local
  \<open>ttl = TTL || 0\<close> kept as the string, so that any non-empty value is set, and the
  Redis \<open>ttl = Number(TTL || 0)\<close>.
\<close>

definition smtp_storage :: "proc_env \<Rightarrow> (local_storage + redis_storage) option" where
  "smtp_storage pe =
     (case (env_num (map_of pe ''MAX_ITEMS''), env_num (map_of pe ''TTL'')) of
        (Some mx, Some t) \<Rightarrow>
          Some (if map_of pe ''REDIS'' = Some ''true'' then Inr (redis_new mx (int t))
                else Inl (local_new mx (if js_or (map_of pe ''TTL'') None = None then None else Some t)))
      | _ \<Rightarrow> None)"

section \<open>Addresses and the test client\<close>

text \<open>\<open>SMTP.startServer\<close>: \<open>(SMTP_PORT || 5025, SMTP_IP || '0.0.0.0')\<close>.\<close>

definition smtp_listen :: "proc_env \<Rightarrow> string \<times> string" where
  "smtp_listen pe = (the (js_or (map_of pe ''SMTP_PORT'') (Some ''5025'')),
     the (js_or (map_of pe ''SMTP_IP'') (Some ''0.0.0.0'')))"

text \<open>\<open>API.startServer\<close>: \<open>(HTTP_PORT || 8080, HTTP_IP || '0.0.0.0')\<close>.\<close>

definition api_listen :: "proc_env \<Rightarrow> string \<times> string" where
  "api_listen pe = (the (js_or (map_of pe ''HTTP_PORT'') (Some ''8080'')),
     the (js_or (map_of pe ''HTTP_IP'') (Some ''0.0.0.0'')))"

text \<open>The \<open>LdapClient\<close> constructor: \<open>`ldap://${LDAP_HOST}:${LDAP_PORT}`\<close>.\<close>

definition ldap_url :: "proc_env \<Rightarrow> string" where
  "ldap_url pe = ''ldap://'' @ user_str (map_of pe ''LDAP_HOST'') @ '':'' @ user_str (map_of pe ''LDAP_PORT'')"

text \<open>\<open>n.toString()\<close> for a natural number.\<close>

fun nat_str :: "nat \<Rightarrow> string" where
  "nat_str n = (if n < 10 then [char_of (48 + n)] else nat_str (n div 10) @ [char_of (48 + n mod 10)])"

text \<open>\<open>s.padStart(len, c)\<close> for a one-character pad.\<close>

definition js_padStart :: "nat \<Rightarrow> char \<Rightarrow> string \<Rightarrow> string" where
  "js_padStart len c s = replicate (len - length s) c @ s"

text \<open>
  The credentials of \<open>send-mail.js\<close> for the user number
  \<open>Math.floor(Math.random() * 2 + 1)\<close>:
  \<open>user${n.toString().padStart(2, '0')}\<close> and \<open>pass...\<close>.
\<close>

definition send_mail_auth :: "nat \<Rightarrow> string \<times> string" where
  "send_mail_auth n = (''user'' @ js_padStart 2 CHR ''0'' (nat_str n), ''pass'' @ js_padStart 2 CHR ''0'' (nat_str n))"

text \<open>An environment in \<open>basic\<close> mode that also sets \<open>SMTP_OPT_AUTH_OPTIONAL\<close>.\<close>

definition ex_opt_env :: proc_env where
  "ex_opt_env = [(''SMTP_AUTH_MODE'', ''basic''), (''SMTP_AUTH_USERS'', ''alice:secret''),
     (''SMTP_OPT_AUTH_OPTIONAL'', ''true'')]"

text \<open>The allow-list the test client's two users log in with.\<close>

definition ex_users_env :: proc_env where
  "ex_users_env = [(''SMTP_AUTH_MODE'', ''basic''), (''SMTP_AUTH_USERS'', ''user01:pass01, user02:pass02'')]"

section \<open>Lemmas\<close>

declare nat_str.simps [simp del]

lemma foldl_update_keys:
  "fst ` set (foldl (\<lambda>acc kv. AList.update (fst kv) (snd kv) acc) acc xs) = fst ` set acc \<union> fst ` set xs"
  by (induction xs arbitrary: acc) (auto simp: dom_update)

lemma foldl_update_distinct:
  "distinct (map fst acc) \<Longrightarrow> distinct (map fst (foldl (\<lambda>acc kv. AList.update (fst kv) (snd kv) acc) acc xs))"
  by (induction xs arbitrary: acc) (auto simp: distinct_update)

lemma foldl_update_other:
  "k \<notin> fst ` set xs \<Longrightarrow> map_of (foldl (\<lambda>acc kv. AList.update (fst kv) (snd kv) acc) acc xs) k = map_of acc k"
  by (induction xs arbitrary: acc) (auto simp: update_conv')

lemma update_hd_key: "al \<noteq> [] \<Longrightarrow> AList.update k v al \<noteq> [] \<and> fst (hd (AList.update k v al)) = fst (hd al)"
  by (cases al) auto

lemma foldl_update_hd_key:
  "acc \<noteq> [] \<Longrightarrow> foldl (\<lambda>acc kv. AList.update (fst kv) (snd kv) acc) acc xs \<noteq> [] \<and>
     fst (hd (foldl (\<lambda>acc kv. AList.update (fst kv) (snd kv) acc) acc xs)) = fst (hd acc)"
  by (induction xs arbitrary: acc) (simp_all add: update_hd_key)

lemma foldl_update_fun_keys:
  "fst ` set (foldl (\<lambda>acc k. AList.update (f k) (g k) acc) acc ks) = fst ` set acc \<union> f ` set ks"
  by (induction ks arbitrary: acc) (auto simp: dom_update)

lemma smtp_options_keys:
  "fst ` set (smtp_options cc pe) =
     (\<lambda>k. cc (drop (length ''SMTP_OPT_'') k)) ` {k \<in> set (map fst pe). starts_with k ''SMTP_OPT_''}"
  unfolding smtp_options_def foldl_update_fun_keys by auto

text \<open>
  The options object handed to \<open>smtp-server\<close> has distinct property names, and
  \<open>onAuth\<close> and \<open>onData\<close> are always the two callbacks of the class, whatever
  \<open>SMTP_OPT_\<close> variables are set.
\<close>

lemma smtp_server_options_shape:
  "distinct (map fst (smtp_server_options cc pe)) \<and>
   map_of (smtp_server_options cc pe) ''onAuth'' = Some (OHandler ''onAuth'') \<and>
   map_of (smtp_server_options cc pe) ''onData'' = Some (OHandler ''onData'')"
proof -
  let ?f = "foldl (\<lambda>acc kv. AList.update (fst kv) (snd kv) acc)
     [(''authOptional'', OBool (smtp_auth_mode (smtp_env_of pe) = ''none''))] (smtp_options cc pe)"
  have d: "distinct (map fst ?f)" by (rule foldl_update_distinct) simp
  show ?thesis
    using d by (simp add: smtp_server_options_def distinct_update update_conv')
qed

lemma foldl_update_fun_last:
  "\<forall>k\<in>set ks. f k = K \<longrightarrow> g k = c \<Longrightarrow>
   map_of (foldl (\<lambda>acc k. AList.update (f k) (g k) acc) acc ks) K = (if K \<in> f ` set ks then Some c else map_of acc K)"
  by (induction ks arbitrary: acc) (auto simp: update_conv')

lemma foldl_update_distinct_lookup:
  "distinct (map fst xs) \<Longrightarrow> map_of (foldl (\<lambda>acc kv. AList.update (fst kv) (snd kv) acc) acc xs) k =
     (case map_of xs k of None \<Rightarrow> map_of acc k | Some v \<Rightarrow> Some v)"
proof (induction xs arbitrary: acc)
  case (Cons a xs)
  obtain k' b where a: "a = (k', b)" by (cases a)
  have n: "map_of xs k' = None" "distinct (map fst xs)" using Cons.prems a by (auto simp: map_of_eq_None_iff)
  show ?case
  proof (cases "k = k'")
    case True
    then show ?thesis using Cons.IH [OF n(2)] a n(1) by simp
  next
    case False
    then show ?thesis using Cons.IH [OF n(2)] a by (simp add: update_conv' split: option.split)
  qed
qed simp

lemma foldl_update_fun_distinct:
  "distinct (map fst acc) \<Longrightarrow> distinct (map fst (foldl (\<lambda>acc k. AList.update (f k) (g k) acc) acc ks))"
  by (induction ks arbitrary: acc) (simp_all add: distinct_update)

lemma smtp_options_distinct: "distinct (map fst (smtp_options cc pe))"
  unfolding smtp_options_def by (rule foldl_update_fun_distinct) simp

text \<open>
  When every \<open>SMTP_OPT_\<close> variable whose name camel-cases to \<open>authOptional\<close> has the
  value \<open>v\<close>, and one exists, the spread options set \<open>authOptional\<close> to \<open>v\<close>.
\<close>

lemma smtp_opt_authOptional:
  assumes "\<forall>k\<in>set (map fst pe). starts_with k ''SMTP_OPT_'' \<and> cc (drop (length ''SMTP_OPT_'') k) = ''authOptional'' \<longrightarrow>
      map_of pe k = Some v"
    and "k0 \<in> set (map fst pe)" "starts_with k0 ''SMTP_OPT_''" "cc (drop (length ''SMTP_OPT_'') k0) = ''authOptional''"
  shows "map_of (smtp_server_options cc pe) ''authOptional'' = Some (smtp_opt_value v)"
proof -
  have "''authOptional'' \<in> (\<lambda>k. cc (drop (length ''SMTP_OPT_'') k)) ` set (filter (\<lambda>k. starts_with k ''SMTP_OPT_'') (map fst pe))"
    using assms(2-4) by (intro rev_image_eqI [of k0]) simp_all
  then have "map_of (smtp_options cc pe) ''authOptional'' = Some (smtp_opt_value v)"
    unfolding smtp_options_def using assms(1) by (subst foldl_update_fun_last) auto
  then show ?thesis
    by (simp add: smtp_server_options_def update_conv' foldl_update_distinct_lookup smtp_options_distinct)
qed

text \<open>
  Unless an \<open>SMTP_OPT_\<close> variable is named so that its camel-cased name is
  \<open>authOptional\<close>, authentication is optional exactly in \<open>none\<close> mode.
\<close>

lemma smtp_options_authOptional_default:
  assumes "\<forall>k\<in>set (map fst pe). starts_with k ''SMTP_OPT_'' \<longrightarrow> cc (drop (length ''SMTP_OPT_'') k) \<noteq> ''authOptional''"
  shows "map_of (smtp_server_options cc pe) ''authOptional'' = Some (OBool (smtp_auth_mode (smtp_env_of pe) = ''none''))"
proof -
  have "''authOptional'' \<notin> fst ` set (smtp_options cc pe)"
    using assms unfolding smtp_options_keys by (auto simp only: image_iff mem_Collect_eq eq_commute [of "''authOptional''"])
  then show ?thesis by (simp add: smtp_server_options_def update_conv' foldl_update_other)
qed

lemma ex_opt_env_basic: "smtp_auth_mode (smtp_env_of ex_opt_env) = ''basic''"
  by code_simp

text \<open>
  An \<open>SMTP_OPT_AUTH_OPTIONAL=true\<close> variable overrides the authentication mode:
  in \<open>basic\<close> mode the options object still says \<open>authOptional: true\<close>, so the
  library lets a client send mail without authenticating, under the user
  \<open>undefined\<close>.
\<close>

lemma smtp_opt_overrides_authOptional:
  "smtp_auth_mode (smtp_env_of ex_opt_env) \<noteq> ''none'' \<and>
   map_of (smtp_server_options camel_case ex_opt_env) ''authOptional'' = Some (OBool True)"
  by code_simp

lemma dec_val_snoc: "dec_val (xs @ [c]) = 10 * dec_val xs + (of_char c - 48)"
  by (simp add: dec_val_def)

lemma nat_str_digits: "is_digits (nat_str n) \<and> dec_val (nat_str n) = n"
proof (induction n rule: nat_str.induct)
  case (1 n)
  show ?case
  proof (cases "n < 10")
    case True
    then show ?thesis by (subst (1 2) nat_str.simps) (simp add: is_digits_def dec_val_def of_char_of)
  next
    case False
    then have ih: "is_digits (nat_str (n div 10)) \<and> dec_val (nat_str (n div 10)) = n div 10" using 1 by simp
    have "of_char (char_of (48 + n mod 10) :: char) = 48 + n mod 10" by (simp add: of_char_of)
    then show ?thesis using False ih by (subst (1 2) nat_str.simps) (simp add: is_digits_def dec_val_snoc)
  qed
qed

lemma nat_str_ne [simp]: "nat_str n \<noteq> []"
  by (subst nat_str.simps) simp

text \<open>
  C26. Configuring the store: with \<open>MAX_ITEMS\<close> and \<open>TTL\<close> set to the decimal
  text of two numbers, the constructor builds the store \<open>REDIS\<close> selects with exactly
  that capacity and retention.
\<close>

theorem smtp_storage_roundtrip:
  "smtp_storage [(''REDIS'', r), (''MAX_ITEMS'', nat_str n), (''TTL'', nat_str t)] =
     Some (if r = ''true'' then Inr (redis_new n (int t)) else Inl (local_new n (Some t)))"
  using nat_str_digits [of n] nat_str_digits [of t]
  by (simp add: smtp_storage_def env_num_def js_or_def)
text \<open>
  A \<open>TTL\<close> of \<open>0\<close> is set in the volatile store (the string is truthy) but not in
  Redis (\<open>Number('0')\<close> is falsy).
\<close>

lemma smtp_storage_ttl_zero:
  "smtp_storage [(''TTL'', ''0'')] = Some (Inl (local_new 0 (Some 0)))"
  "smtp_storage [(''REDIS'', ''true''), (''TTL'', ''0'')] = Some (Inr (redis_new 0 0))"
  by (simp_all add: smtp_storage_def env_num_def is_digits_def dec_val_def js_or_def)

text \<open>Both credentials the test client may pick log in under the two-user allow-list.\<close>

lemma send_mail_auth_basic:
  "smtp_auth_basic (smtp_env_of ex_users_env) (fst (send_mail_auth 1)) (snd (send_mail_auth 1)) = AuthOk ''user01''"
  "smtp_auth_basic (smtp_env_of ex_users_env) (fst (send_mail_auth 2)) (snd (send_mail_auth 2)) = AuthOk ''user02''"
  by code_simp+

end
