(* ===== verification/System.thy ===== *)
theory System
  imports Server
begin

text \<open>
  The process, \<open>src/index.js\<close>: it builds an \<open>SMTP\<close> object (option bag, store),
  starts it (\<open>storage.connect()\<close> for Redis, then \<open>listen\<close>), builds the \<open>API\<close> over
  it and starts that, and exits on \<open>SIGTERM\<close> or \<open>SIGINT\<close>. After start-up the process
  reacts to events one at a time: an SMTP session (the library calls \<open>onAuth\<close> when
  the client authenticates and \<open>onData\<close> for its message), an HTTP request, an
  \<open>error\<close> event of one of the clients (each has a listener that only logs), or a signal.
  The process state is the store the \<open>SMTP\<close> object holds, its \<open>ldapClient\<close> field,
  and whether the process is alive and the SMTP server listening.
\<close>

section \<open>The store behind this.storage\<close>

type_synonym storage = "local_storage + redis_storage"

text \<open>\<open>this.storage.push(...)\<close> on whichever store the constructor chose.\<close>

definition storage_push :: "(time_ms \<Rightarrow> string) \<Rightarrow> storage store_push" where
  "storage_push toISO st u e r now =
     (case st of
        Inl ls \<Rightarrow> (case local_push ls u e r now of (res, ls') \<Rightarrow> (res, Inl ls'))
      | Inr rs \<Rightarrow> (case redis_push toISO rs u e r now of (res, rs') \<Rightarrow> (res, Inr rs')))"

text \<open>\<open>this.storage.listUsers()\<close>, \<open>getEmails(user)\<close>, \<open>getEmail(user, id)\<close> likewise.\<close>

definition storage_reads :: "time_ms \<Rightarrow> (storage, email_meta + redis_meta) store_reads" where
  "storage_reads now =
     \<lparr>sr_listUsers = (\<lambda>st. case st of Inl ls \<Rightarrow> sr_listUsers local_reads ls
                                   | Inr rs \<Rightarrow> sr_listUsers (redis_reads now) rs),
      sr_getEmails = (\<lambda>st u. case st of Inl ls \<Rightarrow> map_sum id (map Inl) (sr_getEmails local_reads ls u)
                                     | Inr rs \<Rightarrow> map_sum id (map Inr) (sr_getEmails (redis_reads now) rs u)),
      sr_getEmail = (\<lambda>st u i. case st of Inl ls \<Rightarrow> sr_getEmail local_reads ls u i
                                      | Inr rs \<Rightarrow> sr_getEmail (redis_reads now) rs u i)\<rparr>"

section \<open>The process\<close>

text \<open>
  What the process is run with: the environment, the directory, the MIME parser and
  \<open>Date.toISOString\<close>.
\<close>

record sys_cfg =
  cfg_env :: proc_env
  cfg_ldap :: ldap_server
  cfg_parse :: "string \<Rightarrow> js_error + parsed_mail"
  cfg_toISO :: "time_ms \<Rightarrow> string"

record sys_state =
  sys_store :: storage
  sys_smtp :: smtp_state
  sys_alive :: bool
  sys_listening :: bool

text \<open>
  A session as the SMTP library drives it: the credentials of its \<open>AUTH\<close> command if
  it sent one, the events of its message stream, and the instant.
\<close>

datatype session = Session "(string \<times> string) option" "stream_event list" time_ms

datatype sys_event = EvSession session | EvHttp "string list" time_ms | EvError | EvSignal

text \<open>
  What the outside sees: the connection refused, \<open>530\<close> (authentication required),
  \<open>535\<close> (authentication failed), an \<open>AUTH\<close> left without answer, the answer to the
  message, an HTTP reply, a static-file request, a log line, the exit.
\<close>

datatype sys_out = ORefused | OAuthRequired | OAuthFailed js_error | OAuthPending
  | OData "data_reply option" | OHttp "(email_meta + redis_meta) api_body http_reply"
  | OStatic | OLogged | OExit

text \<open>A JavaScript truth value of an option.\<close>

fun opt_truthy :: "opt_val \<Rightarrow> bool" where
  "opt_truthy (OBool b) = b"
| "opt_truthy (OStr s) = (s \<noteq> [])"
| "opt_truthy (OHandler _) = True"

definition sys_authOptional :: "sys_cfg \<Rightarrow> bool" where
  "sys_authOptional cfg =
     (case map_of (smtp_server_options camel_case (cfg_env cfg)) ''authOptional'' of
        None \<Rightarrow> False | Some v \<Rightarrow> opt_truthy v)"

text \<open>
  \<open>onData\<close> for the session's user, on the store. When the stream has ended and
  \<open>cb\<close> is never called, the promise chain of \<open>onData\<close> has rejected without a
  handler (a failed parse, a missing identifier, a failed \<open>push\<close>), and Node ends
  the process on an unhandled rejection, as it does for \<open>startServer\<close>.
\<close>

definition sys_data ::
  "sys_cfg \<Rightarrow> sys_state \<Rightarrow> js_user \<Rightarrow> stream_event list \<Rightarrow> time_ms \<Rightarrow> sys_out \<times> sys_state" where
  "sys_data cfg st u evs now =
     (case smtp_onData (storage_push (cfg_toISO cfg)) (cfg_parse cfg) (sys_store st) u evs now of
        (r, s') \<Rightarrow>
          if r = None \<and> smtp_read_stream [] evs \<noteq> None then (OExit, st\<lparr>sys_store := s', sys_alive := False\<rparr>)
          else (OData r, st\<lparr>sys_store := s'\<rparr>))"

text \<open>
  A session: without \<open>AUTH\<close> the library accepts the message only when
  \<open>authOptional\<close> is truthy, with \<open>session.user\<close> undefined; with \<open>AUTH\<close> it calls
  \<open>onAuth\<close> and acts on the first invocation of its callback, the message then
  belonging to the user that callback named.
\<close>

definition sys_session :: "sys_cfg \<Rightarrow> sys_state \<Rightarrow> session \<Rightarrow> sys_out \<times> sys_state" where
  "sys_session cfg st sess =
     (case sess of
        Session None evs now \<Rightarrow>
          if sys_authOptional cfg then sys_data cfg st None evs now else (OAuthRequired, st)
      | Session (Some (u, p)) evs now \<Rightarrow>
          (case smtp_onAuth (cfg_ldap cfg) (smtp_env_of (cfg_env cfg)) (sys_smtp st) u p of
             (rs, ls') \<Rightarrow>
               (case rs of
                  [] \<Rightarrow> (OAuthPending, st\<lparr>sys_smtp := ls'\<rparr>)
                | AuthErr e # _ \<Rightarrow> (OAuthFailed e, st\<lparr>sys_smtp := ls'\<rparr>)
                | AuthOk name # _ \<Rightarrow> sys_data cfg (st\<lparr>sys_smtp := ls'\<rparr>) (Some name) evs now)))"

text \<open>
  One event. An HTTP request outside the three routes goes to the static files; an
  \<open>error\<close> event is logged and changes nothing; \<open>handleCode\<close> logs and calls
  \<open>process.exit(0)\<close>.
\<close>

definition sys_step :: "sys_cfg \<Rightarrow> sys_state \<Rightarrow> sys_event \<Rightarrow> sys_out \<times> sys_state" where
  "sys_step cfg st ev =
     (case ev of
        EvSession sess \<Rightarrow> if sys_listening st then sys_session cfg st sess else (ORefused, st)
      | EvHttp segs now \<Rightarrow>
          (case api_route_of segs of
             None \<Rightarrow> (OStatic, st)
           | Some r \<Rightarrow> (OHttp (api_handle (storage_reads now) (cfg_parse cfg) (sys_store st) r), st))
      | EvError \<Rightarrow> (OLogged, st)
      | EvSignal \<Rightarrow> (OExit, st\<lparr>sys_alive := False\<rparr>))"

text \<open>The event loop: events are handled in order while the process is alive.\<close>

fun sys_run :: "sys_cfg \<Rightarrow> sys_state \<Rightarrow> sys_event list \<Rightarrow> sys_out list \<times> sys_state" where
  "sys_run cfg st [] = ([], st)"
| "sys_run cfg st (e # es) =
     (if sys_alive st then
        (case sys_step cfg st e of (o1, st') \<Rightarrow> (case sys_run cfg st' es of (os, st'') \<Rightarrow> (o1 # os, st'')))
      else ([], st))"

text \<open>
  Start-up, the first lines of \<open>index.js\<close>: the store the constructor builds (none when
  the environment is outside the model); \<open>smtp.startServer()\<close> listens once
  \<open>storage.connect()\<close> has resolved, and its promise is neither awaited nor caught, so a
  rejected connect ends the process (an unhandled rejection) and a connect that never
  settles leaves the SMTP server not listening while the API serves. \<open>conn\<close> is the
  outcome of the Redis connect.
\<close>

fun is_rejected :: "'a settled \<Rightarrow> bool" where
  "is_rejected (Rejected _) = True"
| "is_rejected _ = False"

text \<open>
  \<open>SMTP.startServer\<close>, as far as the process sees it: whether the process survives
  and whether the SMTP server listens, given the outcome of \<open>storage.connect()\<close>
  (only the Redis store has one).
\<close>

definition smtp_startServer :: "storage \<Rightarrow> unit settled \<Rightarrow> bool \<times> bool" where
  "smtp_startServer st conn =
     (case st of Inl _ \<Rightarrow> (True, True) | Inr _ \<Rightarrow> (\<not> is_rejected conn, conn = Resolved ()))"

definition sys_start :: "sys_cfg \<Rightarrow> unit settled \<Rightarrow> sys_state option" where
  "sys_start cfg conn =
     map_option (\<lambda>st. \<lparr>sys_store = st, sys_smtp = \<lparr>ldapClient = None\<rparr>,
          sys_alive = fst (smtp_startServer st conn), sys_listening = snd (smtp_startServer st conn)\<rparr>)
       (smtp_storage (cfg_env cfg))"

text \<open>The process state of the volatile store with capacity \<open>m\<close>, reachable by pushes.\<close>

definition sys_local_inv :: "nat \<Rightarrow> sys_state \<Rightarrow> bool" where
  "sys_local_inv m st \<longleftrightarrow> (\<exists>ls. sys_store st = Inl ls \<and> local_reachable ls \<and> maxItems ls = m)"

text \<open>The configuration of the examples: the example directory, parser and clock.\<close>

definition ex_cfg :: "proc_env \<Rightarrow> sys_cfg" where
  "ex_cfg pe = \<lparr>cfg_env = pe, cfg_ldap = ex_dir, cfg_parse = ex_parse, cfg_toISO = ex_toISO\<rparr>"

section \<open>Lemmas\<close>

lemma storage_push_Inl [simp]:
  "storage_push toISO (Inl ls) u e r now = (fst (local_push ls u e r now), Inl (snd (local_push ls u e r now)))"
  by (simp add: storage_push_def split: prod.split)

lemma sys_data_local_inv:
  assumes "sys_local_inv m st"
  shows "sys_local_inv m (snd (sys_data cfg st u evs now))"
proof -
  let ?P = "\<lambda>s. \<exists>ls. s = Inl ls \<and> local_reachable ls \<and> maxItems ls = m"
  have "?P (sys_store st)" using assms by (simp add: sys_local_inv_def)
  moreover have "?P (snd (storage_push (cfg_toISO cfg) (sys_store st) u' e r now'))" for u' e r now'
    using assms by (auto simp: sys_local_inv_def local_reachable_push)
  ultimately have "?P (snd (smtp_onData (storage_push (cfg_toISO cfg)) (cfg_parse cfg) (sys_store st) u evs now))"
    by (rule smtp_onData_preserves)
  then show ?thesis by (simp add: sys_data_def sys_local_inv_def case_prod_beta Let_def)
qed

lemma sys_local_inv_smtp [simp]: "sys_local_inv m (st\<lparr>sys_smtp := x\<rparr>) = sys_local_inv m st"
  by (simp add: sys_local_inv_def)

lemma sys_session_local_inv:
  assumes "sys_local_inv m st"
  shows "sys_local_inv m (snd (sys_session cfg st sess))"
  using assms sys_data_local_inv
  by (auto simp: sys_session_def split: session.split option.split prod.split list.split auth_reply.split)

lemma sys_step_local_inv:
  assumes "sys_local_inv m st"
  shows "sys_local_inv m (snd (sys_step cfg st ev))"
  using assms sys_session_local_inv
  by (auto simp: sys_step_def sys_local_inv_def split: sys_event.split option.split)

lemma sys_run_local_inv:
  "sys_local_inv m st \<Longrightarrow> sys_local_inv m (snd (sys_run cfg st evs))"
proof (induction evs arbitrary: st)
  case (Cons e es)
  then show ?case using Cons.IH sys_step_local_inv [OF Cons.prems, of cfg e]
    by (simp add: case_prod_beta)
qed simp

text \<open>
  C14. Capacity of the running process: started with the volatile store and a positive
  \<open>MAX_ITEMS\<close>, after any sequence of SMTP sessions, HTTP requests, error events and
  signals, the store is still the volatile one, consistent, and holds at most
  \<open>MAX_ITEMS\<close> records.
\<close>

theorem sys_local_bound:
  assumes "sys_start cfg conn = Some st0" and "sys_store st0 = Inl ls0" and "0 < maxItems ls0"
  shows "\<exists>ls. sys_store (snd (sys_run cfg st0 evs)) = Inl ls \<and> local_wf ls \<and>
    card (dom (emails ls)) \<le> maxItems ls0"
proof -
  obtain st where "smtp_storage (cfg_env cfg) = Some st" and st0: "st0 = \<lparr>sys_store = st, sys_smtp = \<lparr>ldapClient = None\<rparr>,
          sys_alive = fst (smtp_startServer st conn), sys_listening = snd (smtp_startServer st conn)\<rparr>"
    using assms(1) by (auto simp: sys_start_def)
  then have "smtp_storage (cfg_env cfg) = Some (Inl ls0)" using assms(2) by simp
  then obtain n t where "ls0 = local_new n t"
    by (auto simp: smtp_storage_def split: option.splits if_splits)
  then have "sys_local_inv (maxItems ls0) st0"
    using assms(2) by (auto simp: sys_local_inv_def intro: local_reachable.init)
  then have "sys_local_inv (maxItems ls0) (snd (sys_run cfg st0 evs))" by (rule sys_run_local_inv)
  then obtain ls where ls: "sys_store (snd (sys_run cfg st0 evs)) = Inl ls" "local_reachable ls" "maxItems ls = maxItems ls0"
    by (auto simp: sys_local_inv_def)
  then have "local_wf ls" "local_bounded ls" using local_reachable_inv by blast+
  then show ?thesis using ls assms(3) local_wf_card
    by (metis local_bounded_def order_trans)
qed



text \<open>
  The \<open>authOptional\<close> override at run time: in \<open>basic\<close> mode with
  \<open>SMTP_OPT_AUTH_OPTIONAL=true\<close>, a session that never authenticates has its message
  accepted, and \<open>/api/users\<close> then lists the user \<open>undefined\<close>.
\<close>

lemma sys_opt_override_scenario:
  "sys_start (ex_cfg ex_opt_env) (Resolved ()) \<noteq> None \<and>
   fst (sys_run (ex_cfg ex_opt_env) (the (sys_start (ex_cfg ex_opt_env) (Resolved ())))
     [EvSession (Session None [Chunk ''hi'', StreamEnd] 0), EvHttp [''api'', ''users''] 0]) =
   [OData (Some DataOk), OHttp (Send (BUsers [''undefined'']))]"
  by code_simp



text \<open>
  The test client's session: \<open>send-mail.js\<close> logs in as \<open>user02\<close> under the two-user
  allow-list and its message is listed under that user; a session without \<open>AUTH\<close> is
  refused with \<open>530\<close>; after the signal no event is handled.
\<close>

lemma sys_send_mail_scenario:
  "fst (sys_run (ex_cfg ex_users_env) (the (sys_start (ex_cfg ex_users_env) (Resolved ())))
     [EvSession (Session (Some (send_mail_auth 2)) [Chunk ''hi'', StreamEnd] 0),
      EvSession (Session None [Chunk ''x'', StreamEnd] 0), EvHttp [''api'', ''users''] 0, EvSignal, EvError]) =
   [OData (Some DataOk), OAuthRequired, OHttp (Send (BUsers [''user02''])), OExit]"
  by code_simp

section \<open>Witnesses\<close>


theorem sys_local_bound_witness:
  "\<exists>ls. sys_store (snd (sys_run (ex_cfg [(''MAX_ITEMS'', ''1'')])
      \<lparr>sys_store = Inl (local_new 1 None), sys_smtp = \<lparr>ldapClient = None\<rparr>, sys_alive = True, sys_listening = True\<rparr>
      [EvSession (Session None [Chunk ''a'', StreamEnd] 0), EvSession (Session None [Chunk ''b'', StreamEnd] 0)])) = Inl ls \<and>
    local_wf ls \<and> card (dom (emails ls)) \<le> maxItems (local_new 1 None)"
proof (rule sys_local_bound)
  show "sys_start (ex_cfg [(''MAX_ITEMS'', ''1'')]) (Resolved ()) =
      Some \<lparr>sys_store = Inl (local_new 1 None), sys_smtp = \<lparr>ldapClient = None\<rparr>, sys_alive = True, sys_listening = True\<rparr>"
    by (simp add: sys_start_def smtp_startServer_def ex_cfg_def smtp_storage_def env_num_def is_digits_def dec_val_def js_or_def)
qed (simp_all add: local_new_def)


end
