(* ===== verification/Tests.thy ===== *)
theory Tests
  imports System
begin

text \<open>
  The repository's test suites, \<open>src/src/storage.test.js\<close> run on
  \<open>RedisStorage\<close> by \<open>src/src/redis-storage.test.js\<close>, and
  \<open>src/src/utils.test.js\<close>. Each test is a boolean function over the model: the
  provider builds the store from the environment the test set (after \<open>flushAll\<close>, an
  empty key space), the pushes run in order (\<open>await\<close> one after the other, or
  \<open>Promise.all\<close>, which runs them all and fails with the first rejection), and the
  test passes when every push succeeded and the expectation holds. The random emails are
  \<open>randomEmail\<close> of \<open>utils.test.js\<close> over the bytes \<open>crypto.randomBytes\<close> gave.
\<close>

section \<open>Test drivers\<close>

text \<open>The key a push of \<open>(user, email, raw)\<close> writes.\<close>

definition push_key :: "string \<times> parsed_email \<times> string \<Rightarrow> string" where
  "push_key x = redis_key (fst x) (p_messageId (fst (snd x)))"

text \<open>The pushes of one test, in order; the first rejection is the result.\<close>

fun redis_pushes ::
  "(time_ms \<Rightarrow> string) \<Rightarrow> redis_storage \<Rightarrow> time_ms \<Rightarrow> (string \<times> parsed_email \<times> string) list \<Rightarrow>
   (js_error + unit) \<times> redis_storage" where
  "redis_pushes toISO s now [] = (Inr (), s)"
| "redis_pushes toISO s now ((v, e, r) # ps) =
     (case redis_push toISO s (Some v) e r now of
        (r1, s1) \<Rightarrow> (case redis_pushes toISO s1 now ps of
          (r2, s2) \<Rightarrow> ((case r1 of Inl err \<Rightarrow> Inl err | Inr _ \<Rightarrow> r2), s2)))"

section \<open>Random inputs and the tests\<close>

text \<open>\<open>buf.toString('hex')\<close>: two lower-case digits per byte.\<close>

definition hex_digits :: string where
  "hex_digits = ''0123456789abcdef''"

definition bytes_hex :: "nat list \<Rightarrow> string" where
  "bytes_hex bs = concat (map (\<lambda>b. [hex_digits ! (b div 16), hex_digits ! (b mod 16)]) bs)"

text \<open>\<open>randomRecipient()\<close> and \<open>randomEmail()\<close> of \<open>utils.test.js\<close>.\<close>

definition randomRecipient :: "nat list \<Rightarrow> string" where
  "randomRecipient bs = bytes_hex bs @ ''@example.com''"

definition randomEmail :: "nat list \<Rightarrow> nat list \<Rightarrow> nat list \<Rightarrow> time_ms \<Rightarrow> parsed_email" where
  "randomEmail bi bs br d =
     \<lparr>p_messageId = bytes_hex bi, p_subject = bytes_hex bs, p_date = d, p_to = Some (randomRecipient br)\<rparr>"

text \<open>
  The provider of \<open>redis-storage.test.js\<close>: \<open>new RedisStorage()\<close> after
  \<open>beforeEach\<close> deleted \<open>MAX_ITEMS\<close> and \<open>TTL\<close> (a test may set \<open>MAX_ITEMS\<close>
  again), then \<open>flushAll\<close>.
\<close>

definition redis_provider :: "proc_env \<Rightarrow> redis_storage option" where
  "redis_provider pe = map_option (\<lambda>n. redis_new n 0) (env_num (map_of pe ''MAX_ITEMS''))"

definition redis_test ::
  "proc_env \<Rightarrow> (time_ms \<Rightarrow> string) \<Rightarrow> time_ms \<Rightarrow> (string \<times> parsed_email \<times> string) list \<Rightarrow>
   (redis_storage \<Rightarrow> bool) \<Rightarrow> bool" where
  "redis_test pe toISO now ps expect =
     (case redis_provider pe of
        None \<Rightarrow> False
      | Some s0 \<Rightarrow> (case redis_pushes toISO s0 now ps of (Inl _, _) \<Rightarrow> False | (Inr _, s) \<Rightarrow> expect s))"

text \<open>The six tests of \<open>storageTests\<close>, in the order of the file.\<close>

definition test_starts_empty :: "(time_ms \<Rightarrow> string) \<Rightarrow> time_ms \<Rightarrow> bool" where
  "test_starts_empty toISO now =
     redis_test [] toISO now [] (\<lambda>s. sr_listUsers (redis_reads now) s = Inr [])"

definition test_respects_MAX_ITEMS ::
  "(time_ms \<Rightarrow> string) \<Rightarrow> time_ms \<Rightarrow> parsed_email \<Rightarrow> parsed_email \<Rightarrow> parsed_email \<Rightarrow> bool" where
  "test_respects_MAX_ITEMS toISO now e1 e2 e3 =
     redis_test [(''MAX_ITEMS'', ''2'')] toISO now
       [(''anonymous'', e1, ''raw''), (''anonymous'', e2, ''raw''), (''anonymous'', e3, ''raw'')]
       (\<lambda>s. map_sum id length (sr_getEmails (redis_reads now) s ''anonymous'') = Inr 2)"

definition test_lists_added ::
  "(time_ms \<Rightarrow> string) \<Rightarrow> time_ms \<Rightarrow> parsed_email \<Rightarrow> parsed_email \<Rightarrow> parsed_email \<Rightarrow> bool" where
  "test_lists_added toISO now e1 e2 e3 =
     redis_test [] toISO now
       [(''anonymous'', e1, ''raw''), (''anonymous'', e2, ''raw''), (''anonymous'', e3, ''raw'')]
       (\<lambda>s. map_sum id length (sr_getEmails (redis_reads now) s ''anonymous'') = Inr 3)"

definition test_filters_by_user ::
  "(time_ms \<Rightarrow> string) \<Rightarrow> time_ms \<Rightarrow> parsed_email \<Rightarrow> parsed_email \<Rightarrow> parsed_email \<Rightarrow> bool" where
  "test_filters_by_user toISO now e1 e2 e3 =
     redis_test [] toISO now
       [(''anonymous'', e1, ''raw''), (''anonymous'', e2, ''raw''), (''user01'', e3, ''raw'')]
       (\<lambda>s. map_sum id length (sr_getEmails (redis_reads now) s ''anonymous'') = Inr 2 \<and>
            map_sum id length (sr_getEmails (redis_reads now) s ''user01'') = Inr 1)"

definition test_lists_all_users ::
  "(time_ms \<Rightarrow> string) \<Rightarrow> time_ms \<Rightarrow> parsed_email \<Rightarrow> parsed_email \<Rightarrow> parsed_email \<Rightarrow> bool" where
  "test_lists_all_users toISO now e1 e2 e3 =
     redis_test [] toISO now
       [(''anonymous'', e1, ''raw''), (''anonymous'', e2, ''raw''), (''user01'', e3, ''raw'')]
       (\<lambda>s. case sr_listUsers (redis_reads now) s of
              Inl _ \<Rightarrow> False
            | Inr us \<Rightarrow> length us = 2 \<and> ''anonymous'' \<in> set us \<and> ''user01'' \<in> set us)"

definition test_recovers ::
  "(time_ms \<Rightarrow> string) \<Rightarrow> time_ms \<Rightarrow> parsed_email \<Rightarrow> parsed_email \<Rightarrow> parsed_email \<Rightarrow> bool" where
  "test_recovers toISO now e1 e e3 =
     redis_test [] toISO now
       [(''anonymous'', e1, ''raw''), (''anonymous'', e, ''raw''), (''anonymous'', e3, ''raw'')]
       (\<lambda>s. sr_getEmail (redis_reads now) s ''anonymous'' (p_messageId e) = Inr (Some ''raw''))"

text \<open>\<open>expect(email).toHaveProperty('to')\<close> and \<open>email.to.text\<close>; the other
  properties are fields of every \<open>parsed_email\<close>.\<close>

definition test_randomEmail :: "parsed_email \<Rightarrow> bool" where
  "test_randomEmail e \<longleftrightarrow> p_to e \<noteq> None"

text \<open>\<open>/^[^@]{8}@example.com$/\<close>, the dot matching any character.\<close>

definition recipient_regex :: "string \<Rightarrow> bool" where
  "recipient_regex s \<longleftrightarrow>
     length s = 20 \<and> CHR ''@'' \<notin> set (take 8 s) \<and> take 8 (drop 8 s) = ''@example'' \<and> drop 17 s = ''com''"

definition test_randomRecipient :: "nat list \<Rightarrow> bool" where
  "test_randomRecipient bs \<longleftrightarrow> recipient_regex (randomRecipient bs)"

section \<open>Lemmas\<close>

lemma mb_bound_bound_append: "mb_bound c (mb_bound c xs @ ys) = mb_bound c (xs @ ys)"
  by (simp add: mb_bound_def take_append min_def)

lemma set_mb_bound_sub: "set (mb_bound c xs) \<subseteq> set xs"
  by (meson mb_bound_suffix set_mono_suffix)

lemma redis_pushes_clean:
  fixes toISO :: "time_ms \<Rightarrow> string" and now :: time_ms
  assumes "redis_inv s" and "\<forall>x\<in>set ps. p_to (fst (snd x)) \<noteq> None"
    and "distinct (map push_key ps)" and "\<forall>x\<in>set ps. push_key x \<notin> fst ` set (rdb s)"
  shows "fst (redis_pushes toISO s now ps) = Inr () \<and> redis_inv (snd (redis_pushes toISO s now ps)) \<and>
    rev (redis_list (rdb (snd (redis_pushes toISO s now ps)))) =
      mb_bound (r_maxItems s) (rev (redis_list (rdb s)) @ map push_key ps) \<and>
    r_maxItems (snd (redis_pushes toISO s now ps)) = r_maxItems s \<and>
    (\<forall>x\<in>set ps. push_key x \<in> set (redis_list (rdb (snd (redis_pushes toISO s now ps)))) \<longrightarrow>
       (\<exists>y h. map_of (rdb (snd (redis_pushes toISO s now ps))) (push_key x) = Some y \<and> rv y = RHash h \<and>
          map_of h ''raw'' = Some (snd (snd x)))) \<and>
    (\<forall>z\<in>set (redis_list (rdb (snd (redis_pushes toISO s now ps)))). z \<notin> set (map push_key ps) \<longrightarrow>
       map_of (rdb (snd (redis_pushes toISO s now ps))) z = map_of (rdb s) z)"
  using assms
proof (induction ps arbitrary: s)
  case Nil
  have "mb_bound (r_maxItems s) (rev (redis_list (rdb s))) = rev (redis_list (rdb s))"
  proof (cases "r_maxItems s = 0")
    case False
    then have "length (rev (redis_list (rdb s))) \<le> r_maxItems s"
      using Nil.prems(1) by (simp add: redis_inv_def Let_def)
    then show ?thesis by (rule mb_bound_small)
  qed (simp add: mb_bound_def)
  then show ?case using Nil.prems(1) by simp
next
  case (Cons x ps)
  obtain v e r where x: "x = (v, e, r)" by (cases x) auto
  obtain t where to: "p_to e = Some t" using Cons.prems(2) x by auto
  let ?k = "redis_key v (p_messageId e)"
  let ?s1 = "snd (redis_push toISO s (Some v) e r now)"
  let ?L = "redis_list (rdb s)"
  let ?L1 = "redis_list (rdb ?s1)"
  have k: "push_key x = ?k" by (simp add: x push_key_def)
  have fr: "?k \<notin> fst ` set (rdb s)" using Cons.prems(4) k by auto
  have p1: "fst (redis_push toISO s (Some v) e r now) = Inr () \<and> redis_inv ?s1 \<and>
      rev ?L1 = mb_bound (r_maxItems s) (rev ?L @ [?k]) \<and>
      map_of (rdb ?s1) ?k = Some \<lparr>rv = RHash (redis_fields toISO v e r t), rexp = None\<rparr> \<and>
      r_maxItems ?s1 = r_maxItems s \<and>
      (\<forall>z\<in>set ?L1. z \<noteq> ?k \<longrightarrow> map_of (rdb ?s1) z = map_of (rdb s) z)"
    by (rule redis_push_clean [OF Cons.prems(1) to fr])
  have L1sub: "set ?L1 \<subseteq> set ?L \<union> {?k}"
    using p1 set_mb_bound_sub [of "r_maxItems s" "rev ?L @ [?k]"] by (metis set_append set_rev empty_set list.set(2) Un_insert_right sup_bot.right_neutral)
  have Lsub: "set ?L \<subseteq> fst ` set (rdb s)" using redis_inv_keys [OF Cons.prems(1)] by blast
  have fresh1: "\<forall>y\<in>set ps. push_key y \<notin> fst ` set (rdb ?s1)"
  proof
    fix y assume y: "y \<in> set ps"
    have "push_key y \<in> set (map push_key ps)" using y by simp
    then have "push_key y \<noteq> ?k" using Cons.prems(3) k by auto
    moreover have "push_key y \<notin> set ?L" using Cons.prems(4) y Lsub by auto
    moreover have "push_key y \<noteq> emailKeys" by (simp add: push_key_def)
    ultimately show "push_key y \<notin> fst ` set (rdb ?s1)"
      using redis_inv_keys [of ?s1] p1 L1sub by auto
  qed
  have ih: "fst (redis_pushes toISO ?s1 now ps) = Inr () \<and> redis_inv (snd (redis_pushes toISO ?s1 now ps)) \<and>
    rev (redis_list (rdb (snd (redis_pushes toISO ?s1 now ps)))) =
      mb_bound (r_maxItems ?s1) (rev ?L1 @ map push_key ps) \<and>
    r_maxItems (snd (redis_pushes toISO ?s1 now ps)) = r_maxItems ?s1 \<and>
    (\<forall>x\<in>set ps. push_key x \<in> set (redis_list (rdb (snd (redis_pushes toISO ?s1 now ps)))) \<longrightarrow>
       (\<exists>y h. map_of (rdb (snd (redis_pushes toISO ?s1 now ps))) (push_key x) = Some y \<and> rv y = RHash h \<and>
          map_of h ''raw'' = Some (snd (snd x)))) \<and>
    (\<forall>z\<in>set (redis_list (rdb (snd (redis_pushes toISO ?s1 now ps)))). z \<notin> set (map push_key ps) \<longrightarrow>
       map_of (rdb (snd (redis_pushes toISO ?s1 now ps))) z = map_of (rdb ?s1) z)"
    using Cons.prems(2,3) fresh1 p1 by (intro Cons.IH) auto
  let ?s2 = "snd (redis_pushes toISO ?s1 now ps)"
  let ?L2 = "redis_list (rdb ?s2)"
  have run: "redis_pushes toISO s now (x # ps) = (fst (redis_pushes toISO ?s1 now ps), ?s2)"
    using p1 by (simp add: x case_prod_beta split: sum.split)
  have list: "rev ?L2 = mb_bound (r_maxItems s) (rev ?L @ map push_key (x # ps))"
    using ih p1 k by (simp add: mb_bound_bound_append)
  have L2sub: "set ?L2 \<subseteq> set ?L1 \<union> set (map push_key ps)"
    using ih set_mb_bound_sub [of "r_maxItems ?s1" "rev ?L1 @ map push_key ps"] by (metis set_append set_rev)
  have kps: "?k \<notin> set (map push_key ps)" using Cons.prems(3) k by simp
  have raw: "\<forall>y\<in>set (x # ps). push_key y \<in> set ?L2 \<longrightarrow>
      (\<exists>z h. map_of (rdb ?s2) (push_key y) = Some z \<and> rv z = RHash h \<and> map_of h ''raw'' = Some (snd (snd y)))"
  proof
    fix y assume y: "y \<in> set (x # ps)"
    show "push_key y \<in> set ?L2 \<longrightarrow>
      (\<exists>z h. map_of (rdb ?s2) (push_key y) = Some z \<and> rv z = RHash h \<and> map_of h ''raw'' = Some (snd (snd y)))"
    proof (cases "y = x")
      case True
      show ?thesis
      proof
        assume "push_key y \<in> set ?L2"
        then have "map_of (rdb ?s2) ?k = map_of (rdb ?s1) ?k" using ih True k kps by auto
        then show "\<exists>z h. map_of (rdb ?s2) (push_key y) = Some z \<and> rv z = RHash h \<and> map_of h ''raw'' = Some (snd (snd y))"
          using p1 True k x by (simp add: redis_fields_def)
      qed
    next
      case False
      then show ?thesis using y ih by auto
    qed
  qed
  have frame: "\<forall>z\<in>set ?L2. z \<notin> set (map push_key (x # ps)) \<longrightarrow> map_of (rdb ?s2) z = map_of (rdb s) z"
  proof (intro ballI impI)
    fix z assume z: "z \<in> set ?L2" and nz: "z \<notin> set (map push_key (x # ps))"
    then have "map_of (rdb ?s2) z = map_of (rdb ?s1) z" using ih by auto
    moreover have "z \<in> set ?L1" using z nz L2sub by auto
    ultimately show "map_of (rdb ?s2) z = map_of (rdb s) z" using p1 nz k by auto
  qed
  show ?case using run ih p1 list raw frame by simp
qed
lemma redis_collect_hashes:
  assumes "redis_noexp db" and "\<forall>k\<in>set ks. \<exists>e h. map_of db k = Some e \<and> rv e = RHash h"
  shows "\<exists>ms. redis_collect now db ks = Inr ms \<and> length ms = length ks"
  using assms(2)
proof (induction ks)
  case (Cons k ks)
  then obtain e h where "map_of db k = Some e" "rv e = RHash h" by auto
  moreover obtain ms where "redis_collect now db ks = Inr ms" "length ms = length ks" using Cons by auto
  ultimately show ?case using assms(1) by (simp add: r_hmget_def r_purge_noexp)
qed simp

lemma redis_inv_scan_keys:
  assumes "redis_inv s" and "\<forall>a\<in>set p. glob_plain a" and "starts_with p ''box:''"
  shows "set (filter (glob (p @ ''*'')) (r_keys now (rdb s))) = {k \<in> set (redis_list (rdb s)). prefix p k}
    \<and> distinct (filter (glob (p @ ''*'')) (r_keys now (rdb s)))"
proof -
  have ne: "redis_noexp (rdb s)" and d: "distinct (map fst (rdb s))" using assms(1) by (simp_all add: redis_inv_def Let_def)
  have rk: "r_keys now (rdb s) = map fst (rdb s)" using ne by (simp add: r_keys_def r_purge_noexp)
  have "\<not> prefix p emailKeys" using assms(3) by (auto simp: starts_with_prefix emailKeys_def prefix_def)
  then show ?thesis using redis_inv_keys [OF assms(1)] glob_prefix_star [OF assms(2)] d rk
    by (auto split: if_splits)
qed

lemma redis_scan_getEmails:
  assumes "redis_inv s" and "\<forall>c\<in>set u. glob_plain c"
  shows "\<exists>ms. sr_getEmails (redis_reads now) s u = Inr ms \<and>
    length ms = length (filter (prefix (''box:'' @ u @ '':'')) (redis_list (rdb s)))"
proof -
  let ?p = "''box:'' @ u @ '':''"
  let ?ks = "filter (glob (?p @ ''*'')) (r_keys now (rdb s))"
  have pl: "\<forall>a\<in>set ?p. glob_plain a" using assms(2) by (simp add: glob_plain_def)
  have sk: "set ?ks = {k \<in> set (redis_list (rdb s)). prefix ?p k}" "distinct ?ks"
    using redis_inv_scan_keys [OF assms(1) pl] by (simp_all add: starts_with_def)
  have get: "sr_getEmails (redis_reads now) s u = redis_collect now (rdb s) ?ks"
    by (simp add: redis_reads_def redis_getEmails_Some user_pattern_def)
  have "\<forall>k\<in>set ?ks. \<exists>e h. map_of (rdb s) k = Some e \<and> rv e = RHash h"
    using sk(1) redis_inv_hash [OF assms(1)] by blast
  moreover have "redis_noexp (rdb s)" using assms(1) by (simp add: redis_inv_def Let_def)
  ultimately obtain ms where "redis_collect now (rdb s) ?ks = Inr ms" "length ms = length ?ks"
    using redis_collect_hashes by blast
  moreover have "length ?ks = length (filter (prefix ?p) (redis_list (rdb s)))"
  proof -
    have "distinct (redis_list (rdb s))" using assms(1) by (simp add: redis_inv_def Let_def)
    then have "length (filter (prefix ?p) (redis_list (rdb s))) = card {k \<in> set (redis_list (rdb s)). prefix ?p k}"
      by (simp add: distinct_card [symmetric] set_filter)
    then show ?thesis using sk by (simp add: distinct_card [symmetric])
  qed
  ultimately show ?thesis using get by simp
qed

lemma redis_scan_listUsers:
  assumes "redis_inv s"
  shows "\<exists>us. sr_listUsers (redis_reads now) s = Inr us \<and> distinct us \<and>
    set us = redis_key_user ` {k \<in> set (redis_list (rdb s)). prefix ''box:'' k}"
proof -
  let ?ks = "filter (glob (''box:'' @ ''*'')) (r_keys now (rdb s))"
  have "set ?ks = {k \<in> set (redis_list (rdb s)). prefix ''box:'' k}"
    using redis_inv_scan_keys [OF assms, of "''box:''"] by (simp add: glob_plain_def starts_with_def)
  moreover have "sr_listUsers (redis_reads now) s = Inr (array_from_set (map redis_key_user ?ks))"
    by (simp add: redis_reads_def redis_listUsers_Some)
  ultimately show ?thesis
    by (simp add: distinct_array_from_set)
qed

lemma redis_key_user_key:
  assumes "CHR '':'' \<notin> set i" and "\<forall>c\<in>set (u @ i). \<not> is_line_term c"
  shows "redis_key_user (redis_key u i) = u"
proof -
  have nt: "\<not> is_line_term CHR '':''" by (simp add: is_line_term_def)
  then have "takeWhile (\<lambda>c. \<not> is_line_term c) (u @ CHR '':'' # i) = u @ CHR '':'' # i"
    using assms(2) by (simp add: takeWhile_eq_all_conv)
  then show ?thesis using key_user_key [OF assms]
    by (simp add: redis_key_user_def redis_key_def email_key_def starts_with_def)
qed
lemma hex_digit_mem: "n < 16 \<Longrightarrow> hex_digits ! n \<in> set hex_digits"
  by (rule nth_mem) (simp add: hex_digits_def)

lemma bytes_hex_chars: "list_all (\<lambda>b. b < 256) bs \<Longrightarrow> set (bytes_hex bs) \<subseteq> set hex_digits"
  by (induction bs) (auto simp: bytes_hex_def intro!: hex_digit_mem)

lemma hex_digits_plain:
  "c \<in> set hex_digits \<Longrightarrow> c \<noteq> CHR '':'' \<and> \<not> is_line_term c \<and> glob_plain c \<and> c \<noteq> CHR ''@''"
  by (auto simp: hex_digits_def is_line_term_def glob_plain_def)

lemma test_eval: "redis_provider [] = Some (redis_new 0 0)" "redis_provider [(''MAX_ITEMS'', ''2'')] = Some (redis_new 2 0)"
  by (simp_all add: redis_provider_def env_num_def is_digits_def dec_val_def)

lemma redis_test_run:
  fixes toISO :: "time_ms \<Rightarrow> string" and now :: time_ms
  assumes "redis_provider pe = Some (redis_new n 0)" and "\<forall>x\<in>set ps. p_to (fst (snd x)) \<noteq> None"
    and "distinct (map push_key ps)"
  defines "s \<equiv> snd (redis_pushes toISO (redis_new n 0) now ps)"
  shows "redis_test pe toISO now ps expect = expect s \<and> redis_inv s \<and>
    redis_list (rdb s) = rev (mb_bound n (map push_key ps)) \<and>
    (\<forall>x\<in>set ps. push_key x \<in> set (redis_list (rdb s)) \<longrightarrow>
       (\<exists>y h. map_of (rdb s) (push_key x) = Some y \<and> rv y = RHash h \<and> map_of h ''raw'' = Some (snd (snd x))))"
proof -
  have c: "fst (redis_pushes toISO (redis_new n 0) now ps) = Inr () \<and> redis_inv s \<and>
      rev (redis_list (rdb s)) = mb_bound n (map push_key ps) \<and>
      (\<forall>x\<in>set ps. push_key x \<in> set (redis_list (rdb s)) \<longrightarrow>
       (\<exists>y h. map_of (rdb s) (push_key x) = Some y \<and> rv y = RHash h \<and> map_of h ''raw'' = Some (snd (snd x))))"
    using redis_pushes_clean [OF redis_inv_new assms(2,3), of n toISO now] unfolding s_def
    by (simp add: redis_new_def redis_list_def)
  obtain r s' where run: "redis_pushes toISO (redis_new n 0) now ps = (r, s')" by fastforce
  then have "r = Inr ()" "s' = s" using c unfolding s_def by simp_all
  then have "redis_test pe toISO now ps expect = expect s"
    using assms(1) run unfolding redis_test_def by simp
  moreover have "redis_list (rdb s) = rev (mb_bound n (map push_key ps))" using c by (simp add: rev_swap)
  ultimately show ?thesis using c by blast
qed

lemma redis_key_prefix_own: "prefix (''box:'' @ u @ '':'') (redis_key u i)"
  by (simp add: redis_key_def email_key_def prefix_def)

lemma redis_key_prefix_box: "prefix ''box:'' (redis_key u i)"
  by (simp add: redis_key_def prefix_def)

lemma redis_getEmail_hash:
  assumes "redis_inv s" and "map_of (rdb s) (redis_key u i) = Some y" and "rv y = RHash h"
  shows "redis_getEmail s u i now = Inr (map_of h ''raw'')"
proof -
  have "redis_noexp (rdb s)" using assms(1) by (simp add: redis_inv_def Let_def)
  then show ?thesis using assms(2,3) by (simp add: redis_getEmail_def r_hget_def r_purge_noexp)
qed

lemma redis_scan_getEmails_len:
  assumes "redis_inv s" and "\<forall>c\<in>set u. glob_plain c"
    and "length (filter (prefix (''box:'' @ u @ '':'')) (redis_list (rdb s))) = n"
  shows "map_sum id length (sr_getEmails (redis_reads now) s u) = Inr n"
  using redis_scan_getEmails [OF assms(1,2), of now] assms(3) by auto

lemma prefix_user_keys:
  "\<And>i. prefix ''box:anonymous:'' (redis_key ''anonymous'' i)"
  "\<And>i. prefix ''box:user01:'' (redis_key ''user01'' i)"
  "\<And>i. \<not> prefix ''box:anonymous:'' (redis_key ''user01'' i)"
  "\<And>i. \<not> prefix ''box:user01:'' (redis_key ''anonymous'' i)"
  using redis_key_prefix_own [of "''anonymous''"] redis_key_prefix_own [of "''user01''"]
  by (simp_all add: redis_key_def email_key_def)

lemma plain_test_users: "\<forall>c\<in>set ''anonymous''. glob_plain c" "\<forall>c\<in>set ''user01''. glob_plain c"
  by (simp_all add: glob_plain_def)

lemma test_pushes_ok: "p_to e1 \<noteq> None \<Longrightarrow> p_to e2 \<noteq> None \<Longrightarrow> p_to e3 \<noteq> None \<Longrightarrow>
    \<forall>x\<in>set [(u1, e1, r1), (u2, e2, r2), (u3, e3, r3)]. p_to (fst (snd x)) \<noteq> None"
  by simp

lemma test_push_keys:
  "map push_key [(u1, e1, r1), (u2, e2, r2), (u3, e3, r3)] =
     [redis_key u1 (p_messageId e1), redis_key u2 (p_messageId e2), redis_key u3 (p_messageId e3)]"
  by (simp add: push_key_def)

lemma test_respects_MAX_ITEMS_passes:
  assumes "p_to e1 \<noteq> None" "p_to e2 \<noteq> None" "p_to e3 \<noteq> None" and "distinct (map push_key [(''anonymous'', e1, ''raw''), (''anonymous'', e2, ''raw''), (''anonymous'', e3, ''raw'')])"
  shows "test_respects_MAX_ITEMS toISO now e1 e2 e3"
proof -
  let ?s = "snd (redis_pushes toISO (redis_new 2 0) now [(''anonymous'', e1, ''raw''), (''anonymous'', e2, ''raw''), (''anonymous'', e3, ''raw'')])"
  have r: "\<And>expect. redis_test [(''MAX_ITEMS'', ''2'')] toISO now [(''anonymous'', e1, ''raw''), (''anonymous'', e2, ''raw''), (''anonymous'', e3, ''raw'')] expect = expect ?s"
    and i: "redis_inv ?s" and l: "redis_list (rdb ?s) = rev (mb_bound 2 (map push_key [(''anonymous'', e1, ''raw''), (''anonymous'', e2, ''raw''), (''anonymous'', e3, ''raw'')]))"
    using redis_test_run [OF test_eval(2) test_pushes_ok [OF assms(1-3)] assms(4)] by blast+
  have "length (filter (prefix (''box:'' @ ''anonymous'' @ '':'')) (redis_list (rdb ?s))) = 2"
    unfolding l test_push_keys by (simp add: mb_bound_def prefix_user_keys)
  then show ?thesis unfolding test_respects_MAX_ITEMS_def r
    using redis_scan_getEmails_len [OF i plain_test_users(1)] by simp
qed

lemma test_lists_added_passes:
  assumes "p_to e1 \<noteq> None" "p_to e2 \<noteq> None" "p_to e3 \<noteq> None" and "distinct (map push_key [(''anonymous'', e1, ''raw''), (''anonymous'', e2, ''raw''), (''anonymous'', e3, ''raw'')])"
  shows "test_lists_added toISO now e1 e2 e3"
proof -
  let ?s = "snd (redis_pushes toISO (redis_new 0 0) now [(''anonymous'', e1, ''raw''), (''anonymous'', e2, ''raw''), (''anonymous'', e3, ''raw'')])"
  have r: "\<And>expect. redis_test [] toISO now [(''anonymous'', e1, ''raw''), (''anonymous'', e2, ''raw''), (''anonymous'', e3, ''raw'')] expect = expect ?s"
    and i: "redis_inv ?s" and l: "redis_list (rdb ?s) = rev (mb_bound 0 (map push_key [(''anonymous'', e1, ''raw''), (''anonymous'', e2, ''raw''), (''anonymous'', e3, ''raw'')]))"
    using redis_test_run [OF test_eval(1) test_pushes_ok [OF assms(1-3)] assms(4)] by blast+
  have "length (filter (prefix (''box:'' @ ''anonymous'' @ '':'')) (redis_list (rdb ?s))) = 3"
    unfolding l test_push_keys by (simp add: mb_bound_def prefix_user_keys)
  then show ?thesis unfolding test_lists_added_def r
    using redis_scan_getEmails_len [OF i plain_test_users(1)] by simp
qed

lemma test_filters_by_user_passes:
  assumes "p_to e1 \<noteq> None" "p_to e2 \<noteq> None" "p_to e3 \<noteq> None" and "distinct (map push_key [(''anonymous'', e1, ''raw''), (''anonymous'', e2, ''raw''), (''user01'', e3, ''raw'')])"
  shows "test_filters_by_user toISO now e1 e2 e3"
proof -
  let ?s = "snd (redis_pushes toISO (redis_new 0 0) now [(''anonymous'', e1, ''raw''), (''anonymous'', e2, ''raw''), (''user01'', e3, ''raw'')])"
  have r: "\<And>expect. redis_test [] toISO now [(''anonymous'', e1, ''raw''), (''anonymous'', e2, ''raw''), (''user01'', e3, ''raw'')] expect = expect ?s"
    and i: "redis_inv ?s" and l: "redis_list (rdb ?s) = rev (mb_bound 0 (map push_key [(''anonymous'', e1, ''raw''), (''anonymous'', e2, ''raw''), (''user01'', e3, ''raw'')]))"
    using redis_test_run [OF test_eval(1) test_pushes_ok [OF assms(1-3)] assms(4)] by blast+
  have "length (filter (prefix (''box:'' @ ''anonymous'' @ '':'')) (redis_list (rdb ?s))) = 2"
    "length (filter (prefix (''box:'' @ ''user01'' @ '':'')) (redis_list (rdb ?s))) = 1"
    unfolding l test_push_keys by (simp_all add: mb_bound_def prefix_user_keys)
  then show ?thesis unfolding test_filters_by_user_def r
    using redis_scan_getEmails_len [OF i plain_test_users(1)] redis_scan_getEmails_len [OF i plain_test_users(2)]
    by simp
qed

lemma test_lists_all_users_passes:
  assumes "p_to e1 \<noteq> None" "p_to e2 \<noteq> None" "p_to e3 \<noteq> None" and "distinct (map push_key [(''anonymous'', e1, ''raw''), (''anonymous'', e2, ''raw''), (''user01'', e3, ''raw'')])"
    and "\<forall>e\<in>{e1, e2, e3}. CHR '':'' \<notin> set (p_messageId e) \<and> (\<forall>c\<in>set (p_messageId e). \<not> is_line_term c)"
  shows "test_lists_all_users toISO now e1 e2 e3"
proof -
  let ?s = "snd (redis_pushes toISO (redis_new 0 0) now [(''anonymous'', e1, ''raw''), (''anonymous'', e2, ''raw''), (''user01'', e3, ''raw'')])"
  have r: "\<And>expect. redis_test [] toISO now [(''anonymous'', e1, ''raw''), (''anonymous'', e2, ''raw''), (''user01'', e3, ''raw'')] expect = expect ?s"
    and i: "redis_inv ?s" and l: "redis_list (rdb ?s) = rev (mb_bound 0 (map push_key [(''anonymous'', e1, ''raw''), (''anonymous'', e2, ''raw''), (''user01'', e3, ''raw'')]))"
    using redis_test_run [OF test_eval(1) test_pushes_ok [OF assms(1-3)] assms(4)] by blast+
  obtain us where us: "sr_listUsers (redis_reads now) ?s = Inr us" "distinct us"
    "set us = redis_key_user ` {k \<in> set (redis_list (rdb ?s)). prefix ''box:'' k}"
    using redis_scan_listUsers [OF i] by blast
  have lt: "\<forall>c\<in>set u. \<not> is_line_term c" if "u \<in> {''anonymous'', ''user01''}" for u
    using that by (auto simp: is_line_term_def)
  have ku: "redis_key_user (redis_key u (p_messageId e)) = u"
    if "u \<in> {''anonymous'', ''user01''}" and "e \<in> {e1, e2, e3}" for u e
    using assms(5) that lt [OF that(1)] by (intro redis_key_user_key) auto
  have sk: "{k \<in> set (redis_list (rdb ?s)). prefix ''box:'' k} =
      {redis_key ''user01'' (p_messageId e3), redis_key ''anonymous'' (p_messageId e2), redis_key ''anonymous'' (p_messageId e1)}"
    unfolding l test_push_keys using redis_key_prefix_box by (auto simp: mb_bound_def)
  have hs: "set us = {''anonymous'', ''user01''}"
    unfolding us(3) sk image_insert image_empty ku [of "''user01''" e3, simplified] ku [of "''anonymous''" e2, simplified]
      ku [of "''anonymous''" e1, simplified] by auto
  moreover have "card {''anonymous'', ''user01''} = 2" by simp
  ultimately have hl: "length us = 2" using us(2) distinct_card by metis
  show ?thesis unfolding test_lists_all_users_def r us(1) sum.case using hs hl by simp
qed

lemma test_recovers_passes:
  assumes "p_to e1 \<noteq> None" "p_to e2 \<noteq> None" "p_to e3 \<noteq> None" and "distinct (map push_key [(''anonymous'', e1, ''raw''), (''anonymous'', e2, ''raw''), (''anonymous'', e3, ''raw'')])"
  shows "test_recovers toISO now e1 e2 e3"
proof -
  let ?s = "snd (redis_pushes toISO (redis_new 0 0) now [(''anonymous'', e1, ''raw''), (''anonymous'', e2, ''raw''), (''anonymous'', e3, ''raw'')])"
  have r: "\<And>expect. redis_test [] toISO now [(''anonymous'', e1, ''raw''), (''anonymous'', e2, ''raw''), (''anonymous'', e3, ''raw'')] expect = expect ?s" and i: "redis_inv ?s"
    and l: "redis_list (rdb ?s) = rev (mb_bound 0 (map push_key [(''anonymous'', e1, ''raw''), (''anonymous'', e2, ''raw''), (''anonymous'', e3, ''raw'')]))"
    and raw: "\<forall>x\<in>set [(''anonymous'', e1, ''raw''), (''anonymous'', e2, ''raw''), (''anonymous'', e3, ''raw'')]. push_key x \<in> set (redis_list (rdb ?s)) \<longrightarrow>
       (\<exists>y h. map_of (rdb ?s) (push_key x) = Some y \<and> rv y = RHash h \<and> map_of h ''raw'' = Some (snd (snd x)))"
    using redis_test_run [OF test_eval(1) test_pushes_ok [OF assms(1-3)] assms(4)] by blast+
  have "push_key (''anonymous'', e2, ''raw'') \<in> set (redis_list (rdb ?s))"
    unfolding l by (simp add: mb_bound_def)
  then obtain y h where "map_of (rdb ?s) (redis_key ''anonymous'' (p_messageId e2)) = Some y" "rv y = RHash h"
      "map_of h ''raw'' = Some ''raw''"
    using raw by (auto simp: push_key_def)
  then have g: "redis_getEmail ?s ''anonymous'' (p_messageId e2) now = Inr (Some ''raw'')"
    using redis_getEmail_hash [OF i] by simp
  have "sr_getEmail (redis_reads now) ?s ''anonymous'' (p_messageId e2) =
      redis_getEmail ?s ''anonymous'' (p_messageId e2) now"
    by (simp only: redis_reads_def store_reads.select_convs)
  then show ?thesis unfolding test_recovers_def r using g by (simp only:)
qed

lemma test_starts_empty_passes: "test_starts_empty toISO now"
proof -
  have "sr_listUsers (redis_reads now) (redis_new 0 0) = Inr []"
    by (simp add: redis_reads_def redis_listUsers_Some redis_new_def
        r_keys_def r_purge_def array_from_set_def)
  then show ?thesis
    unfolding test_starts_empty_def using redis_test_run [OF test_eval(1), of "[]"] by simp
qed

text \<open>
  C12. The repository's storage test suite passes on the Redis store for every input the
  test utilities can produce: whatever the random bytes and dates, as long as the three
  random message identifiers differ, all six tests of \<open>storage.test.js\<close> pass.
\<close>

theorem redis_test_suite_passes:
  fixes toISO :: "time_ms \<Rightarrow> string" and now :: time_ms
    and s1 s2 s3 r1 r2 r3 :: "nat list" and d1 d2 d3 :: time_ms
  assumes bytes: "list_all (\<lambda>b. b < 256) (i1 @ i2 @ i3)"
    and ids: "distinct [bytes_hex i1, bytes_hex i2, bytes_hex i3]"
  defines "e1 \<equiv> randomEmail i1 s1 r1 d1" and "e2 \<equiv> randomEmail i2 s2 r2 d2" and "e3 \<equiv> randomEmail i3 s3 r3 d3"
  shows "test_starts_empty toISO now \<and> test_respects_MAX_ITEMS toISO now e1 e2 e3 \<and>
    test_lists_added toISO now e1 e2 e3 \<and> test_filters_by_user toISO now e1 e2 e3 \<and>
    test_lists_all_users toISO now e1 e2 e3 \<and> test_recovers toISO now e1 e2 e3"
proof -
  have to: "p_to e1 \<noteq> None" "p_to e2 \<noteq> None" "p_to e3 \<noteq> None"
    by (simp_all add: e1_def e2_def e3_def randomEmail_def)
  have id: "p_messageId e1 = bytes_hex i1" "p_messageId e2 = bytes_hex i2" "p_messageId e3 = bytes_hex i3"
    by (simp_all add: e1_def e2_def e3_def randomEmail_def)
  have dA: "distinct (map push_key [(''anonymous'', e1, ''raw''), (''anonymous'', e2, ''raw''), (''anonymous'', e3, ''raw'')])" and dU: "distinct (map push_key [(''anonymous'', e1, ''raw''), (''anonymous'', e2, ''raw''), (''user01'', e3, ''raw'')])"
    using ids unfolding test_push_keys id by (simp_all add: redis_key_def email_key_def)
  have "set (bytes_hex i) \<subseteq> set hex_digits" if "i \<in> {i1, i2, i3}" for i
    using bytes that bytes_hex_chars by auto
  then have "\<forall>e\<in>{e1, e2, e3}. CHR '':'' \<notin> set (p_messageId e) \<and> (\<forall>c\<in>set (p_messageId e). \<not> is_line_term c)"
    using hex_digits_plain unfolding id by (auto simp: e1_def e2_def e3_def randomEmail_def)
  then show ?thesis
    using test_starts_empty_passes test_respects_MAX_ITEMS_passes [OF to dA] test_lists_added_passes [OF to dA]
      test_filters_by_user_passes [OF to dU] test_lists_all_users_passes [OF to dU] test_recovers_passes [OF to dA]
    by blast
qed

lemma length_bytes_hex: "length (bytes_hex bs) = 2 * length bs"
  by (induction bs) (simp_all add: bytes_hex_def)

text \<open>The two tests of \<open>utils.test.js\<close> pass for every four random bytes.\<close>

lemma utils_tests_pass:
  assumes "length br = 4" and "list_all (\<lambda>b. b < 256) br"
  shows "test_randomRecipient br \<and> test_randomEmail (randomEmail bi bs br d)"
proof -
  have "set (bytes_hex br) \<subseteq> set hex_digits" using assms(2) by (rule bytes_hex_chars)
  then have "CHR ''@'' \<notin> set (bytes_hex br)" using hex_digits_plain by blast
  moreover have "length (bytes_hex br) = 8" using assms(1) by (simp add: length_bytes_hex)
  ultimately show ?thesis
    by (simp add: test_randomRecipient_def recipient_regex_def randomRecipient_def
        test_randomEmail_def randomEmail_def)
qed

section \<open>Witnesses\<close>

theorem redis_test_suite_passes_witness:
  "test_starts_empty ex_toISO 0 \<and>
   test_respects_MAX_ITEMS ex_toISO 0 (randomEmail [1] [] [] 0) (randomEmail [2] [] [] 0) (randomEmail [3] [] [] 0) \<and>
   test_lists_added ex_toISO 0 (randomEmail [1] [] [] 0) (randomEmail [2] [] [] 0) (randomEmail [3] [] [] 0) \<and>
   test_filters_by_user ex_toISO 0 (randomEmail [1] [] [] 0) (randomEmail [2] [] [] 0) (randomEmail [3] [] [] 0) \<and>
   test_lists_all_users ex_toISO 0 (randomEmail [1] [] [] 0) (randomEmail [2] [] [] 0) (randomEmail [3] [] [] 0) \<and>
   test_recovers ex_toISO 0 (randomEmail [1] [] [] 0) (randomEmail [2] [] [] 0) (randomEmail [3] [] [] 0)"
proof (rule redis_test_suite_passes)
  show "list_all (\<lambda>b. b < 256) ([1] @ [2] @ [3 :: nat])" by simp
  show "distinct [bytes_hex [1], bytes_hex [2], bytes_hex [3]]" by (simp add: bytes_hex_def hex_digits_def)
qed

end
