(* ===== verification/SendMail.thy ===== *)
theory SendMail
  imports Server
begin

text \<open>
  The developer script \<open>src/send-mail.js\<close>: a \<open>nodemailer\<close> transport to
  \<open>localhost\<close> on \<open>Number(SMTP_PORT)\<close>, without TLS, logged in as
  \<open>userNN\<close>/\<open>passNN\<close> (\<open>send_mail_auth\<close> in \<open>Server\<close>), and one message. The
  transport's choice of port is \<open>nodemailer\<close>'s: a port that is \<open>NaN\<close> or \<open>0\<close>
  falls back to \<open>587\<close> on a connection without TLS.
\<close>

section \<open>Transport\<close>

text \<open>A JavaScript number as far as this script sees one: a natural number, or \<open>NaN\<close>.\<close>

datatype js_number = JNum nat | JNaN

text \<open>
  \<open>Number(v)\<close> of an environment value: \<open>undefined\<close> is \<open>NaN\<close>, the empty string
  \<open>0\<close>, a string of decimal digits its value; other strings are outside the model.
\<close>

definition js_Number :: "string option \<Rightarrow> js_number option" where
  "js_Number v =
     (case v of None \<Rightarrow> Some JNaN
      | Some s \<Rightarrow> if s = [] then Some (JNum 0) else if is_digits s then Some (JNum (dec_val s)) else None)"

record transport_opts =
  t_host :: string
  t_port :: js_number
  t_ignoreTLS :: bool
  t_auth :: "string \<times> string"

text \<open>\<open>createTransport({ host, port: Number(process.env.SMTP_PORT), ignoreTLS, auth })\<close>.\<close>

definition send_mail_transport :: "proc_env \<Rightarrow> nat \<Rightarrow> transport_opts option" where
  "send_mail_transport pe n =
     map_option (\<lambda>p. \<lparr>t_host = ''localhost'', t_port = p, t_ignoreTLS = True, t_auth = send_mail_auth n\<rparr>)
       (js_Number (map_of pe ''SMTP_PORT''))"

text \<open>The port \<open>nodemailer\<close> connects to: \<open>Number(port) || 587\<close> without TLS.\<close>

definition nodemailer_port :: "js_number \<Rightarrow> nat" where
  "nodemailer_port p = (case p of JNum n \<Rightarrow> if n = 0 then 587 else n | JNaN \<Rightarrow> 587)"

section \<open>The message\<close>

record mail_attachment =
  a_filename :: string
  a_path :: string
  a_cid :: string

record mail_opts =
  mo_from :: string
  mo_to :: "string list"
  mo_subject :: string
  mo_cc :: string
  mo_replyTo :: string
  mo_sender :: string
  mo_html :: string
  mo_attachments :: "mail_attachment list"

text \<open>The argument of \<open>transport.sendMail\<close>, the attachment's path relative to the script.\<close>

definition send_mail_message :: mail_opts where
  "send_mail_message =
     \<lparr>mo_from = ''\"Test @ Example.com\" <test@example.com>'',
      mo_to = [''test2@example.com'', ''test4@example.com''],
      mo_subject = ''Test mail'', mo_cc = ''test3@example.com'',
      mo_replyTo = ''no-reply@example.com'', mo_sender = ''test@example.com'',
      mo_html = ''<html><body><h1>E-mail content</h1><img src=\"cid:panda\"/></body></html>'',
      mo_attachments = [\<lparr>a_filename = ''panda.jpg'', a_path = ''panda.jpg'', a_cid = ''panda''\<rparr>]\<rparr>"

section \<open>Lemmas\<close>

text \<open>
  With \<open>SMTP_PORT\<close> set to a positive number, the script connects where the server
  listens.
\<close>

lemma send_mail_port_agrees:
  assumes "0 < n"
  shows "map_option (nodemailer_port \<circ> t_port) (send_mail_transport [(''SMTP_PORT'', nat_str n)] u) = Some n \<and>
    smtp_listen [(''SMTP_PORT'', nat_str n)] = (nat_str n, ''0.0.0.0'')"
  using assms nat_str_digits [of n]
  by (simp add: send_mail_transport_def js_Number_def nodemailer_port_def smtp_listen_def js_or_def)


section \<open>Witnesses\<close>


end
