(* ===== verification/Spec2Isabelle.thy ===== *)
theory Spec2Isabelle
  imports Backends Tests SendMail
begin

text \<open>
  \<^bold>\<open>A verification model of kaptilo-smtp-server.\<close>

  The program is a receive-only SMTP server with a read API. \<open>src/src/smtp-server.js\<close>
  (class \<open>SMTP\<close>) authenticates sessions in \<open>onAuth\<close> (modes \<open>none\<close>,
  \<open>basic\<close>, \<open>ldap\<close>; the last delegates to \<open>src/src/ldap-client.js\<close>) and hands
  each received message from \<open>onData\<close> to a store: \<open>src/src/local-storage.js\<close>
  (in-process) or \<open>src/src/redis-storage.js\<close> (Redis), both with \<open>push\<close>,
  \<open>getEmails\<close>, \<open>getEmail\<close> and \<open>listUsers\<close>. \<open>src/src/api-server.js\<close> forwards
  three HTTP routes to the reads.

  \<^bold>\<open>Theories.\<close>
  \<^item> \<open>Prelude\<close>: the model's types (\<open>time_ms\<close>, \<open>js_user\<close>, \<open>js_error\<close>) and the
    JavaScript array primitives (\<open>js_slice_neg\<close> for \<open>slice(-n)\<close>, \<open>starts_with\<close>,
    \<open>array_from_set\<close> for \<open>Array.from(new Set)\<close>) with their lemmas.
  \<^item> \<open>JsString\<close>: the string primitives the code uses: the \<open>^(.*):.*\<close> replace
    (\<open>key_user\<close>), \<open>/[<>]/g\<close> (\<open>strip_angles\<close>), \<open>split\<close> and \<open>trim\<close>.
    Characters are code units below 256.
  \<^item> \<open>Mailbox\<close>: the parsed message and the stored record, the composite key
    \<open>email_key\<close>, the store interface \<open>store_push\<close>, and the abstract mailbox
    (\<open>mb_insert\<close>, \<open>mb_get\<close>, \<open>mb_list\<close>, \<open>mb_users\<close>): the contract of the
    specification, append, keep the newest \<open>maxItems\<close>, hide what is older than
    \<open>ttl\<close> minutes.
  \<^item> \<open>LocalStorage\<close>: \<open>LocalStorage\<close> as the record \<open>local_storage\<close> of its four
    fields; \<open>local_push\<close> is \<open>push\<close> (record, append, \<open>local_evict\<close> for the
    \<open>MAX_ITEMS\<close> branch, \<open>local_checkTtl\<close> for \<open>checkTtl\<close>), and the three reads.
    \<open>local_reachable\<close> is the set of states pushes reach; \<open>local_abs\<close> maps a state to
    the abstract mailbox.
  \<^item> \<open>Redis\<close>: the Redis server the backend relies on, from the Redis documentation: a
    key space of hashes and lists with deadlines, the commands as the datatype \<open>rcmd\<close>
    run in order by \<open>r_run\<close> (the first failure is reported, all run), \<open>DBSIZE\<close>,
    \<open>RPOP\<close> with a count, \<open>HGET\<close>, \<open>HMGET\<close>, the glob patterns of \<open>MATCH\<close>
    (\<open>glob\<close>, a terminating \<open>function\<close>) and \<open>SCAN\<close> as the relation
    \<open>r_scan_ok\<close>.
  \<^item> \<open>RedisStorage\<close>: \<open>RedisStorage\<close>; \<open>redis_push\<close> issues the commands
    \<open>redis_issue\<close> lists, in the order of the \<open>Promise.all\<close> array, stopping where
    \<open>email.to.text\<close> throws, then \<open>expire\<close> and \<open>redis_evict\<close>
    (\<open>dbSize\<close>, \<open>rPopCount\<close>, \<open>del\<close>). \<open>redis_inv\<close> is the agreement of the
    list \<open>emailKeys\<close> with the hashes, \<open>redis_clean\<close> the states reached without
    retention by complete pushes under new keys.
  \<^item> \<open>Ldap\<close>: \<open>LdapClient.connect\<close>, \<open>getSearchEntry\<close> (a promise that stays
    \<open>Pending\<close> when the search only ends) and \<open>auth\<close>, over a directory given as a
    parameter (\<open>ldap_server\<close>: bind outcomes, search events, unbind outcome).
  \<^item> \<open>Smtp\<close>: \<open>onAuth\<close> (\<open>smtp_onAuth\<close>) with the cached \<open>ldapClient\<close> field as
    state and the callback as the list of its invocations; \<open>onData\<close>
    (\<open>smtp_onData\<close>) as the stream listeners, the parse, the identifier rewrite and one
    push over any \<open>store_push\<close>, the callback as an optional answer (\<open>None\<close>: never
    called).
  \<^item> \<open>Backends\<close>: the equivalence of the two stores. \<open>backends_sim\<close> relates a
    volatile store without retention to a Redis store (same capacity, the key list equal
    to \<open>emailKeys\<close> read oldest first with the \<open>box:\<close> prefix, every record's raw text
    in its hash); \<open>both_clean\<close> is the pairs reached by the same clean pushes.
  \<^item> \<open>Api\<close>: \<open>API\<close> of \<open>src/src/api-server.js\<close>: the three routes
    (\<open>api_route_of\<close>), \<open>try/res.send/catch next\<close> as \<open>api_respond\<close>, the handlers
    (\<open>api_handle\<close>) over the reads of a store given as a record (\<open>store_reads\<close>,
    with \<open>local_reads\<close> and \<open>redis_reads\<close>), and \<open>SMTP.getEmail\<close>
    (\<open>smtp_getEmail\<close>, in \<open>Smtp\<close>) that parses the stored raw text.
  \<^item> \<open>Server\<close>: start-up over the environment as an association list: the
    \<open>SMTP_OPT_\<close> option bag with \<open>lodash.camelcase\<close> (\<open>smtp_options\<close>,
    \<open>smtp_server_options\<close>), the store the \<open>REDIS\<close> switch selects with its
    constructor's \<open>MAX_ITEMS\<close> and \<open>TTL\<close> (\<open>smtp_storage\<close>), both listen
    addresses, the LDAP URL, and the credentials of \<open>src/send-mail.js\<close>.
  \<^item> \<open>System\<close>: the process of \<open>src/index.js\<close>: the store behind \<open>this.storage\<close>
    as the sum of the two stores (\<open>storage_push\<close>, \<open>storage_reads\<close>), start-up
    (\<open>sys_start\<close>, with \<open>smtp_startServer\<close> and the outcome of the Redis connect),
    the SMTP library's use of the two callbacks (\<open>sys_session\<close>: \<open>530\<close> without
    \<open>AUTH\<close> unless \<open>authOptional\<close> is truthy, the first \<open>onAuth\<close> answer
    decides), and the event loop (\<open>sys_step\<close>, \<open>sys_run\<close>) over sessions, HTTP
    requests, \<open>error\<close> events and signals.
  \<^item> \<open>Tests\<close>: the repository's test suites (\<open>src/src/storage.test.js\<close> on
    \<open>RedisStorage\<close>, \<open>src/src/utils.test.js\<close>): the random emails from their bytes,
    the provider, the pushes of each test in order (\<open>redis_pushes\<close>) and each test as a
    boolean function (\<open>test_respects_MAX_ITEMS\<close> and the others).
  \<^item> \<open>SendMail\<close>: the test client \<open>src/send-mail.js\<close>: its transport options,
    the port \<open>nodemailer\<close> then uses, and its message as data.
  \<^item> this theory: the SMTP front end composed with the volatile store and the API.

  \<^bold>\<open>What is proved.\<close> For the volatile store: the capacity bound and the key/record
  agreement on every reachable state (rule induction over \<open>local_reachable\<close>), a
  functional refinement of \<open>push\<close> to \<open>mb_insert\<close>, the push/getEmail round trip,
  the exact results of \<open>getEmails\<close> and \<open>listUsers\<close> on consistent stores, that
  \<open>TTL=0\<close> still drops messages, and, for every store, where the composite key
  \<open>user:id\<close> departs from the contract: \<open>getEmails(a)\<close> lists the messages of a user
  \<open>a:b\<close>, an identifier \<open>x:y\<close> of user \<open>a\<close> makes \<open>listUsers\<close> name a user
  \<open>a:x\<close>, and a message \<open>b:c\<close> of user \<open>a\<close> is what \<open>getEmail('a:b', 'c')\<close>
  returns; a message without To header leaves the store unchanged. For Redis: on clean
  states the capacity bound, the refinement of the eviction list to the capacity rule and
  the round trip; the \<open>scanIterator\<close> loops always end with exactly the matching live
  keys, and for every store \<open>getEmails('*')\<close> reads the keys of every user (the name is
  a glob pasted into \<open>MATCH\<close>). For the front end: the outcome of each authentication
  mode, that in \<open>basic\<close> mode an entry \<open>a:b:c\<close> admits two users, that a failed
  administrator bind answers the configuration error and then the outcome on the unbound
  client (once only), that a search without entry never answers, and that an empty
  password becomes the administrator's; the single push performed by \<open>onData\<close> and
  the exact cases in which it never answers. Across components: a successful
  \<open>onData\<close> over the volatile store makes the message readable through the HTTP route
  and keeps the capacity bound, and after the same clean pushes the two stores answer
  \<open>getEmail\<close> alike (a simulation proved by rule induction). For start-up: decimal
  \<open>MAX_ITEMS\<close> and \<open>TTL\<close> configure the selected store exactly (a round trip
  through \<open>toString\<close> and \<open>Number\<close>). For the process: started with the volatile
  store it keeps the capacity bound through any sequence of events (an invariant of
  \<open>sys_run\<close>, by induction on the events); in \<open>basic\<close> mode without an override no
  session changes the store unless it authenticated with listed credentials; and with
  \<open>SMTP_OPT_AUTH_OPTIONAL=true\<close>, in any mode, a session without \<open>AUTH\<close> reaches
  \<open>onData\<close> with the user undefined. For the tests: all six storage tests pass on the
  Redis model for every input the test utilities produce (with distinct random
  identifiers), proved once per test over arbitrary emails; and in every environment
  without \<open>SMTP_PORT\<close> the test client connects to another port than the server
  listens on. Every theorem with a hypothesis has a witness at a concrete input; the
  closed scenarios behind the findings (\<open>redis_ttl_breaks_bound\<close>,
  \<open>redis_duplicate_breaks_bound\<close>, \<open>redis_missing_to_partial\<close>,
  \<open>redis_ttl_from_insertion\<close>, \<open>sys_opt_override_scenario\<close>) are lemmas
  evaluated by \<open>code_simp\<close>.

  \<^bold>\<open>Choices.\<close> Time is an integer of milliseconds; a whole operation runs at one
  instant \<open>now\<close> (the model does not interleave the clock with the commands of one
  \<open>push\<close>). \<open>MAX_ITEMS\<close> and \<open>TTL\<close> are kept as their numeric values (the code
  compares the strings numerically); the volatile store keeps \<open>TTL\<close> as the
  environment string's presence and value because it tests its truthiness. No fuel is
  needed: every loop of the code runs over a finite list and is structural recursion,
  \<open>glob\<close> terminates by the measure of its two arguments, and the \<open>SCAN\<close> cursor
  loop, which has no structural argument, is a \<open>partial_function (option)\<close> proved to
  return by induction on the keys left after the cursor (\<open>COUNT\<close> is Redis's default
  10; the cursor of the model's server is a position in the key space). The process
  handles one event at a time: the awaits inside one \<open>push\<close> or one session are not
  interleaved with other events. A promise of \<open>onData\<close> that rejects after the
  stream ended has no handler, and the process then exits (Node's default for an
  unhandled rejection), as for a rejected \<open>storage.connect()\<close> at start-up. An unsettled promise is the
  value \<open>Pending\<close>, so non-answers are results that theorems state.

  \<^bold>\<open>Not modelled.\<close> Network and process I/O: the \<open>listen\<close> calls beyond their
  addresses, the Redis and LDAP connections beyond their outcomes, \<open>dotenv\<close> (the
  environment is a parameter), the log lines, and the connection and MIME building of
  the \<open>nodemailer\<close> transport in \<open>src/send-mail.js\<close>. The SMTP wire protocol beyond
  the order of \<open>AUTH\<close> and \<open>DATA\<close>; the MIME parser (a parameter from the raw text
  to a parsed message or a rejection); \<open>Date.toISOString\<close> (a parameter); Express
  beyond the route matching of the three routes (the decoding of parameters, the static
  files of \<open>src/public\<close>); \<open>camelCase\<close> on names other than capitals and
  underscores; \<open>Number\<close> on strings other than decimal digits (\<open>smtp_storage\<close> is
  then \<open>None\<close>). Concurrency: the interleaving of SMTP sessions inside a session, and
  of the commands of the pushes a test runs under \<open>Promise.all\<close> (the model runs them
  one after the other). Jest itself.

  \<^bold>\<open>Scope of the model.\<close> The parser's result always has a \<open>Subject\<close> and a
  \<open>Date\<close> (\<open>parsed_mail\<close>, \<open>parsed_email\<close>): a message without either, for which
  \<open>mailparser\<close> leaves the field undefined, is outside the model, so the theorems on
  \<open>push\<close> speak of messages with both headers. The raw text is the concatenation of
  the chunks (UTF-8 decoding is the identity). The Redis server's \<open>DBSIZE\<close> counts the
  live keys, and its \<open>SCAN\<close> is one cursor order without repeated keys (real Redis
  may return a key twice; \<open>redis_scan_user\<close> is stated for any complete scan, the
  relation \<open>r_scan_ok\<close>).
  \<open>smtp_server_options\<close> keeps the properties in insertion order, while JavaScript
  enumerates integer-like names first; only lookups by name are used. The TLS
  requirement \<open>smtp-server\<close> puts on \<open>AUTH\<close>, and a failing \<open>LdapClient\<close>
  constructor, are not modelled.
\<close>

section \<open>The SMTP front end over the volatile store\<close>

lemma onData_local_reachable:
  assumes "local_reachable s"
  shows "local_reachable (snd (smtp_onData local_push parse s u evs now))"
  using assms by (rule smtp_onData_preserves) (rule local_reachable_push [OF assms])

lemma onData_local_stored:
  assumes "fst (smtp_onData local_push parse s u evs now) = Some DataOk"
  shows "\<exists>txt pm mid. smtp_read_stream [] evs = Some (Inr txt) \<and> parse txt = Inr pm \<and>
    m_messageId pm = Some mid \<and>
    ((\<forall>n. ttl s = Some n \<longrightarrow> now - int n * 60000 \<le> m_date pm) \<longrightarrow>
      local_getEmail (snd (smtp_onData local_push parse s u evs now)) (user_str u) (strip_angles mid) =
        Some txt)"
proof (cases rule: smtp_onData_cases [where evs = evs and parse = parse])
  case (pushed t pm mid)
  let ?p = "local_push s u (onData_email pm mid) t now"
  have run: "smtp_onData local_push parse s u evs now = (case fst ?p of Inl _ \<Rightarrow> None | Inr _ \<Rightarrow> Some DataOk, snd ?p)"
    using pushed by (rule smtp_onData_Inr)
  then have "?p = (Inr (), snd (smtp_onData local_push parse s u evs now))"
    using assms by (cases "fst ?p") (auto simp: prod_eq_iff)
  then have "(\<forall>n. ttl s = Some n \<longrightarrow> now - int n * 60000 \<le> m_date pm) \<longrightarrow>
      (\<exists>m. local_record u (onData_email pm mid) t = Inr m \<and>
        emails (snd (smtp_onData local_push parse s u evs now)) (email_key (user_str u) (strip_angles mid)) = Some m)"
    using local_push_stored [of s u "onData_email pm mid" t now] by (simp add: onData_email_def)
  then show ?thesis using pushed local_record_Inr by (auto simp: local_getEmail_def)
qed (use assms in \<open>simp_all add: smtp_onData_quiet smtp_onData_def\<close>)

text \<open>
  C13. End to end through the HTTP API: when the data callback of the SMTP server
  answers success over the volatile store, the route
  \<open>/api/users/:user/emails/:messageId\<close>, with the session's user and the identifier
  stripped of its angle brackets, sends the parsed message and its raw text, unless it
  is already older than the retention window; an empty message is sent as \<open>null\<close>.
\<close>

theorem api_serves_received:
  assumes "fst (smtp_onData local_push parse s u evs now) = Some DataOk"
  shows "\<exists>txt pm mid. smtp_read_stream [] evs = Some (Inr txt) \<and> parse txt = Inr pm \<and>
    m_messageId pm = Some mid \<and>
    (user_str u \<noteq> [] \<and> strip_angles mid \<noteq> [] \<longrightarrow>
      api_route_of [''api'', ''users'', user_str u, ''emails'', strip_angles mid] =
        Some (REmail (user_str u) (strip_angles mid))) \<and>
    ((\<forall>n. ttl s = Some n \<longrightarrow> now - int n * 60000 \<le> m_date pm) \<longrightarrow>
      api_handle local_reads parse (snd (smtp_onData local_push parse s u evs now))
        (REmail (user_str u) (strip_angles mid)) =
        Send (BEmail (if txt = [] then None else Some (pm, txt))))"
proof -
  obtain msg pm mid where rd: "smtp_read_stream [] evs = Some (Inr msg)" and ps: "parse msg = Inr pm"
    and id: "m_messageId pm = Some mid"
    and st: "(\<forall>n. ttl s = Some n \<longrightarrow> now - int n * 60000 \<le> m_date pm) \<longrightarrow>
      local_getEmail (snd (smtp_onData local_push parse s u evs now)) (user_str u) (strip_angles mid) =
        Some msg"
    using onData_local_stored [OF assms] by blast
  show ?thesis
    using rd ps id st by (simp add: api_getEmail_local api_route_of_getEmail)
qed

text \<open>
  The capacity bound survives the SMTP front end: a volatile store reached by
  any sequence of data callbacks, whatever they answer, never holds more than a positive
  \<open>maxItems\<close> records.
\<close>

lemma onData_local_bound:
  assumes "local_reachable s" and "0 < maxItems s"
  shows "card (dom (emails (snd (smtp_onData local_push parse s u evs now)))) \<le> maxItems s"
proof -
  have r: "local_reachable (snd (smtp_onData local_push parse s u evs now))"
    using assms(1) by (rule onData_local_reachable)
  have "maxItems (snd (smtp_onData local_push parse s u evs now)) = maxItems s"
  proof (cases rule: smtp_onData_cases [where evs = evs and parse = parse])
    case (pushed t pm mid)
    then show ?thesis using smtp_onData_Inr [of evs t parse pm mid local_push s u now] by simp
  qed (simp_all add: smtp_onData_quiet smtp_onData_def)
  with r assms(2) local_reachable_inv local_wf_card show ?thesis
    by (metis local_bounded_def order_trans)
qed

theorem api_serves_received_witness:
  "\<exists>txt pm mid. smtp_read_stream [] [Chunk ''hel'', Chunk ''lo'', StreamEnd] = Some (Inr txt) \<and>
    ex_parse txt = Inr pm \<and> m_messageId pm = Some mid \<and>
    (user_str (Some ''u'') \<noteq> [] \<and> strip_angles mid \<noteq> [] \<longrightarrow>
      api_route_of [''api'', ''users'', user_str (Some ''u''), ''emails'', strip_angles mid] =
        Some (REmail (user_str (Some ''u'')) (strip_angles mid))) \<and>
    ((\<forall>n. ttl (local_new 1 None) = Some n \<longrightarrow> 0 - int n * 60000 \<le> m_date pm) \<longrightarrow>
      api_handle local_reads ex_parse (snd (smtp_onData local_push ex_parse (local_new 1 None) (Some ''u'')
          [Chunk ''hel'', Chunk ''lo'', StreamEnd] 0)) (REmail (user_str (Some ''u'')) (strip_angles mid)) =
        Send (BEmail (if txt = [] then None else Some (pm, txt))))"
proof -
  have "fst (smtp_onData local_push ex_parse (local_new 1 None) (Some ''u'')
      [Chunk ''hel'', Chunk ''lo'', StreamEnd] 0) = Some DataOk"
    by code_simp
  then show ?thesis by (rule api_serves_received)
qed

end
